(* ===== verification/Prelude.thy ===== *)
theory Prelude
  imports Main "HOL-Library.Word" "HOL-Library.Sublist"
begin

text \<open>
  Shared vocabulary of the development: the machine types of the Rust sources, the
  collections of rewrite and preservation facts the component theories fill, and the
  generic lemmas on lists, options and maps they share.
\<close>

section \<open>Types\<close>

text \<open>
  A \<open>Vec<u8>\<close> or \<open>&[u8]\<close> is a list of bytes; a Rust \<open>String\<close> is the HOL \<open>string\<close>
  of its UTF-8 bytes (a HOL character is a byte), so that \<open>len\<close>, equality, ordering,
  prefixes and splitting at an ASCII character are list operations, as they are in Rust.
  A \<open>Result<'a, 'e>\<close> is the sum \<open>'e + 'a\<close>.
\<close>

type_synonym byte = "8 word"
type_synonym u16 = "16 word"
type_synonym u32 = "32 word"
type_synonym u64 = "64 word"
type_synonym bytes = "byte list"
type_synonym ('e, 'a) res = "'e + 'a"

text \<open>An array \<open>[u8; 32]\<close> is a byte list of length 32.\<close>

definition arr32 :: "bytes \<Rightarrow> bool" where
  "arr32 k \<longleftrightarrow> length k = 32"

section \<open>Collections of facts\<close>

named_theorems wire_simps \<open>encoding and decoding of the wire formats\<close>
named_theorems step_inv \<open>preservation of a component's invariant by one of its operations\<close>
named_theorems str_simps \<open>rewriting of the string and path functions\<close>

section \<open>Generic lemmas\<close>

lemma byte_lt: "unat (b :: byte) < 256"
  using unsigned_less[of b, where ?'a = nat] by simp

lemma take_drop_split: "n \<le> length xs \<Longrightarrow> take n xs @ drop n xs = xs"
  by simp

lemma set_dropWhile_subset: "set (dropWhile P xs) \<subseteq> set xs"
  by (meson set_dropWhileD subsetI)

lemma find_None_iff_all: "find P xs = None \<longleftrightarrow> (\<forall>x\<in>set xs. \<not> P x)"
  by (auto simp: find_None_iff)

lemma find_SomeD: "find P xs = Some x \<Longrightarrow> x \<in> set xs \<and> P x"
  by (auto simp: find_Some_iff)

lemma find_append:
  "find P (xs @ ys) = (case find P xs of Some x \<Rightarrow> Some x | None \<Rightarrow> find P ys)"
  by (induction xs) auto

lemma find_filter_other:
  "(\<And>x. P x \<Longrightarrow> Q x) \<Longrightarrow> find P (filter Q xs) = find P xs"
  by (induction xs) auto

lemma find_distinct_key:
  "distinct (map f xs) \<Longrightarrow> x \<in> set xs \<Longrightarrow> find (\<lambda>y. f y = f x) xs = Some x"
  by (induction xs) (auto simp: image_iff)

lemma distinct_map_filterI: "distinct (map f xs) \<Longrightarrow> distinct (map f (filter P xs))"
  by (rule distinct_map_filter)

lemma length_filter_neq:
  "(length (filter P xs) \<noteq> length xs) = (\<exists>x\<in>set xs. \<not> P x)"
  by (metis filter_id_conv length_filter_less nat_neq_iff)

lemma map_upd_dom_card:
  "finite (dom m) \<Longrightarrow> card (dom (m(k \<mapsto> v))) \<le> Suc (card (dom m))"
  by (simp add: card_insert_if)

section \<open>Event-driven components\<close>

text \<open>
  A daemon component is a state and a handler that takes one event at a time. An
  invariant every handler call keeps holds after any sequence of events; a measure no
  handler call lets grow stays bounded by its start.
\<close>

locale event_system =
  fixes step :: "'s \<Rightarrow> 'e \<Rightarrow> 's"
    and inv :: "'s \<Rightarrow> bool"
  assumes step_keeps: "inv s \<Longrightarrow> inv (step s e)"
begin

lemma run_keeps: "inv s \<Longrightarrow> inv (foldl step s es)"
  by (induction es arbitrary: s) (simp_all add: step_keeps)

lemma prefix_keeps: "inv s \<Longrightarrow> prefix fs es \<Longrightarrow> inv (foldl step s fs)"
  by (rule run_keeps)

end

text \<open>
  A system whose environment keeps to rules that depend on the state: the runs in which every
  event was allowed when it happened keep the invariant.
\<close>

fun guarded :: "('s \<Rightarrow> 'e \<Rightarrow> 's) \<Rightarrow> ('s \<Rightarrow> 'e \<Rightarrow> bool) \<Rightarrow> 's \<Rightarrow> 'e list \<Rightarrow> bool" where
  "guarded step allowed s [] \<longleftrightarrow> True"
| "guarded step allowed s (e # es) \<longleftrightarrow> allowed s e \<and> guarded step allowed (step s e) es"

lemma guarded_append: "guarded step allowed s (xs @ ys) \<longleftrightarrow> guarded step allowed s xs \<and> guarded step allowed (foldl step s xs) ys"
  by (induction xs arbitrary: s) auto

locale guarded_system =
  fixes step :: "'s \<Rightarrow> 'e \<Rightarrow> 's"
    and allowed :: "'s \<Rightarrow> 'e \<Rightarrow> bool"
    and inv :: "'s \<Rightarrow> bool"
  assumes allowed_keeps: "inv s \<Longrightarrow> allowed s e \<Longrightarrow> inv (step s e)"
begin

lemma guarded_keeps: "inv s \<Longrightarrow> guarded step allowed s es \<Longrightarrow> inv (foldl step s es)"
  by (induction es arbitrary: s) (simp_all add: allowed_keeps)

end

sublocale event_system \<subseteq> free: guarded_system step "\<lambda>_ _. True" inv
  by unfold_locales (rule step_keeps)

section \<open>Refinement\<close>

text \<open>
  A component with an abstract specification: a labelled transition relation over abstract
  states. Every handler call of the component, on events that satisfy the conditions of its
  environment, is a step of the specification under the abstraction.
\<close>

inductive arun :: "('a \<Rightarrow> 'l \<Rightarrow> 'a \<Rightarrow> bool) \<Rightarrow> 'a \<Rightarrow> 'l list \<Rightarrow> 'a \<Rightarrow> bool" for astep where
  arun_Nil: "arun astep a [] a"
| arun_Cons: "astep a l b \<Longrightarrow> arun astep b ls c \<Longrightarrow> arun astep a (l # ls) c"

locale refinement =
  fixes cstep :: "'c \<Rightarrow> 'e \<Rightarrow> 'c"
    and inv :: "'c \<Rightarrow> bool"
    and ok :: "'e \<Rightarrow> bool"
    and abs :: "'c \<Rightarrow> 'a"
    and astep :: "'a \<Rightarrow> 'l \<Rightarrow> 'a \<Rightarrow> bool"
    and label :: "'e \<Rightarrow> 'l"
  assumes cstep_keeps: "inv s \<Longrightarrow> ok e \<Longrightarrow> inv (cstep s e)"
    and simulates: "inv s \<Longrightarrow> ok e \<Longrightarrow> astep (abs s) (label e) (abs (cstep s e))"

sublocale refinement \<subseteq> steps: guarded_system cstep "\<lambda>_ e. ok e" inv
  by unfold_locales (rule cstep_keeps)

context refinement
begin

lemma guarded_all: "guarded cstep (\<lambda>_ e. ok e) s es \<longleftrightarrow> list_all ok es"
  by (induction es arbitrary: s) simp_all

lemma runs_keep: "inv s \<Longrightarrow> list_all ok es \<Longrightarrow> inv (foldl cstep s es)"
  using steps.guarded_keeps by (simp add: guarded_all)

lemma runs_refine: "inv s \<Longrightarrow> list_all ok es \<Longrightarrow> arun astep (abs s) (map label es) (abs (foldl cstep s es))"
  by (induction es arbitrary: s) (auto intro: arun_Nil arun_Cons simulates simp: cstep_keeps)

end

end
