(* ===== verification/Rust_Std.thy ===== *)
theory Rust_Std
  imports Prelude "HOL-Library.Char_ord" "HOL-Library.List_Lexorder"
begin

text \<open>
  The parts of the Rust language and standard library the sources use: bytes of a string,
  UTF-8 decoding and \<open>char\<close> classification, \<open>trim\<close>, ASCII case folding, splitting,
  integer formatting and parsing, big-endian integers, and Unix paths. Strings are ordered
  bytewise, which is the lexicographic order of \<open>HOL-Library.List_Lexorder\<close> on the
  character order of \<open>HOL-Library.Char_ord\<close>.
\<close>

section \<open>Strings and bytes\<close>

definition str_bytes :: "string \<Rightarrow> bytes" where
  "str_bytes s = map (\<lambda>c. word_of_nat (of_char c)) s"

definition bytes_str :: "bytes \<Rightarrow> string" where
  "bytes_str bs = map (\<lambda>b. char_of (unat b)) bs"

lemma length_str_bytes [simp]: "length (str_bytes s) = length s"
  by (simp add: str_bytes_def)

lemma length_bytes_str [simp]: "length (bytes_str b) = length b"
  by (simp add: bytes_str_def)

lemma bytes_str_bytes [simp]: "bytes_str (str_bytes s) = s"
proof -
  have "char_of (unat (word_of_nat (of_char c) :: byte)) = c" for c :: char
  proof -
    have "(of_char c :: nat) < 256" by simp
    then have "unat (word_of_nat (of_char c) :: byte) = of_char c"
      by (simp add: unat_of_nat take_bit_eq_mod)
    then show ?thesis by simp
  qed
  then show ?thesis by (simp add: bytes_str_def str_bytes_def comp_def map_idI)
qed

lemma str_bytes_str [simp]: "str_bytes (bytes_str b) = b"
proof -
  have "word_of_nat (of_char (char_of (unat w) :: char)) = w" for w :: byte
    using byte_lt[of w] by simp
  then show ?thesis by (simp add: bytes_str_def str_bytes_def comp_def map_idI)
qed

lemma str_bytes_inject [simp]: "str_bytes s = str_bytes t \<longleftrightarrow> s = t"
  by (metis bytes_str_bytes)

section \<open>UTF-8\<close>

text \<open>
  The first scalar value of a byte sequence and its width, by the well-formed sequences of
  the Unicode standard (table 3-7), which \<open>std::str::from_utf8\<close> checks.
\<close>

definition is_cont :: "nat \<Rightarrow> bool" where
  "is_cont b \<longleftrightarrow> 128 \<le> b \<and> b \<le> 191"

definition utf8_head :: "nat list \<Rightarrow> (nat \<times> nat) option" where
  "utf8_head bs =
    (case bs of
       [] \<Rightarrow> None
     | a # rest \<Rightarrow>
       if a < 128 then Some (a, 1)
       else if 194 \<le> a \<and> a \<le> 223 then
         (case rest of
            b # _ \<Rightarrow> if is_cont b then Some ((a - 192) * 64 + (b - 128), 2) else None
          | [] \<Rightarrow> None)
       else if 224 \<le> a \<and> a \<le> 239 then
         (case rest of
            b # c # _ \<Rightarrow>
              if is_cont b \<and> is_cont c \<and> (a = 224 \<longrightarrow> 160 \<le> b) \<and> (a = 237 \<longrightarrow> b \<le> 159)
              then Some ((a - 224) * 4096 + (b - 128) * 64 + (c - 128), 3) else None
          | _ \<Rightarrow> None)
       else if 240 \<le> a \<and> a \<le> 244 then
         (case rest of
            b # c # d # _ \<Rightarrow>
              if is_cont b \<and> is_cont c \<and> is_cont d
                \<and> (a = 240 \<longrightarrow> 144 \<le> b) \<and> (a = 244 \<longrightarrow> b \<le> 143)
              then Some ((a - 240) * 262144 + (b - 128) * 4096 + (c - 128) * 64 + (d - 128), 4)
              else None
          | _ \<Rightarrow> None)
       else None)"

text \<open>
  \<open>str::chars\<close>: each scalar value with the bytes it takes. A byte that starts no
  well-formed sequence (which a Rust \<open>String\<close> never holds) is its own item, with \<open>None\<close>.
\<close>

function chars :: "string \<Rightarrow> (nat option \<times> string) list" where
  "chars [] = []"
| "chars (c # cs) =
     (case utf8_head (map of_char (c # take 3 cs)) of
        Some (u, w) \<Rightarrow> (Some u, c # take (w - 1) cs) # chars (drop (w - 1) cs)
      | None \<Rightarrow> (None, [c]) # chars cs)"
  by pat_completeness auto
termination
  by (relation "measure length") auto

declare chars.simps(2) [simp del]

definition utf8_ok :: "string \<Rightarrow> bool" where
  "utf8_ok s \<longleftrightarrow> list_all (\<lambda>p. fst p \<noteq> None) (chars s)"

definition from_utf8 :: "bytes \<Rightarrow> string option" where
  "from_utf8 bs = (let s = bytes_str bs in if utf8_ok s then Some s else None)"

lemma concat_chars [simp]: "concat (map snd (chars s)) = s"
proof (induction s rule: chars.induct)
  case 1
  then show ?case by simp
next
  case (2 c cs)
  then show ?case
    by (cases "utf8_head (map of_char (c # take 3 cs))") (auto simp: chars.simps(2))
qed

lemma from_utf8_str_bytes: "utf8_ok s \<Longrightarrow> from_utf8 (str_bytes s) = Some s"
  by (simp add: from_utf8_def)

lemma from_utf8_SomeD: "from_utf8 bs = Some s \<Longrightarrow> bs = str_bytes s \<and> utf8_ok s"
  by (auto simp: from_utf8_def Let_def split: if_splits)

lemma chars_ascii:
  "list_all (\<lambda>c. of_char c < (128::nat)) s \<Longrightarrow> chars s = map (\<lambda>c. (Some (of_char c), [c])) s"
  by (induction s) (auto simp: utf8_head_def chars.simps(2))

lemma utf8_ok_ascii: "list_all (\<lambda>c. of_char c < (128::nat)) s \<Longrightarrow> utf8_ok s"
  by (simp add: utf8_ok_def chars_ascii list_all_iff)

section \<open>Character classes and trimming\<close>

text \<open>\<open>char::is_whitespace\<close> (Unicode \<open>White_Space\<close>) and \<open>char::is_control\<close> (\<open>Cc\<close>).\<close>

definition is_whitespace :: "nat \<Rightarrow> bool" where
  "is_whitespace u \<longleftrightarrow>
     (9 \<le> u \<and> u \<le> 13) \<or> u = 32 \<or> u = 133 \<or> u = 160 \<or> u = 5760 \<or> (8192 \<le> u \<and> u \<le> 8202)
     \<or> u = 8232 \<or> u = 8233 \<or> u = 8239 \<or> u = 8287 \<or> u = 12288"

definition is_control :: "nat \<Rightarrow> bool" where
  "is_control u \<longleftrightarrow> u < 32 \<or> (127 \<le> u \<and> u \<le> 159)"

definition ws_item :: "nat option \<times> string \<Rightarrow> bool" where
  "ws_item p \<longleftrightarrow> (case fst p of Some u \<Rightarrow> is_whitespace u | None \<Rightarrow> False)"

definition trim :: "string \<Rightarrow> string" where
  "trim s = concat (map snd (rev (dropWhile ws_item (rev (dropWhile ws_item (chars s))))))"

text \<open>\<open>s.chars().take(n).collect::<String>()\<close>\<close>

definition take_chars :: "nat \<Rightarrow> string \<Rightarrow> string" where
  "take_chars n s = concat (map snd (take n (chars s)))"

lemma set_trim_subset: "set (trim s) \<subseteq> set s"
proof -
  have "set (rev (dropWhile ws_item (rev (dropWhile ws_item (chars s))))) \<subseteq> set (chars s)"
    by (metis set_dropWhile_subset set_rev subset_trans)
  then have "set (trim s) \<subseteq> set (concat (map snd (chars s)))"
    unfolding trim_def set_concat set_map by blast
  then show ?thesis by simp
qed

lemma trim_noop:
  assumes "\<not> (\<exists>p\<in>set (chars s). ws_item p)"
  shows "trim s = s"
proof -
  have "dropWhile ws_item (chars s) = chars s"
    using assms by (metis dropWhile_eq_self_iff hd_in_set)
  moreover have "dropWhile ws_item (rev (chars s)) = rev (chars s)"
    using assms by (metis dropWhile_eq_self_iff hd_in_set set_rev)
  ultimately show ?thesis by (simp add: trim_def)
qed

lemma trim_ascii: "list_all (\<lambda>c. of_char c < (128 :: nat) \<and> \<not> is_whitespace (of_char c)) s \<Longrightarrow> trim s = s"
  by (intro trim_noop) (auto simp: chars_ascii ws_item_def list_all_iff)

section \<open>ASCII case, prefixes, splitting\<close>

definition ascii_lower :: "char \<Rightarrow> char" where
  "ascii_lower c =
     (let n = of_char c :: nat in if 65 \<le> n \<and> n \<le> 90 then char_of (n + 32) else c)"

definition to_ascii_lowercase :: "string \<Rightarrow> string" where
  "to_ascii_lowercase s = map ascii_lower s"

definition eq_ignore_ascii_case :: "string \<Rightarrow> string \<Rightarrow> bool" where
  "eq_ignore_ascii_case s t \<longleftrightarrow> to_ascii_lowercase s = to_ascii_lowercase t"

definition starts_with :: "string \<Rightarrow> string \<Rightarrow> bool" where
  "starts_with s p \<longleftrightarrow> take (length p) s = p"

definition strip_suffix :: "string \<Rightarrow> string \<Rightarrow> string option" where
  "strip_suffix s p =
     (if length p \<le> length s \<and> drop (length s - length p) s = p
      then Some (take (length s - length p) s) else None)"

fun split_once :: "char \<Rightarrow> string \<Rightarrow> (string \<times> string) option" where
  "split_once d [] = None"
| "split_once d (c # cs) =
     (if c = d then Some ([], cs)
      else map_option (\<lambda>(a, b). (c # a, b)) (split_once d cs))"

definition rsplit_once :: "char \<Rightarrow> string \<Rightarrow> (string \<times> string) option" where
  "rsplit_once d s = map_option (\<lambda>(a, b). (rev b, rev a)) (split_once d (rev s))"

fun split_on :: "char \<Rightarrow> string \<Rightarrow> string list" where
  "split_on d [] = [[]]"
| "split_on d (c # cs) =
     (if c = d then [] # split_on d cs
      else (case split_on d cs of p # ps \<Rightarrow> (c # p) # ps | [] \<Rightarrow> [[c]]))"

lemma split_once_SomeD:
  "split_once d s = Some (a, b) \<Longrightarrow> s = a @ d # b \<and> d \<notin> set a"
  by (induction s arbitrary: a b) (auto split: if_splits)

lemma split_once_None_iff: "split_once d s = None \<longleftrightarrow> d \<notin> set s"
  by (induction s) auto

lemma split_once_append: "d \<notin> set a \<Longrightarrow> split_once d (a @ d # b) = Some (a, b)"
  by (induction a) auto

lemma rsplit_once_append: "d \<notin> set b \<Longrightarrow> rsplit_once d (a @ d # b) = Some (a, b)"
  by (simp add: rsplit_once_def split_once_append)

lemma rsplit_once_None_iff: "rsplit_once d s = None \<longleftrightarrow> d \<notin> set s"
  by (simp add: rsplit_once_def split_once_None_iff)

lemma rsplit_once_SomeD:
  "rsplit_once d s = Some (a, b) \<Longrightarrow> s = a @ d # b \<and> d \<notin> set b"
  by (auto simp: rsplit_once_def rev_swap dest!: split_once_SomeD)

lemma split_on_ne [simp]: "split_on d s \<noteq> []"
  by (cases s) (auto split: list.splits)

lemma split_on_no_sep: "p \<in> set (split_on d s) \<Longrightarrow> d \<notin> set p"
  by (induction s arbitrary: p) (auto split: list.splits if_splits)

lemma split_on_single: "d \<notin> set s \<Longrightarrow> split_on d s = [s]"
  by (induction s) auto

lemma split_on_sub: "p \<in> set (split_on d s) \<Longrightarrow> set p \<subseteq> set s"
proof (induction s arbitrary: p)
  case Nil
  then show ?case by simp
next
  case (Cons c cs)
  then show ?case
    by (cases "split_on d cs") (fastforce split: if_splits)+
qed

section \<open>Integers in text\<close>

definition digit_char :: "nat \<Rightarrow> char" where
  "digit_char d = char_of (48 + d)"

fun dec_str :: "nat \<Rightarrow> string" where
  "dec_str n = (if n < 10 then [digit_char n] else dec_str (n div 10) @ [digit_char (n mod 10)])"

declare dec_str.simps [simp del]

definition is_ascii_digit :: "char \<Rightarrow> bool" where
  "is_ascii_digit c \<longleftrightarrow> (let n = of_char c :: nat in 48 \<le> n \<and> n \<le> 57)"

text \<open>\<open>format!("\{:06\}", n)\<close> pads with zeros to six digits.\<close>

definition fmt_06 :: "nat \<Rightarrow> string" where
  "fmt_06 n = (let s = dec_str n in replicate (6 - length s) (CHR ''0'') @ s)"

definition hex_digit :: "nat \<Rightarrow> char" where
  "hex_digit d = (if d < 10 then char_of (48 + d) else char_of (87 + d))"

text \<open>\<open>format!("\{b:02x\}")\<close>\<close>

definition hex_byte :: "byte \<Rightarrow> string" where
  "hex_byte b = [hex_digit (unat b div 16), hex_digit (unat b mod 16)]"

definition is_ascii_hexdigit :: "char \<Rightarrow> bool" where
  "is_ascii_hexdigit c \<longleftrightarrow>
     (let n = of_char c :: nat in
      (48 \<le> n \<and> n \<le> 57) \<or> (65 \<le> n \<and> n \<le> 70) \<or> (97 \<le> n \<and> n \<le> 102))"

definition digits_val :: "string \<Rightarrow> nat" where
  "digits_val s = foldl (\<lambda>a c. a * 10 + (of_char c - 48)) 0 s"

text \<open>\<open>str::parse\<close> of an unsigned integer with maximum \<open>m\<close>: one optional plus sign.\<close>

definition parse_uint :: "nat \<Rightarrow> string \<Rightarrow> nat option" where
  "parse_uint m s =
     (let t = (case s of c # cs \<Rightarrow> if c = CHR ''+'' then cs else s | [] \<Rightarrow> s)
      in if t \<noteq> [] \<and> list_all is_ascii_digit t \<and> digits_val t \<le> m
         then Some (digits_val t) else None)"

lemma of_char_digit_char: "d < 10 \<Longrightarrow> (of_char (digit_char d) :: nat) = 48 + d"
  by (simp add: digit_char_def)

lemma digit_char_is_digit: "d < 10 \<Longrightarrow> is_ascii_digit (digit_char d)"
  by (simp add: is_ascii_digit_def of_char_digit_char)

lemma dec_str_digits: "list_all is_ascii_digit (dec_str n)"
proof (induction n rule: dec_str.induct)
  case (1 n)
  then show ?case
    by (subst dec_str.simps) (auto simp: digit_char_is_digit)
qed

lemma dec_str_ne [simp]: "dec_str n \<noteq> []"
  by (subst dec_str.simps) simp

lemma digits_val_dec_str [simp]: "digits_val (dec_str n) = n"
proof (induction n rule: dec_str.induct)
  case (1 n)
  show ?case
  proof (cases "n < 10")
    case True
    then show ?thesis by (subst dec_str.simps) (simp add: digits_val_def of_char_digit_char)
  next
    case False
    with 1 have "digits_val (dec_str (n div 10)) = n div 10" by simp
    with False show ?thesis
      by (subst dec_str.simps) (simp add: digits_val_def of_char_digit_char)
  qed
qed

lemma dec_str_inject [simp]: "dec_str m = dec_str n \<longleftrightarrow> m = n"
  by (metis digits_val_dec_str)

lemma is_ascii_digit_plus [simp]: "\<not> is_ascii_digit (CHR ''+'')"
  by (simp add: is_ascii_digit_def)

lemma parse_uint_dec_str: "n \<le> m \<Longrightarrow> parse_uint m (dec_str n) = Some n"
proof -
  assume "n \<le> m"
  moreover obtain c cs where "dec_str n = c # cs"
    by (meson dec_str_ne neq_Nil_conv)
  moreover from this have "c \<noteq> CHR ''+''"
    using dec_str_digits[of n] is_ascii_digit_plus by auto
  ultimately show ?thesis
    using dec_str_digits[of n] digits_val_dec_str[of n] by (simp add: parse_uint_def)
qed

lemma length_dec_str: "n < 10 ^ Suc k \<Longrightarrow> length (dec_str n) \<le> Suc k"
proof (induction k arbitrary: n)
  case 0
  then show ?case by (subst dec_str.simps) simp
next
  case (Suc k)
  show ?case
  proof (cases "n < 10")
    case True
    then show ?thesis by (subst dec_str.simps) simp
  next
    case False
    from Suc.prems have "n div 10 < 10 ^ Suc k" by (simp add: less_mult_imp_div_less mult.commute)
    from Suc.IH[OF this] False show ?thesis by (subst dec_str.simps) simp
  qed
qed

lemma fmt_06_shape:
  assumes "n < 1000000"
  shows "length (fmt_06 n) = 6 \<and> list_all is_ascii_digit (fmt_06 n)"
proof -
  have "length (dec_str n) \<le> 6"
    using length_dec_str[of n 5] assms by simp
  moreover have "is_ascii_digit (CHR ''0'')" by (simp add: is_ascii_digit_def)
  ultimately show ?thesis
    using dec_str_digits[of n] by (auto simp: fmt_06_def Let_def list_all_iff)
qed

lemma digits_val_zeros: "digits_val (replicate k (CHR ''0'') @ s) = digits_val s"
  by (induction k) (simp_all add: digits_val_def)

lemma fmt_06_inject: "fmt_06 m = fmt_06 n \<longleftrightarrow> m = n"
  by (metis digits_val_dec_str digits_val_zeros fmt_06_def)

lemma hex_digit_is_hex: "d < 16 \<Longrightarrow> is_ascii_hexdigit (hex_digit d)"
  by (auto simp: is_ascii_hexdigit_def hex_digit_def)

lemma hex_byte_shape: "length (hex_byte b) = 2 \<and> list_all is_ascii_hexdigit (hex_byte b)"
  using byte_lt[of b] by (simp add: hex_byte_def hex_digit_is_hex)

section \<open>Big-endian integers\<close>

definition be_bytes :: "nat \<Rightarrow> nat \<Rightarrow> bytes" where
  "be_bytes k n = map (\<lambda>i. word_of_nat (n div 256 ^ (k - 1 - i))) [0..<k]"

definition be_val :: "bytes \<Rightarrow> nat" where
  "be_val bs = foldl (\<lambda>a b. a * 256 + unat b) 0 bs"

lemma be_bytes_0 [simp]: "be_bytes 0 n = []"
  by (simp add: be_bytes_def)

lemma be_bytes_Suc: "be_bytes (Suc k) n = be_bytes k (n div 256) @ [word_of_nat n]"
proof -
  have "map (\<lambda>i. word_of_nat (n div 256 ^ (k - i)) :: byte) [0..<k]
      = map (\<lambda>i. word_of_nat (n div 256 div 256 ^ (k - 1 - i))) [0..<k]"
  proof (rule map_cong)
    fix i assume "i \<in> set [0..<k]"
    then have "k - i = Suc (k - 1 - i)" by auto
    then have "(256 :: nat) ^ (k - i) = 256 * 256 ^ (k - 1 - i)" by simp
    then show "(word_of_nat (n div 256 ^ (k - i)) :: byte) = word_of_nat (n div 256 div 256 ^ (k - 1 - i))"
      by (simp add: div_mult2_eq)
  qed simp
  then show ?thesis by (simp add: be_bytes_def)
qed

lemma length_be_bytes [simp]: "length (be_bytes k n) = k"
  by (simp add: be_bytes_def)

lemma be_val_snoc: "be_val (bs @ [b]) = be_val bs * 256 + unat b"
  by (simp add: be_val_def)

lemma be_val_be_bytes [wire_simps]: "n < 256 ^ k \<Longrightarrow> be_val (be_bytes k n) = n"
proof (induction k arbitrary: n)
  case 0
  then show ?case by (simp add: be_val_def)
next
  case (Suc k)
  then have "n div 256 < 256 ^ k" by (simp add: less_mult_imp_div_less mult.commute)
  with Suc.IH have "be_val (be_bytes k (n div 256)) = n div 256" by blast
  then show ?case
    by (simp add: be_bytes_Suc be_val_snoc unat_of_nat take_bit_eq_mod)
qed

lemma be_val_bound: "be_val bs < 256 ^ length bs"
proof (induction bs rule: rev_induct)
  case Nil
  then show ?case by (simp add: be_val_def)
next
  case (snoc b bs)
  with byte_lt[of b] show ?case by (simp add: be_val_snoc)
qed

section \<open>Unix paths\<close>

datatype component = RootDir | CurDir | ParentDir | Normal string

definition path_component :: "string \<Rightarrow> component option" where
  "path_component part =
     (if part = [] \<or> part = ''.'' then None
      else if part = ''..'' then Some ParentDir else Some (Normal part))"

text \<open>
  \<open>Path::components\<close>: repeated separators and inner \<open>.\<close> parts vanish, a leading
  \<open>.\<close> of a relative path is kept.
\<close>

definition path_components :: "string \<Rightarrow> component list" where
  "path_components p =
     (let parts = split_on (CHR ''/'') p
      in (if take 1 p = ''/'' then [RootDir]
          else if hd parts = ''.'' then [CurDir] else [])
         @ List.map_filter path_component parts)"

definition path_join :: "string \<Rightarrow> string \<Rightarrow> string" where
  "path_join d n =
     (if take 1 n = ''/'' then n
      else if d = [] \<or> last d = CHR ''/'' then d @ n else d @ ''/'' @ n)"

definition file_name :: "string \<Rightarrow> string option" where
  "file_name p =
     (let cs = path_components p
      in if cs = [] then None
         else (case last cs of Normal s \<Rightarrow> Some s | _ \<Rightarrow> None))"

text \<open>A single path element: what may be appended to a directory without leaving it.\<close>

definition plain_name :: "string \<Rightarrow> bool" where
  "plain_name n \<longleftrightarrow> n \<noteq> [] \<and> CHR ''/'' \<notin> set n \<and> n \<noteq> ''.'' \<and> n \<noteq> ''..''"

lemma path_component_Normal:
  "path_component part = Some (Normal s) \<longleftrightarrow>
     part = s \<and> s \<noteq> [] \<and> s \<noteq> ''.'' \<and> s \<noteq> ''..''"
  by (auto simp: path_component_def)

lemma path_components_NormalD:
  assumes "Normal s \<in> set (path_components p)"
  shows "plain_name s \<and> set s \<subseteq> set p"
proof -
  from assms obtain part
    where part: "part \<in> set (split_on (CHR ''/'') p)" "path_component part = Some (Normal s)"
    by (auto simp: path_components_def Let_def map_filter_def split: if_splits)
  then have "part = s" "s \<noteq> []" "s \<noteq> ''.''" "s \<noteq> ''..''"
    by (auto simp: path_component_Normal)
  with part(1) show ?thesis
    using split_on_no_sep split_on_sub unfolding plain_name_def by blast
qed

lemma path_components_plain:
  "plain_name n \<Longrightarrow> path_components n = [Normal n]"
  by (cases n)
    (auto simp: plain_name_def path_components_def split_on_single map_filter_def
      path_component_def)

lemma path_join_inject: "plain_name m \<Longrightarrow> plain_name n \<Longrightarrow> path_join d m = path_join d n \<longleftrightarrow> m = n"
  by (auto simp: path_join_def plain_name_def take_Suc neq_Nil_conv)

end
