(* ===== verification/Proto.thy ===== *)
theory Proto
  imports Rust_Std
begin

text \<open>
  \<open>crates/qdrop-core/src/proto.rs\<close>: the vocabulary of the wire protocol (capabilities,
  hello, clipboard entries, messages) and the two input filters both ends apply, the URL
  allowlist and the sanitisation of incoming file names.
\<close>

section \<open>Capabilities and messages\<close>

definition PROTOCOL_VERSION :: u32 where
  "PROTOCOL_VERSION = 1"

record caps =
  clipboard_text :: bool
  clipboard_images :: bool
  file_send :: bool
  open_url :: bool
  auth :: bool

definition caps_NONE :: caps where
  "caps_NONE = \<lparr>clipboard_text = False, clipboard_images = False, file_send = False,
     open_url = False, auth = False\<rparr>"

definition caps_ALL :: caps where
  "caps_ALL = \<lparr>clipboard_text = True, clipboard_images = True, file_send = True,
     open_url = True, auth = True\<rparr>"

definition intersect :: "caps \<Rightarrow> caps \<Rightarrow> caps" where
  "intersect self other =
    \<lparr>clipboard_text = (clipboard_text self \<and> clipboard_text other),
     clipboard_images = (clipboard_images self \<and> clipboard_images other),
     file_send = (file_send self \<and> file_send other),
     open_url = (open_url self \<and> open_url other),
     auth = (auth self \<and> auth other)\<rparr>"

record device_info =
  di_hostname :: string
  di_macs :: "string list"
  di_os :: string

record hello =
  protocol_version :: u32
  hello_id :: string
  hello_name :: string
  hello_caps :: caps

definition MIME_TEXT :: string where
  "MIME_TEXT = ''text/plain;charset=utf-8''"

definition MIME_PNG :: string where
  "MIME_PNG = ''image/png''"

definition CLIP_IMAGE_INLINE_MAX :: nat where
  "CLIP_IMAGE_INLINE_MAX = 256 * 1024"

definition BLOB_CHUNK :: nat where
  "BLOB_CHUNK = 64 * 1024"

datatype blob_purpose = File | ClipboardImage

record clip_entry =
  mime :: string
  clip_data :: bytes

datatype message =
    Hello hello
  | Ping u64
  | Pong u64
  | Clipboard u64 string "clip_entry list"
  | BlobStart u64 string u64 blob_purpose
  | BlobChunk u64 bytes
  | BlobEnd u64 bytes
  | BlobAck u64 bool string
  | OpenUrl string
  | AuthRequest bool device_info
  | AuthReply bool device_info

section \<open>Clipboard entries\<close>

definition clip_text :: "string \<Rightarrow> clip_entry" where
  "clip_text s = \<lparr>mime = MIME_TEXT, clip_data = str_bytes s\<rparr>"

definition clip_png :: "bytes \<Rightarrow> clip_entry" where
  "clip_png b = \<lparr>mime = MIME_PNG, clip_data = b\<rparr>"

definition as_text :: "clip_entry \<Rightarrow> string option" where
  "as_text e = (if starts_with (mime e) ''text/'' then from_utf8 (clip_data e) else None)"

definition as_image :: "clip_entry \<Rightarrow> bytes option" where
  "as_image e = (if starts_with (mime e) ''image/'' then Some (clip_data e) else None)"

lemma as_text_png [simp]: "as_text (clip_png b) = None"
  by (simp add: as_text_def clip_png_def MIME_PNG_def starts_with_def)

lemma as_image_png [simp]: "as_image (clip_png b) = Some b"
  by (simp add: as_image_def clip_png_def MIME_PNG_def starts_with_def)

lemma as_image_text [simp]: "as_image (clip_text s) = None"
  by (simp add: as_image_def clip_text_def MIME_TEXT_def starts_with_def)

lemma as_text_text: "utf8_ok s \<Longrightarrow> as_text (clip_text s) = Some s"
  by (simp add: as_text_def clip_text_def MIME_TEXT_def starts_with_def from_utf8_str_bytes)

lemma as_text_SomeD: "as_text e = Some s \<Longrightarrow> clip_data e = str_bytes s \<and> utf8_ok s"
  by (auto simp: as_text_def dest: from_utf8_SomeD split: if_splits)

section \<open>The URL allowlist\<close>

definition URL_SCHEME_ALLOWLIST :: "string list" where
  "URL_SCHEME_ALLOWLIST = [''http'', ''https'', ''mailto'']"

text \<open>Control characters, white space, and the quotes \<open>"\<close>, \<open>'\<close> and backtick.\<close>

definition url_bad_char :: "nat option \<times> string \<Rightarrow> bool" where
  "url_bad_char p \<longleftrightarrow>
     (case fst p of
        Some u \<Rightarrow> is_control u \<or> is_whitespace u \<or> u = 34 \<or> u = 39 \<or> u = 96
      | None \<Rightarrow> False)"

definition is_allowed_url :: "string \<Rightarrow> bool" where
  "is_allowed_url raw =
    (let url = trim raw in
     if url = [] \<or> length url > 4096 then False
     else if list_ex url_bad_char (chars url) then False
     else (case split_once (CHR '':'') url of
        None \<Rightarrow> False
      | Some (scheme, rest) \<Rightarrow>
          if \<not> list_ex (eq_ignore_ascii_case scheme) URL_SCHEME_ALLOWLIST then False
          else (let s = to_ascii_lowercase scheme in
            if s = ''http'' \<or> s = ''https'' then starts_with rest ''//'' \<and> length rest > 2
            else if s = ''mailto'' then CHR ''@'' \<in> set rest
            else False)))"

lemma lower_no_colon: "CHR '':'' \<notin> set (to_ascii_lowercase s) \<Longrightarrow> CHR '':'' \<notin> set s"
proof
  assume a: "CHR '':'' \<notin> set (to_ascii_lowercase s)" and b: "CHR '':'' \<in> set s"
  have "ascii_lower (CHR '':'') = CHR '':''" by (simp add: ascii_lower_def)
  with b have "CHR '':'' \<in> ascii_lower ` set s" by (metis image_eqI)
  with a show False by (simp add: to_ascii_lowercase_def)
qed

lemma starts_with_slashes:
  "starts_with rest ''//'' \<and> length rest > 2 \<longleftrightarrow> (\<exists>x xs. rest = ''//'' @ x # xs)"
proof
  assume "starts_with rest ''//'' \<and> length rest > 2"
  then have t: "take 2 rest = ''//''" and l: "length rest > 2"
    by (simp_all add: starts_with_def numeral_2_eq_2)
  from l obtain x xs where "drop 2 rest = x # xs"
    by (metis drop_eq_Nil list.exhaust not_le)
  with t show "\<exists>x xs. rest = ''//'' @ x # xs"
    by (metis append_take_drop_id)
qed (auto simp: starts_with_def)

text \<open>
  What the allowlist promises, as a predicate on the trimmed URL and its two parts. The code
  points it may not hold are spelled out: U+0000 to U+0020, the three quotes, U+007F to U+00A0,
  and the other white space of Unicode.
\<close>

definition refused_points :: "nat set" where
  "refused_points = {0..32} \<union> {34, 39, 96} \<union> {127..160}
     \<union> {0x1680, 0x2028, 0x2029, 0x202F, 0x205F, 0x3000} \<union> {0x2000..0x200A}"

lemma url_bad_char_points: "url_bad_char p \<longleftrightarrow> (\<exists>u\<in>refused_points. fst p = Some u)"
  by (cases p; cases "fst p") (auto simp: url_bad_char_def is_control_def is_whitespace_def refused_points_def)

definition url_shape :: "string \<Rightarrow> string \<Rightarrow> string \<Rightarrow> bool" where
  "url_shape url scheme rest \<longleftrightarrow>
     url = scheme @ CHR '':'' # rest \<and> length url \<le> 4096
     \<and> fst ` set (chars url) \<inter> Some ` refused_points = {}
     \<and> (to_ascii_lowercase scheme \<in> {''http'', ''https''} \<and> (\<exists>x xs. rest = ''//'' @ x # xs)
        \<or> to_ascii_lowercase scheme = ''mailto'' \<and> CHR ''@'' \<in> set rest)"

lemma no_bad_char: "\<not> list_ex url_bad_char cs \<longleftrightarrow> fst ` set cs \<inter> Some ` refused_points = {}"
  by (auto simp: list_ex_iff url_bad_char_points disjoint_iff)

lemma allowlist_mem:
  "list_ex (eq_ignore_ascii_case scheme) URL_SCHEME_ALLOWLIST \<longleftrightarrow>
     to_ascii_lowercase scheme \<in> {''http'', ''https'', ''mailto''}"
  by (auto simp: URL_SCHEME_ALLOWLIST_def eq_ignore_ascii_case_def to_ascii_lowercase_def
      ascii_lower_def)

lemma url_shape_split:
  "url_shape url scheme rest \<Longrightarrow> split_once (CHR '':'') url = Some (scheme, rest)"
proof -
  assume u: "url_shape url scheme rest"
  then have "CHR '':'' \<notin> set (to_ascii_lowercase scheme)"
    by (auto simp: url_shape_def)
  then have "CHR '':'' \<notin> set scheme" by (rule lower_no_colon)
  with u show ?thesis by (simp add: url_shape_def split_once_append)
qed

lemma is_allowed_url_shape:
  "is_allowed_url raw \<longleftrightarrow> (\<exists>scheme rest. url_shape (trim raw) scheme rest)"
proof
  assume a: "is_allowed_url raw"
  then obtain scheme rest where sp: "split_once (CHR '':'') (trim raw) = Some (scheme, rest)"
    by (auto simp: is_allowed_url_def Let_def split: if_splits option.splits)
  have "trim raw = scheme @ CHR '':'' # rest"
    using split_once_SomeD[OF sp] by simp
  moreover have "length (trim raw) \<le> 4096" "fst ` set (chars (trim raw)) \<inter> Some ` refused_points = {}"
    using a by (auto simp: is_allowed_url_def Let_def simp flip: no_bad_char split: if_splits)
  moreover have "to_ascii_lowercase scheme \<in> {''http'', ''https''} \<and> (\<exists>x xs. rest = ''//'' @ x # xs)
      \<or> to_ascii_lowercase scheme = ''mailto'' \<and> CHR ''@'' \<in> set rest"
    using a sp starts_with_slashes[of rest]
    by (auto simp: is_allowed_url_def Let_def split: if_splits)
  ultimately show "\<exists>scheme rest. url_shape (trim raw) scheme rest"
    unfolding url_shape_def by blast
next
  assume "\<exists>scheme rest. url_shape (trim raw) scheme rest"
  then obtain scheme rest where u: "url_shape (trim raw) scheme rest" by blast
  have "to_ascii_lowercase scheme \<in> {''http'', ''https'', ''mailto''}"
    using u by (auto simp: url_shape_def)
  then have m: "list_ex (eq_ignore_ascii_case scheme) URL_SCHEME_ALLOWLIST"
    by (simp only: allowlist_mem)
  have ne: "trim raw \<noteq> []" using u by (auto simp: url_shape_def)
  have nb: "\<not> list_ex url_bad_char (chars (trim raw))" using u unfolding no_bad_char url_shape_def by blast
  show "is_allowed_url raw"
    using u ne m nb url_shape_split[OF u] starts_with_slashes[of rest]
    by (auto simp: is_allowed_url_def Let_def url_shape_def)
qed

lemma intersect_comm: "intersect a b = intersect b a"
  by (auto simp: intersect_def)

lemma intersect_ALL [simp]: "intersect caps_ALL a = a"
  by (cases a) (simp add: intersect_def caps_ALL_def)

section \<open>Incoming file names\<close>

definition safe_blob_name :: "string \<Rightarrow> string option" where
  "safe_blob_name raw =
    (let name = trim raw in
     if name = [] \<or> name = ''.'' \<or> name = ''..'' then None
     else (let comps = path_components name in
       if length comps > 1 then None
       else (case comps of
          Normal s # _ \<Rightarrow>
            if s = ''..'' \<or> CHR ''/'' \<in> set s \<or> CHR 0x5C \<in> set s then None else Some s
        | _ \<Rightarrow> None)))"

lemma safe_blob_name_SomeD:
  assumes "safe_blob_name raw = Some s"
  shows "plain_name s \<and> CHR 0x5C \<notin> set s \<and> set s \<subseteq> set raw"
proof -
  from assms have "Normal s \<in> set (path_components (trim raw))" and bs: "CHR 0x5C \<notin> set s"
    by (auto simp: safe_blob_name_def Let_def split: if_splits list.splits component.splits)
  from path_components_NormalD[OF this(1)] bs set_trim_subset[of raw]
  show ?thesis by blast
qed

lemma safe_blob_name_complete:
  "plain_name n \<Longrightarrow> CHR 0x5C \<notin> set n \<Longrightarrow> trim raw = n \<Longrightarrow> safe_blob_name raw = Some n"
  by (auto simp: safe_blob_name_def path_components_plain)
    (auto simp: plain_name_def)

lemma split_on_append_sep: "split_on d (a @ d # b) = split_on d a @ split_on d b"
  by (induction a) (auto split: list.splits simp: Cons_eq_append_conv)

lemma path_components_join:
  assumes "plain_name n"
  shows "path_components (path_join d n) = path_components d @ [Normal n]"
proof -
  have n: "path_component n = Some (Normal n)" "CHR ''/'' \<notin> set n" "take 1 n \<noteq> ''/''"
    using assms by (auto simp: plain_name_def path_component_def take_Suc split: if_splits)
      (metis hd_in_set)
  show ?thesis
  proof (cases "d = []")
    case True
    with assms show ?thesis
      by (simp add: path_join_def n path_components_plain)
        (simp add: path_components_def map_filter_def path_component_def)
  next
    case False
    define d' where "d' = (if last d = CHR ''/'' then butlast d else d)"
    have dd: "d = d' @ [CHR ''/'']" if "last d = CHR ''/''"
      using that False by (metis append_butlast_last_id d'_def)
    have spd: "split_on (CHR ''/'') d = split_on (CHR ''/'') d' @ (if last d = CHR ''/'' then [[]] else [])"
      using split_on_append_sep[of "CHR ''/''" d' "[]"] dd by (auto simp: d'_def)
    have j: "path_join d n = d' @ CHR ''/'' # n"
      using False n dd by (auto simp: path_join_def d'_def)
    have sp: "split_on (CHR ''/'') (path_join d n) = split_on (CHR ''/'') d' @ [n]"
      unfolding j by (simp add: split_on_append_sep split_on_single n)
    have "List.map_filter path_component (split_on (CHR ''/'') d')
        = List.map_filter path_component (split_on (CHR ''/'') d)"
      unfolding spd by (simp add: map_filter_def path_component_def)
    moreover have "take 1 (path_join d n) = take 1 d"
      using False n(3) by (cases d) (auto simp: path_join_def)
    moreover have "hd (split_on (CHR ''/'') (path_join d n)) = hd (split_on (CHR ''/'') d)"
      unfolding sp spd by simp
    ultimately show ?thesis
      unfolding path_components_def Let_def sp
      by (auto simp: map_filter_def n)
  qed
qed

section \<open>Properties\<close>

text \<open>
  C34. The URL filter accepts exactly the strings whose trimmed form is \<open>http(s)://\<close> followed by
  something, or \<open>mailto:\<close> with an at sign, in any ASCII case, of at most 4096 bytes and with
  none of the code points U+0000 to U+0020 (control characters and the space), the double and
  single quote and the backtick, U+007F to U+00A0 (more controls and the no-break space), and
  the rest of Unicode's white space. So no other scheme is ever accepted, whatever follows it.
\<close>

theorem is_allowed_url_exact:
  "(is_allowed_url raw \<longleftrightarrow> (\<exists>scheme rest. url_shape (trim raw) scheme rest))
   \<and> (is_allowed_url raw \<longrightarrow> (\<exists>s\<in>{''http'', ''https'', ''mailto''}. to_ascii_lowercase (takeWhile (\<lambda>c. c \<noteq> CHR '':'') (trim raw)) = s))"
proof -
  have "to_ascii_lowercase (takeWhile (\<lambda>c. c \<noteq> CHR '':'') u) \<in> {''http'', ''https'', ''mailto''}" if "url_shape u scheme rest" for u scheme rest
  proof -
    from that have s: "to_ascii_lowercase scheme \<in> {''http'', ''https'', ''mailto''}" "u = scheme @ CHR '':'' # rest"
      by (auto simp: url_shape_def)
    then have "CHR '':'' \<notin> set scheme" using lower_no_colon[of scheme] by auto
    then have "takeWhile (\<lambda>c. c \<noteq> CHR '':'') u = scheme" unfolding s(2) by (subst takeWhile_append2) auto
    with s(1) show ?thesis by simp
  qed
  then show ?thesis unfolding is_allowed_url_shape by blast
qed

theorem is_allowed_url_exact_witness:
  "is_allowed_url ''HTTPS://x'' \<and> \<not> is_allowed_url ''file:///x'' \<and> \<not> is_allowed_url ''http://a\"b''"
proof -
  have t: "trim ''HTTPS://x'' = ''HTTPS://x''" "trim ''file:///x'' = ''file:///x''" "trim ''http://a\"b'' = ''http://a\"b''"
    by (rule trim_ascii, simp add: is_whitespace_def)+
  have "to_ascii_lowercase ''HTTPS'' = ''https''" by code_simp
  then have "url_shape ''HTTPS://x'' ''HTTPS'' ''//x''"
    by (simp add: url_shape_def chars_ascii refused_points_def inj_image_mem_iff)
  then have "is_allowed_url ''HTTPS://x''" using is_allowed_url_exact[of "''HTTPS://x''"] unfolding t by blast
  moreover have "\<not> is_allowed_url ''file:///x''"
    using is_allowed_url_exact[of "''file:///x''"] unfolding t by (auto simp: to_ascii_lowercase_def ascii_lower_def)
  moreover have "\<not> (\<exists>scheme rest. url_shape ''http://a\"b'' scheme rest)"
    by (simp add: url_shape_def chars_ascii refused_points_def)
  then have "\<not> is_allowed_url ''http://a\"b''" using is_allowed_url_exact[of "''http://a\"b''"] unfolding t by blast
  ultimately show ?thesis by blast
qed

text \<open>
  A file name that passes the sanitiser is one path element: joined to any directory
  it names an entry of exactly that directory, never of a parent or a subdirectory, and it
  holds no backslash and only characters of the name the peer sent.
\<close>

theorem safe_blob_name_confined:
  assumes "safe_blob_name raw = Some s"
  shows "path_components (path_join dir s) = path_components dir @ [Normal s]
    \<and> CHR 0x5C \<notin> set s \<and> set s \<subseteq> set raw"
  using safe_blob_name_SomeD[OF assms] path_components_join by auto

theorem safe_blob_name_confined_witness:
  "safe_blob_name ''  a b.txt '' = Some ''a b.txt''
   \<and> path_components (path_join ''/home/u/Downloads/qdrop'' ''a b.txt'')
     = path_components ''/home/u/Downloads/qdrop'' @ [Normal ''a b.txt'']"
proof -
  have t: "trim ''  a b.txt '' = ''a b.txt''"
    by (simp add: trim_def chars_ascii ws_item_def is_whitespace_def)
  have s: "safe_blob_name ''  a b.txt '' = Some ''a b.txt''"
    by (simp add: safe_blob_name_def t path_components_def map_filter_def path_component_def)
  from s safe_blob_name_confined[OF s, of "''/home/u/Downloads/qdrop''"] show ?thesis by simp
qed

end
