(* ===== verification/Frame.thy ===== *)
theory Frame
  imports Proto
begin

text \<open>
  \<open>crates/qdrop-core/src/frame.rs\<close>: length-prefixed framing of messages over a byte
  stream. The msgpack codec (\<open>rmp-serde\<close>) is a parameter: \<open>enc\<close> may fail, \<open>dec\<close> may
  reject. The interface \<open>framed\<close> states what a framing promises (a frame written in front
  of a stream is read back, the rest untouched); the pairing protocol's chunks provide the
  same interface.
\<close>

section \<open>Byte streams\<close>

datatype io_kind =
    UnexpectedEof | ConnectionReset | ConnectionAborted | BrokenPipe | TimedOut
  | NotFound | InvalidData | OtherIo

text \<open>
  A reader is the bytes still to come and what happens after them: end of file
  (\<open>None\<close>) or an I/O error.
\<close>

record stream =
  s_data :: bytes
  s_fail :: "io_kind option"

definition read_exact :: "nat \<Rightarrow> stream \<Rightarrow> (io_kind, bytes) res \<times> stream" where
  "read_exact n s =
     (if n \<le> length (s_data s) then (Inr (take n (s_data s)), s\<lparr>s_data := drop n (s_data s)\<rparr>)
      else (Inl (case s_fail s of None \<Rightarrow> UnexpectedEof | Some e \<Rightarrow> e), s\<lparr>s_data := []\<rparr>))"

text \<open>A writer is the bytes written so far and, once it is broken, the error it returns.\<close>

record writer =
  w_out :: bytes
  w_fail :: "io_kind option"

definition write_all :: "bytes \<Rightarrow> writer \<Rightarrow> (io_kind, unit) res \<times> writer" where
  "write_all bs w =
     (case w_fail w of Some e \<Rightarrow> (Inl e, w) | None \<Rightarrow> (Inr (), w\<lparr>w_out := w_out w @ bs\<rparr>))"

definition flush :: "writer \<Rightarrow> (io_kind, unit) res \<times> writer" where
  "flush w = (case w_fail w of Some e \<Rightarrow> (Inl e, w) | None \<Rightarrow> (Inr (), w))"

definition empty_writer :: writer where
  "empty_writer = \<lparr>w_out = [], w_fail = None\<rparr>"

lemma read_exact_append [simp]:
  "length b = n \<Longrightarrow> read_exact n (s\<lparr>s_data := b @ xs\<rparr>) = (Inr b, s\<lparr>s_data := xs\<rparr>)"
  by (simp add: read_exact_def)

lemma read_exact_Inr:
  "read_exact n s = (Inr b, s') \<Longrightarrow>
     length b = n \<and> s_data s = b @ s_data s' \<and> s' = s\<lparr>s_data := s_data s'\<rparr>"
  by (auto simp: read_exact_def split: if_splits)

section \<open>Messages\<close>

definition MAX_FRAME_LEN :: nat where
  "MAX_FRAME_LEN = 16 * 1024 * 1024"

datatype frame_error = Closed | TooLarge nat | Decode | FrameIo io_kind

fun is_disconnect :: "frame_error \<Rightarrow> bool" where
  "is_disconnect Closed = True"
| "is_disconnect (FrameIo k) =
     (k = UnexpectedEof \<or> k = ConnectionReset \<or> k = ConnectionAborted \<or> k = BrokenPipe)"
| "is_disconnect _ = False"

text \<open>
  The \<open>debug_assert!\<close> on the body length is compiled out of release builds; the model is
  the release build.
\<close>

definition write_message ::
  "(message \<Rightarrow> bytes option) \<Rightarrow> writer \<Rightarrow> message \<Rightarrow> (io_kind, unit) res \<times> writer" where
  "write_message enc w msg =
    (case enc msg of
       None \<Rightarrow> (Inl InvalidData, w)
     | Some body \<Rightarrow>
         if length body > 2 ^ 32 - 1 then (Inl InvalidData, w)
         else (case write_all (be_bytes 4 (length body)) w of
            (Inl e, w) \<Rightarrow> (Inl e, w)
          | (Inr _, w) \<Rightarrow>
              (case write_all body w of
                 (Inl e, w) \<Rightarrow> (Inl e, w)
               | (Inr _, w) \<Rightarrow> flush w)))"

definition read_message ::
  "(bytes \<Rightarrow> message option) \<Rightarrow> stream \<Rightarrow> (frame_error, message) res \<times> stream" where
  "read_message dec r =
    (case read_exact 4 r of
       (Inl e, r) \<Rightarrow> (Inl (if e = UnexpectedEof then Closed else FrameIo e), r)
     | (Inr len_buf, r) \<Rightarrow>
         let len = be_val len_buf in
         if len > MAX_FRAME_LEN then (Inl (TooLarge len), r)
         else (case read_exact len r of
            (Inl e, r) \<Rightarrow> (Inl (FrameIo e), r)
          | (Inr body, r) \<Rightarrow>
              (case dec body of
                 None \<Rightarrow> (Inl Decode, r)
               | Some msg \<Rightarrow> (Inr msg, r))))"

section \<open>What a framing promises\<close>

fun read_n :: "(stream \<Rightarrow> ('e, 'a) res \<times> stream) \<Rightarrow> nat \<Rightarrow> stream \<Rightarrow> ('e, 'a list) res \<times> stream" where
  "read_n rd 0 s = (Inr [], s)"
| "read_n rd (Suc n) s =
     (case rd s of
        (Inl e, s) \<Rightarrow> (Inl e, s)
      | (Inr x, s) \<Rightarrow>
          (case read_n rd n s of (Inl e, s) \<Rightarrow> (Inl e, s) | (Inr xs, s) \<Rightarrow> (Inr (x # xs), s)))"

locale framed =
  fixes wr :: "'a \<Rightarrow> bytes"
    and rd :: "stream \<Rightarrow> ('e, 'a) res \<times> stream"
    and ok :: "'a \<Rightarrow> bool"
  assumes rd_wr: "ok x \<Longrightarrow> rd (s\<lparr>s_data := wr x @ rest\<rparr>) = (Inr x, s\<lparr>s_data := rest\<rparr>)"
begin

lemma rd_many:
  "list_all ok xs \<Longrightarrow>
     read_n rd (length xs) (s\<lparr>s_data := concat (map wr xs) @ rest\<rparr>) = (Inr xs, s\<lparr>s_data := rest\<rparr>)"
proof (induction xs)
  case Nil
  then show ?case by simp
next
  case (Cons x xs)
  then show ?case by (simp add: rd_wr append_assoc)
qed

lemma wr_inject_prefix:
  assumes "ok x" "ok y" "wr x @ r = wr y @ t"
  shows "x = y \<and> r = t"
proof -
  let ?s = "\<lparr>s_data = [], s_fail = None\<rparr>"
  have "rd (?s\<lparr>s_data := wr x @ r\<rparr>) = (Inr x, ?s\<lparr>s_data := r\<rparr>)"
    using assms(1) by (rule rd_wr)
  moreover have "rd (?s\<lparr>s_data := wr x @ r\<rparr>) = (Inr y, ?s\<lparr>s_data := t\<rparr>)"
    unfolding assms(3) using assms(2) by (rule rd_wr)
  ultimately show ?thesis by simp
qed

end

text \<open>The bytes a successful write puts on the wire, and when a message can be framed.\<close>

definition frame_bytes :: "(message \<Rightarrow> bytes option) \<Rightarrow> message \<Rightarrow> bytes" where
  "frame_bytes enc msg = w_out (snd (write_message enc empty_writer msg))"

definition frame_ok :: "(message \<Rightarrow> bytes option) \<Rightarrow> (bytes \<Rightarrow> message option) \<Rightarrow> message \<Rightarrow> bool" where
  "frame_ok enc dec msg \<longleftrightarrow>
     (case enc msg of None \<Rightarrow> False | Some b \<Rightarrow> dec b = Some msg \<and> length b \<le> MAX_FRAME_LEN)"

lemma frame_bytes_eq [wire_simps]:
  "enc msg = Some b \<Longrightarrow> length b \<le> MAX_FRAME_LEN \<Longrightarrow>
     frame_bytes enc msg = be_bytes 4 (length b) @ b"
  by (simp add: frame_bytes_def write_message_def write_all_def flush_def empty_writer_def
      MAX_FRAME_LEN_def)

lemma read_message_frame:
  "length b \<le> MAX_FRAME_LEN \<Longrightarrow> dec b = Some msg \<Longrightarrow>
     read_message dec (s\<lparr>s_data := (be_bytes 4 (length b) @ b) @ rest\<rparr>) = (Inr msg, s\<lparr>s_data := rest\<rparr>)"
  by (simp add: read_message_def be_val_be_bytes MAX_FRAME_LEN_def)

interpretation fr: framed "frame_bytes enc" "read_message dec" "frame_ok enc dec"
  for enc dec
proof
  fix x and s :: stream and rest
  assume "frame_ok enc dec x"
  then obtain b where "enc x = Some b" "dec b = Some x" "length b \<le> MAX_FRAME_LEN"
    by (auto simp: frame_ok_def split: option.splits)
  then show "read_message dec (s\<lparr>s_data := frame_bytes enc x @ rest\<rparr>) = (Inr x, s\<lparr>s_data := rest\<rparr>)"
    by (simp only: frame_bytes_eq read_message_frame)
qed

lemma write_message_out:
  assumes "w_fail w = None" "enc msg = Some b" "length b \<le> 2 ^ 32 - 1"
  shows "write_message enc w msg = (Inr (), w\<lparr>w_out := w_out w @ be_bytes 4 (length b) @ b\<rparr>)"
  using assms by (simp add: write_message_def write_all_def flush_def)

lemma read_message_Inr:
  assumes "read_message dec r = (Inr msg, r')"
  shows "\<exists>b. dec b = Some msg \<and> length b \<le> MAX_FRAME_LEN \<and> (\<exists>p. length p = 4 \<and> be_val p = length b
           \<and> s_data r = p @ b @ s_data r')"
  using assms
  by (auto simp: read_message_def Let_def split: prod.splits sum.splits if_splits option.splits
      dest!: read_exact_Inr)

section \<open>Properties\<close>

text \<open>
  C18. Frames stay aligned: any sequence of messages the codec can carry, written one after
  the other, is read back as that sequence, and whatever follows on the stream is untouched.
\<close>

theorem frames_stay_aligned:
  assumes "list_all (frame_ok enc dec) msgs"
  shows "read_n (read_message dec) (length msgs)
           (s\<lparr>s_data := concat (map (frame_bytes enc) msgs) @ rest\<rparr>)
         = (Inr msgs, s\<lparr>s_data := rest\<rparr>)"
  using assms by (rule fr.rd_many)

definition ping_enc :: "message \<Rightarrow> bytes option" where
  "ping_enc m = (case m of Ping n \<Rightarrow> Some [1, ucast n] | Pong n \<Rightarrow> Some [2, ucast n] | _ \<Rightarrow> None)"

definition ping_dec :: "bytes \<Rightarrow> message option" where
  "ping_dec b =
     (case b of [t, n] \<Rightarrow> if t = 1 then Some (Ping (ucast n)) else if t = 2 then Some (Pong (ucast n)) else None
      | _ \<Rightarrow> None)"

theorem frames_stay_aligned_witness:
  "list_all (frame_ok ping_enc ping_dec) [Ping 7, Pong 7]
   \<and> read_n (read_message ping_dec) 2
       (\<lparr>s_data = concat (map (frame_bytes ping_enc) [Ping 7, Pong 7]) @ [9], s_fail = None\<rparr>)
     = (Inr [Ping 7, Pong 7], \<lparr>s_data = [9], s_fail = None\<rparr>)"
proof -
  have a: "list_all (frame_ok ping_enc ping_dec) [Ping 7, Pong 7]"
    by (simp add: frame_ok_def ping_enc_def ping_dec_def MAX_FRAME_LEN_def)
  from a frames_stay_aligned[OF a, where s = "\<lparr>s_data = [], s_fail = None\<rparr>" and rest = "[9]"]
  show ?thesis by (simp add: numeral_2_eq_2)
qed

text \<open>
  C19. A frame cut short by the end of the connection is never delivered: reading any proper
  prefix of a written frame fails with an error that counts as a disconnect.
\<close>

theorem truncated_frame_is_disconnect:
  assumes "enc msg = Some b" "length b \<le> MAX_FRAME_LEN" "k < length (frame_bytes enc msg)"
  shows "\<exists>e s'. read_message dec \<lparr>s_data = take k (frame_bytes enc msg), s_fail = None\<rparr> = (Inl e, s')
          \<and> is_disconnect e"
proof (cases "k < 4")
  case True
  then show ?thesis
    using assms by (simp add: frame_bytes_eq read_message_def read_exact_def)
next
  case False
  have fb: "frame_bytes enc msg = be_bytes 4 (length b) @ b"
    using assms by (simp add: frame_bytes_eq)
  have t: "take k (frame_bytes enc msg) = be_bytes 4 (length b) @ take (k - 4) b"
    using False by (simp add: fb)
  have lt: "k - 4 < length b" using assms(3) False by (simp add: fb)
  show ?thesis
    using assms lt unfolding t
    by (simp add: read_message_def read_exact_def be_val_be_bytes MAX_FRAME_LEN_def)
qed

theorem truncated_frame_is_disconnect_witness:
  "\<exists>e s'. read_message ping_dec \<lparr>s_data = take 5 (frame_bytes ping_enc (Ping 3)), s_fail = None\<rparr> = (Inl e, s')
          \<and> is_disconnect e"
proof -
  have e: "ping_enc (Ping 3) = Some [1, 3]" by (simp add: ping_enc_def)
  moreover have "length [1, 3 :: byte] \<le> MAX_FRAME_LEN" by (simp add: MAX_FRAME_LEN_def)
  moreover from calculation have "5 < length (frame_bytes ping_enc (Ping 3))"
    by (simp add: frame_bytes_eq)
  ultimately show ?thesis by (rule truncated_frame_is_disconnect)
qed

text \<open>
  The size limit is enforced by the reader only: a body between 16 MiB and 4 GiB is
  written successfully by a release build and then refused by every reader.
\<close>

theorem oversize_frame_written_but_refused:
  assumes "w_fail w = None" "enc msg = Some b" "MAX_FRAME_LEN < length b" "length b < 2 ^ 32"
  shows "fst (write_message enc w msg) = Inr ()
    \<and> w_out (snd (write_message enc w msg)) = w_out w @ frame_bytes enc msg
    \<and> fst (read_message dec (s\<lparr>s_data := frame_bytes enc msg @ rest\<rparr>)) = Inl (TooLarge (length b))"
proof -
  have l: "length b \<le> 2 ^ 32 - 1" using assms(4) by simp
  have fb: "frame_bytes enc msg = be_bytes 4 (length b) @ b"
    using write_message_out[of empty_writer enc msg b] assms(2) l
    by (simp add: frame_bytes_def empty_writer_def)
  show ?thesis
    using assms write_message_out[of w enc msg b] l
    by (simp add: fb read_message_def be_val_be_bytes)
qed

theorem oversize_frame_written_but_refused_witness:
  "fst (write_message (\<lambda>_. Some (replicate 16777217 0)) empty_writer (Ping 0)) = Inr ()"
  using oversize_frame_written_but_refused[of empty_writer "\<lambda>_. Some (replicate 16777217 0)" "Ping 0"
      "replicate 16777217 0"]
  by (simp add: empty_writer_def MAX_FRAME_LEN_def)

text \<open>
  Whatever bytes arrive, a message is delivered only from a complete frame of at most
  16 MiB whose body the codec accepts, and exactly that frame is consumed.
\<close>

theorem read_message_consumes_one_frame:
  assumes "read_message dec r = (Inr msg, r')"
  shows "\<exists>body. dec body = Some msg \<and> length body \<le> MAX_FRAME_LEN
      \<and> (\<exists>prefix. length prefix = 4 \<and> be_val prefix = length body
           \<and> s_data r = prefix @ body @ s_data r')"
  using assms by (rule read_message_Inr)

theorem read_message_consumes_one_frame_witness:
  "\<exists>body. ping_dec body = Some (Ping 3) \<and> length body \<le> MAX_FRAME_LEN
      \<and> (\<exists>prefix. length prefix = 4 \<and> be_val prefix = length body
           \<and> [0, 0, 0, 2, 1, 3, 9] = prefix @ body @ [9 :: byte])"
proof -
  have "read_message ping_dec \<lparr>s_data = [0, 0, 0, 2, 1, 3, 9], s_fail = None\<rparr>
      = (Inr (Ping 3), \<lparr>s_data = [9], s_fail = None\<rparr>)"
    by (simp add: read_message_def read_exact_def be_val_def MAX_FRAME_LEN_def ping_dec_def)
  from read_message_consumes_one_frame[OF this] show ?thesis by simp
qed

end
