(* ===== verification/Crypto.thy ===== *)
theory Crypto
  imports Frame
begin

unbundle bit_operations_syntax

text \<open>
  \<open>crates/qdrop-core/src/crypto.rs\<close> and the fingerprint of \<open>identity.rs\<close>: constant-time
  comparison, the pairing PIN, hexadecimal text. SHA-256, HMAC and the operating system's
  random source are parameters.
\<close>

section \<open>Constant-time equality\<close>

definition ct_eq :: "bytes \<Rightarrow> bytes \<Rightarrow> bool" where
  "ct_eq a b = (foldl (\<lambda>diff i. diff OR ((a ! i) XOR (b ! i))) 0 [0..<32] = (0 :: byte))"

lemma or_eq_0_byte: "(x :: byte) OR y = 0 \<longleftrightarrow> x = 0 \<and> y = 0"
  by (rule or_eq_0_iff)

lemma foldl_or_zero:
  "foldl (\<lambda>d i. d OR f i) (acc :: byte) is = 0 \<longleftrightarrow> acc = 0 \<and> list_all (\<lambda>i. f i = 0) is"
  by (induction "is" arbitrary: acc) (auto simp: or_eq_0_byte)

lemma xor_eq_0_byte: "(x :: byte) XOR y = 0 \<longleftrightarrow> x = y"
  by (metis bit.xor_self xor.assoc xor.left_neutral xor.right_neutral)

lemma ct_eq_iff: "arr32 a \<Longrightarrow> arr32 b \<Longrightarrow> ct_eq a b \<longleftrightarrow> a = b"
  by (auto simp: ct_eq_def foldl_or_zero list_all_iff xor_eq_0_byte arr32_def
      intro!: nth_equalityI)

section \<open>The pairing PIN\<close>

text \<open>\<open>u32::checked_mul\<close>.\<close>

definition checked_mul_u32 :: "nat \<Rightarrow> nat \<Rightarrow> nat option" where
  "checked_mul_u32 a b = (if a * b < 2 ^ 32 then Some (a * b) else None)"

text \<open>One turn of the rejection-sampling loop on the drawn \<open>u32\<close>.\<close>

definition pin_of_draw :: "nat \<Rightarrow> string option" where
  "pin_of_draw n =
    (case checked_mul_u32 ((2 ^ 32 - 1) div 1000000) 1000000 of
       Some limit \<Rightarrow> if n < limit then Some (fmt_06 (n mod 1000000)) else None
     | None \<Rightarrow> None)"

text \<open>
  The loop over the draws the random source delivers: \<open>None\<close> for a failing source (which
  ends the function with an error), four little-endian bytes otherwise. The result is
  \<open>None\<close> when the draws run out before the loop ends.
\<close>

fun gen_pin :: "bytes option list \<Rightarrow> (unit, string) res option" where
  "gen_pin [] = None"
| "gen_pin (None # ds) = Some (Inl ())"
| "gen_pin (Some b # ds) =
     (case pin_of_draw (be_val (rev b)) of Some pin \<Rightarrow> Some (Inr pin) | None \<Rightarrow> gen_pin ds)"

section \<open>Hexadecimal text\<close>

text \<open>\<open>history::hex\<close> and \<open>identity::fingerprint_of\<close>; \<open>sha256\<close> is the digest function.\<close>

definition hex :: "bytes \<Rightarrow> string" where
  "hex bs = concat (map hex_byte bs)"

definition fingerprint_of :: "(bytes \<Rightarrow> bytes) \<Rightarrow> bytes \<Rightarrow> string" where
  "fingerprint_of sha256 key =
    (let d = sha256 key
     in hex_byte (d ! 0) @ hex_byte (d ! 1) @ ''-'' @ hex_byte (d ! 2) @ hex_byte (d ! 3) @ ''-''
        @ hex_byte (d ! 4) @ hex_byte (d ! 5) @ ''-'' @ hex_byte (d ! 6) @ hex_byte (d ! 7))"

section \<open>Lemmas\<close>

lemma pin_of_draw_eq:
  "pin_of_draw n = (if n < 4294000000 then Some (fmt_06 (n mod 1000000)) else None)"
  by (simp add: pin_of_draw_def checked_mul_u32_def)

lemma pin_of_draw_Some:
  "p < 1000000 \<Longrightarrow> pin_of_draw n = Some (fmt_06 p) \<longleftrightarrow> n < 4294000000 \<and> n mod 1000000 = p"
  by (auto simp: pin_of_draw_eq fmt_06_inject)

lemma pin_draws_eq:
  assumes "p < (1000000 :: nat)"
  shows "{n. n < 4294000000 \<and> n mod 1000000 = p} = (\<lambda>q. q * 1000000 + p) ` {..<4294}"
proof (intro equalityI subsetI)
  fix n assume n: "n \<in> {n. n < 4294000000 \<and> n mod 1000000 = p}"
  then have "n = (n div 1000000) * 1000000 + p" "n div 1000000 < 4294" by auto
  then show "n \<in> (\<lambda>q. q * 1000000 + p) ` {..<4294}" by blast
qed (use assms in auto)

lemma hex_digit_val: "d < 16 \<Longrightarrow> (of_char (hex_digit d) :: nat) = (if d < 10 then 48 + d else 87 + d)"
  by (auto simp: hex_digit_def)

lemma hex_digit_inject: "d < 16 \<Longrightarrow> e < 16 \<Longrightarrow> hex_digit d = hex_digit e \<longleftrightarrow> d = e"
  by (auto dest!: arg_cong[of _ _ "of_char :: char \<Rightarrow> nat"] simp: hex_digit_val split: if_splits)

lemma hex_byte_inject: "hex_byte a = hex_byte b \<longleftrightarrow> a = b"
proof
  assume h: "hex_byte a = hex_byte b"
  have "unat a div 16 = unat b div 16" "unat a mod 16 = unat b mod 16"
    using h byte_lt[of a] byte_lt[of b] by (simp_all add: hex_byte_def hex_digit_inject)
  then have "unat a = unat b" by (metis div_mult_mod_eq)
  then show "a = b" by (rule word_unat_eq_iff[THEN iffD2])
qed simp

lemma hex_inject: "hex a = hex b \<longleftrightarrow> a = b"
proof
  assume "hex a = hex b"
  then show "a = b"
  proof (induction a arbitrary: b)
    case Nil
    then show ?case by (cases b) (simp_all add: hex_def hex_byte_def)
  next
    case (Cons x a)
    then obtain y b' where b: "b = y # b'"
      by (cases b) (simp_all add: hex_def hex_byte_def)
    with Cons.prems have "hex_byte x = hex_byte y \<and> hex a = hex b'"
      by (simp add: hex_def hex_byte_shape)
    with Cons.IH b show ?case by (simp add: hex_byte_inject)
  qed
qed simp

lemma gen_pin_InrD:
  "gen_pin ds = Some (Inr pin) \<Longrightarrow> \<exists>p<1000000. pin = fmt_06 p"
proof (induction ds rule: gen_pin.induct)
  case (3 b ds)
  show ?case
  proof (cases "pin_of_draw (be_val (rev b))")
    case None
    with 3 show ?thesis by simp
  next
    case (Some q)
    with 3 have "pin = q" by simp
    then have "pin = fmt_06 (be_val (rev b) mod 1000000)"
      using Some by (simp add: pin_of_draw_eq split: if_splits)
    then show ?thesis by (intro exI[of _ "be_val (rev b) mod 1000000"]) simp
  qed
qed simp_all

lemma gen_pin_returns:
  "list_all (\<lambda>d. d \<noteq> None) ds \<Longrightarrow> Some b \<in> set ds \<Longrightarrow> be_val (rev b) < 4294000000 \<Longrightarrow>
     \<exists>pin. gen_pin ds = Some (Inr pin)"
  by (induction ds rule: gen_pin.induct) (auto split: option.splits simp: pin_of_draw_eq)

section \<open>Properties\<close>

text \<open>
  The constant-time comparison of two 32-byte arrays decides equality.
\<close>

theorem ct_eq_decides_equality:
  assumes "arr32 a" "arr32 b"
  shows "ct_eq a b \<longleftrightarrow> a = b"
  using assms by (rule ct_eq_iff)

theorem ct_eq_decides_equality_witness:
  "ct_eq (replicate 32 7) (replicate 32 7) \<and> \<not> ct_eq (replicate 32 7) (8 # replicate 31 7)"
proof -
  have a: "arr32 (replicate 32 7)" "arr32 (8 # replicate 31 7)" by (simp_all add: arr32_def)
  have "replicate 32 (7 :: byte) \<noteq> 8 # replicate 31 7" by (simp add: numeral_eq_Suc)
  then show ?thesis
    using ct_eq_decides_equality[OF a(1) a(1)] ct_eq_decides_equality[OF a] by simp
qed

text \<open>
  Pairing PINs are uniform: each of the million six-digit PINs is produced by exactly
  4294 of the \<open>2 ^ 32\<close> values a draw can have, and the rest are redrawn.
\<close>

theorem pin_uniform:
  assumes "p < 1000000"
  shows "card {n. n < 2 ^ 32 \<and> pin_of_draw n = Some (fmt_06 p)} = 4294"
proof -
  have "{n. n < 2 ^ 32 \<and> pin_of_draw n = Some (fmt_06 p)} = {n. n < 4294000000 \<and> n mod 1000000 = p}"
  proof (rule Collect_cong)
    fix n :: nat
    have "n < 4294000000 \<Longrightarrow> n < 2 ^ 32" by (erule less_trans) simp
    then show "(n < 2 ^ 32 \<and> pin_of_draw n = Some (fmt_06 p)) = (n < 4294000000 \<and> n mod 1000000 = p)"
      using pin_of_draw_Some[OF assms, of n] by blast
  qed
  moreover have "inj_on (\<lambda>q. q * 1000000 + p) {..<4294 :: nat}"
    by (rule inj_onI) simp
  ultimately show ?thesis
    using pin_draws_eq[OF assms] by (simp add: card_image)
qed

theorem pin_uniform_witness:
  "card {n. n < 2 ^ 32 \<and> pin_of_draw n = Some (fmt_06 42)} = 4294"
  by (rule pin_uniform) simp

text \<open>
  C32. PIN generation returns as soon as the random source delivers an accepted draw, and
  what it returns is always six decimal digits.
\<close>

theorem gen_pin_six_digits:
  assumes "list_all (\<lambda>d. d \<noteq> None) ds" "Some b \<in> set ds" "be_val (rev b) < 4294000000"
  shows "\<exists>pin. gen_pin ds = Some (Inr pin) \<and> length pin = 6 \<and> list_all is_ascii_digit pin"
  using gen_pin_returns[OF assms] gen_pin_InrD fmt_06_shape by blast

theorem gen_pin_six_digits_witness:
  "\<exists>pin. gen_pin [Some [255, 255, 255, 255], Some [1, 2, 3, 4]] = Some (Inr pin) \<and> length pin = 6
     \<and> list_all is_ascii_digit pin"
  using gen_pin_six_digits[of "[Some [255, 255, 255, 255], Some [1, 2, 3, 4]]" "[1, 2, 3, 4]"]
  by (simp add: be_val_def)

end
