(* ===== verification/Net.thy ===== *)
theory Net
  imports Rust_Std
begin

text \<open>
  IP and socket addresses of the standard library: their order (\<open>Ord\<close> of
  \<open>SocketAddr\<close>: IPv4 before IPv6, then address, then port), their textual forms as
  \<open>str::parse\<close> accepts them, and the classification methods the sources call.
\<close>

section \<open>Addresses\<close>

text \<open>Four octets, or eight 16-bit segments; a socket address adds port and IPv6 scope.\<close>

datatype ip_addr = V4 "byte list" | V6 "u16 list"

datatype socket_addr = SockAddr (sa_ip: ip_addr) (sa_port: u16) (sa_scope: nat)

definition socket_new :: "ip_addr \<Rightarrow> u16 \<Rightarrow> socket_addr" where
  "socket_new ip port = SockAddr ip port 0"

fun is_unspecified :: "ip_addr \<Rightarrow> bool" where
  "is_unspecified (V4 os) = (os = [0, 0, 0, 0])"
| "is_unspecified (V6 ss) = (ss = [0, 0, 0, 0, 0, 0, 0, 0])"

fun is_loopback :: "ip_addr \<Rightarrow> bool" where
  "is_loopback (V4 os) = (case os of a # _ \<Rightarrow> a = 127 | [] \<Rightarrow> False)"
| "is_loopback (V6 ss) = (ss = [0, 0, 0, 0, 0, 0, 0, 1])"

section \<open>Order\<close>

instantiation ip_addr :: linorder
begin

definition less_eq_ip_addr :: "ip_addr \<Rightarrow> ip_addr \<Rightarrow> bool" where
  "less_eq_ip_addr a b =
     (case (a, b) of
        (V4 x, V4 y) \<Rightarrow> x \<le> y | (V4 _, V6 _) \<Rightarrow> True
      | (V6 _, V4 _) \<Rightarrow> False | (V6 x, V6 y) \<Rightarrow> x \<le> y)"

definition less_ip_addr :: "ip_addr \<Rightarrow> ip_addr \<Rightarrow> bool" where
  "less_ip_addr a b = (a \<le> b \<and> \<not> b \<le> (a :: ip_addr))"

instance
  by standard
    (auto simp: less_eq_ip_addr_def less_ip_addr_def split: ip_addr.splits)

end

instantiation socket_addr :: linorder
begin

definition less_eq_socket_addr :: "socket_addr \<Rightarrow> socket_addr \<Rightarrow> bool" where
  "less_eq_socket_addr a b =
     (sa_ip a < sa_ip b \<or> sa_ip a = sa_ip b \<and>
       (sa_port a < sa_port b \<or> sa_port a = sa_port b \<and> sa_scope a \<le> sa_scope b))"

definition less_socket_addr :: "socket_addr \<Rightarrow> socket_addr \<Rightarrow> bool" where
  "less_socket_addr a b = (a \<le> b \<and> \<not> b \<le> (a :: socket_addr))"

instance
  by standard
    (auto simp: less_eq_socket_addr_def less_socket_addr_def socket_addr.expand)

end

section \<open>Parsing\<close>

definition parse_octet :: "string \<Rightarrow> byte option" where
  "parse_octet s =
     (if s \<noteq> [] \<and> length s \<le> 3 \<and> list_all is_ascii_digit s
        \<and> (length s > 1 \<longrightarrow> hd s \<noteq> CHR ''0'') \<and> digits_val s \<le> 255
      then Some (word_of_nat (digits_val s)) else None)"

definition parse_ipv4 :: "string \<Rightarrow> byte list option" where
  "parse_ipv4 s =
     (let os = map parse_octet (split_on (CHR ''.'') s)
      in if length os = 4 \<and> list_all (\<lambda>m. m \<noteq> None) os then Some (map the os) else None)"

definition hex_val :: "string \<Rightarrow> nat" where
  "hex_val s = foldl (\<lambda>a c. a * 16 +
     (let n = of_char c :: nat in if n \<le> 57 then n - 48 else if n \<le> 70 then n - 55 else n - 87)) 0 s"

definition parse_group :: "string \<Rightarrow> u16 option" where
  "parse_group s =
     (if s \<noteq> [] \<and> length s \<le> 4 \<and> list_all is_ascii_hexdigit s
      then Some (word_of_nat (hex_val s)) else None)"

text \<open>Colon-separated groups; the last may be a dotted IPv4 address filling two segments.\<close>

fun parse_groups :: "string list \<Rightarrow> u16 list option" where
  "parse_groups [] = Some []"
| "parse_groups [g] =
     (case parse_group g of
        Some w \<Rightarrow> Some [w]
      | None \<Rightarrow>
          (case parse_ipv4 g of
             Some [a, b, c, d] \<Rightarrow> Some [ucast a * 256 + ucast b, ucast c * 256 + ucast d]
           | _ \<Rightarrow> None))"
| "parse_groups (g # gs) =
     (case (parse_group g, parse_groups gs) of (Some w, Some ws) \<Rightarrow> Some (w # ws) | _ \<Rightarrow> None)"

fun split_dcolon :: "string \<Rightarrow> (string \<times> string) option" where
  "split_dcolon (a # b # s) =
     (if a = CHR '':'' \<and> b = CHR '':'' then Some ([], s)
      else map_option (\<lambda>(h, t). (a # h, t)) (split_dcolon (b # s)))"
| "split_dcolon _ = None"

definition colon_groups :: "string \<Rightarrow> string list" where
  "colon_groups s = (if s = [] then [] else split_on (CHR '':'') s)"

definition parse_ipv6 :: "string \<Rightarrow> u16 list option" where
  "parse_ipv6 s =
     (case split_dcolon s of
        None \<Rightarrow>
          (case parse_groups (colon_groups s) of
             Some ws \<Rightarrow> if length ws = 8 then Some ws else None
           | None \<Rightarrow> None)
      | Some (h, t) \<Rightarrow>
          if CHR ''.'' \<in> set h then None
          else (case (parse_groups (colon_groups h), parse_groups (colon_groups t)) of
             (Some hs, Some ts) \<Rightarrow>
               if length hs + length ts \<le> 7
               then Some (hs @ replicate (8 - length hs - length ts) 0 @ ts) else None
           | _ \<Rightarrow> None))"

definition parse_ip :: "string \<Rightarrow> ip_addr option" where
  "parse_ip s =
     (case parse_ipv4 s of Some os \<Rightarrow> Some (V4 os) | None \<Rightarrow> map_option V6 (parse_ipv6 s))"

definition parse_dec :: "nat \<Rightarrow> string \<Rightarrow> nat option" where
  "parse_dec m s =
     (if s \<noteq> [] \<and> list_all is_ascii_digit s \<and> digits_val s \<le> m then Some (digits_val s) else None)"

definition parse_sa_v4 :: "string \<Rightarrow> socket_addr option" where
  "parse_sa_v4 s =
     (case split_once (CHR '':'') s of
        Some (a, p) \<Rightarrow>
          (case (parse_ipv4 a, parse_dec 65535 p) of
             (Some os, Some n) \<Rightarrow> Some (SockAddr (V4 os) (word_of_nat n) 0)
           | _ \<Rightarrow> None)
      | None \<Rightarrow> None)"

definition parse_sa_v6 :: "string \<Rightarrow> socket_addr option" where
  "parse_sa_v6 s =
     (if take 1 s \<noteq> ''['' then None
      else (case split_once (CHR '']'') (drop 1 s) of
        Some (inner, after) \<Rightarrow>
          if take 1 after \<noteq> '':'' then None
          else
            (let (ip, scope) =
               (case split_once (CHR 0x25) inner of
                  Some (i, z) \<Rightarrow> (parse_ipv6 i, parse_dec (2 ^ 32 - 1) z)
                | None \<Rightarrow> (parse_ipv6 inner, Some 0))
             in case (ip, scope, parse_dec 65535 (drop 1 after)) of
                  (Some ss, Some z, Some n) \<Rightarrow> Some (SockAddr (V6 ss) (word_of_nat n) z)
                | _ \<Rightarrow> None)
      | None \<Rightarrow> None))"

definition parse_sockaddr :: "string \<Rightarrow> socket_addr option" where
  "parse_sockaddr s =
     (case parse_sa_v4 s of Some a \<Rightarrow> Some a | None \<Rightarrow> parse_sa_v6 s)"

lemmas parse_defs =
  parse_sockaddr_def parse_sa_v4_def parse_sa_v6_def parse_dec_def parse_ip_def parse_ipv6_def
  parse_ipv4_def parse_octet_def parse_group_def colon_groups_def is_ascii_digit_def
  is_ascii_hexdigit_def digits_val_def hex_val_def Let_def

text \<open>The examples the repository's tests use.\<close>

lemma parse_examples:
  "parse_sockaddr ''100.67.13.80:51000'' = Some (SockAddr (V4 [100, 67, 13, 80]) 51000 0)"
  "parse_ip ''::1'' = Some (V6 [0, 0, 0, 0, 0, 0, 0, 1])"
  "parse_sockaddr ''[::1]:9'' = Some (SockAddr (V6 [0, 0, 0, 0, 0, 0, 0, 1]) 9 0)"
  "parse_sockaddr ''100.67.13.80'' = None"
  "parse_ip ''fe80::abcd'' = Some (V6 [0xfe80, 0, 0, 0, 0, 0, 0, 0xabcd])"
  by (simp_all add: parse_defs) (simp_all add: numeral_eq_Suc)

end
