(* ===== verification/Peers.thy ===== *)
theory Peers
  imports Net Frame
begin

text \<open>
  \<open>crates/qdrop-core/src/peers.rs\<close>: the registry of paired devices (\<open>peers.toml\<close>).
  The base64 codec, the TOML parser and the name resolver are parameters.
\<close>

section \<open>A paired peer\<close>

definition DEFAULT_PORT :: u16 where
  "DEFAULT_PORT = 47654"

record peer =
  peer_name :: string
  peer_id :: string
  public_key :: string
  last_seen :: "string option"
  authorized :: bool
  macs :: "string list"
  hostname :: "string option"
  address :: "string option"

definition peer_new :: "(bytes \<Rightarrow> string) \<Rightarrow> string \<Rightarrow> string \<Rightarrow> bytes \<Rightarrow> peer" where
  "peer_new b64 name device_id key =
    \<lparr>peer_name = name, peer_id = device_id, public_key = b64 key, last_seen = None,
     authorized = False, macs = [], hostname = None, address = None\<rparr>"

text \<open>
  \<open>resolve\<close> stands for \<open>to_socket_addrs\<close> on a \<open>host:port\<close> string: \<open>None\<close> when the
  name does not resolve.
\<close>

definition static_addrs :: "(string \<Rightarrow> socket_addr list option) \<Rightarrow> peer \<Rightarrow> socket_addr list" where
  "static_addrs resolve p =
    (case Option.bind (address p) (\<lambda>a. let t = trim a in if t \<noteq> [] then Some t else None) of
       None \<Rightarrow> []
     | Some raw \<Rightarrow>
         (case parse_sockaddr raw of
            Some sa \<Rightarrow> [sa]
          | None \<Rightarrow>
              (case parse_ip raw of
                 Some ip \<Rightarrow> [socket_new ip DEFAULT_PORT]
               | None \<Rightarrow>
                   let with_port =
                     (if parse_uint 65535 (last (split_on (CHR '':'') raw)) \<noteq> None then raw
                      else raw @ '':'' @ dec_str (unat DEFAULT_PORT))
                   in (case resolve with_port of Some as \<Rightarrow> as | None \<Rightarrow> []))))"

datatype key_error = BadBase64 | NotThirtyTwoBytes

definition key_bytes :: "(string \<Rightarrow> bytes option) \<Rightarrow> peer \<Rightarrow> (key_error, bytes) res" where
  "key_bytes unb64 p =
    (case unb64 (trim (public_key p)) of
       None \<Rightarrow> Inl BadBase64
     | Some raw \<Rightarrow> if length raw = 32 then Inr raw else Inl NotThirtyTwoBytes)"

section \<open>The registry\<close>

type_synonym peers = "peer list"

datatype load_error = ReadFailed io_kind | ParseFailed

definition peers_load :: "(string \<Rightarrow> peers option) \<Rightarrow> (io_kind, string) res \<Rightarrow> (load_error, peers) res" where
  "peers_load toml file =
    (case file of
       Inr text \<Rightarrow> (case toml text of Some ps \<Rightarrow> Inr ps | None \<Rightarrow> Inl ParseFailed)
     | Inl e \<Rightarrow> if e = NotFound then Inr [] else Inl (ReadFailed e))"

definition find_peer :: "peers \<Rightarrow> string \<Rightarrow> peer option" where
  "find_peer ps name = find (\<lambda>p. peer_name p = name) ps"

definition find_by_id :: "peers \<Rightarrow> string \<Rightarrow> peer option" where
  "find_by_id ps d = find (\<lambda>p. peer_id p = d) ps"

definition upsert :: "peers \<Rightarrow> peer \<Rightarrow> peers" where
  "upsert ps p =
    (let rest = filter (\<lambda>q. peer_id q \<noteq> peer_id p) ps;
         p' = (if list_ex (\<lambda>q. peer_name q = peer_name p \<and> peer_id q \<noteq> peer_id p) rest
               then p\<lparr>peer_name := peer_name p @ ''-'' @ take_chars 6 (peer_id p)\<rparr> else p)
     in rest @ [p'])"

definition remove_by_name :: "peers \<Rightarrow> string \<Rightarrow> bool \<times> peers" where
  "remove_by_name ps name =
    (let ps' = filter (\<lambda>p. peer_name p \<noteq> name) ps in (length ps' \<noteq> length ps, ps'))"

text \<open>
  \<open>find_any_mut\<close> hands out a mutable reference to the first entry whose name or id
  matches; the model applies the caller's update to it, \<open>None\<close> when there is no match.
\<close>

fun update_any :: "string \<Rightarrow> (peer \<Rightarrow> peer) \<Rightarrow> peers \<Rightarrow> peers option" where
  "update_any k f [] = None"
| "update_any k f (p # ps) =
     (if peer_name p = k \<or> peer_id p = k then Some (f p # ps)
      else map_option (\<lambda>ps'. p # ps') (update_any k f ps))"

definition is_authorized :: "peers \<Rightarrow> string \<Rightarrow> bool" where
  "is_authorized ps d = (case find_by_id ps d of Some p \<Rightarrow> authorized p | None \<Rightarrow> False)"

text \<open>
  The lookup by name, then by id, that \<open>filexfer::resolve_peer\<close>, \<open>weblink::resolve\<close> and
  two control requests repeat.
\<close>

definition resolve_peer :: "(load_error, peers) res \<Rightarrow> string \<Rightarrow> string option" where
  "resolve_peer file name =
    (case file of
       Inl _ \<Rightarrow> None
     | Inr ps \<Rightarrow>
         (case find_peer ps name of
            Some p \<Rightarrow> Some (peer_id p)
          | None \<Rightarrow> map_option peer_id (find_by_id ps name)))"

text \<open>Every device has one entry.\<close>

definition peers_wf :: "peers \<Rightarrow> bool" where
  "peers_wf ps \<longleftrightarrow> distinct (map peer_id ps)"

section \<open>Lemmas\<close>

lemma find_by_id_SomeD: "find_by_id ps d = Some p \<Longrightarrow> p \<in> set ps \<and> peer_id p = d"
  by (auto simp: find_by_id_def dest: find_SomeD)

lemma find_by_id_None: "find_by_id ps d = None \<longleftrightarrow> d \<notin> peer_id ` set ps"
  by (auto simp: find_by_id_def find_None_iff)

lemma find_by_id_mem: "peers_wf ps \<Longrightarrow> p \<in> set ps \<Longrightarrow> find_by_id ps (peer_id p) = Some p"
  by (simp add: peers_wf_def find_by_id_def find_distinct_key)

text \<open>The entry \<open>upsert\<close> stores.\<close>

definition upserted :: "peers \<Rightarrow> peer \<Rightarrow> peer" where
  "upserted ps p = last (upsert ps p)"

lemma upsert_eq: "upsert ps p = filter (\<lambda>q. peer_id q \<noteq> peer_id p) ps @ [upserted ps p]"
  by (simp add: upserted_def upsert_def Let_def)

lemma upserted_id [simp]: "peer_id (upserted ps p) = peer_id p"
  by (simp add: upserted_def upsert_def Let_def)

lemma upserted_key [simp]: "public_key (upserted ps p) = public_key p"
  by (simp add: upserted_def upsert_def Let_def)

lemma upserted_name:
  "peer_name (upserted ps p) =
     (if \<exists>q\<in>set ps. peer_name q = peer_name p \<and> peer_id q \<noteq> peer_id p
      then peer_name p @ ''-'' @ take_chars 6 (peer_id p) else peer_name p)"
  by (auto simp: upserted_def upsert_def Let_def list_ex_iff)

lemma upsert_wf [step_inv]: "peers_wf ps \<Longrightarrow> peers_wf (upsert ps p)"
  by (auto simp: peers_wf_def upsert_eq distinct_map_filter)

lemma remove_wf [step_inv]: "peers_wf ps \<Longrightarrow> peers_wf (snd (remove_by_name ps n))"
  by (simp add: peers_wf_def remove_by_name_def Let_def distinct_map_filter)

lemma update_any_ids:
  "(\<And>p. peer_id (f p) = peer_id p) \<Longrightarrow> update_any k f ps = Some ps' \<Longrightarrow>
     map peer_id ps' = map peer_id ps"
  by (induction ps arbitrary: ps') (auto split: if_splits)

lemma update_any_wf [step_inv]:
  "(\<And>p. peer_id (f p) = peer_id p) \<Longrightarrow> update_any k f ps = Some ps' \<Longrightarrow> peers_wf ps \<Longrightarrow>
     peers_wf ps'"
  using update_any_ids[of f k ps ps'] by (simp add: peers_wf_def)

lemma find_by_id_upsert:
  "find_by_id (upsert ps p) d = (if d = peer_id p then Some (upserted ps p) else find_by_id ps d)"
proof (cases "d = peer_id p")
  case True
  then have "find_by_id (filter (\<lambda>q. peer_id q \<noteq> peer_id p) ps) d = None"
    by (auto simp: find_by_id_None)
  with True show ?thesis
    by (simp add: upsert_eq find_by_id_def find_append)
next
  case False
  then have "find_by_id (filter (\<lambda>q. peer_id q \<noteq> peer_id p) ps) d = find_by_id ps d"
    unfolding find_by_id_def by (intro find_filter_other) auto
  with False show ?thesis
    by (auto simp: upsert_eq find_by_id_def find_append split: option.splits)
qed

section \<open>Properties\<close>

text \<open>
  Recording a peer replaces exactly the entry of that device: a lookup by its id finds
  the new key, every other device keeps its entry, and a registry with one entry per device
  stays one.
\<close>

theorem upsert_replaces_one_device:
  assumes "peers_wf ps"
  shows "peers_wf (upsert ps p)
    \<and> find_by_id (upsert ps p) d = (if d = peer_id p then Some (upserted ps p) else find_by_id ps d)
    \<and> peer_id (upserted ps p) = peer_id p \<and> public_key (upserted ps p) = public_key p"
  using assms by (simp add: upsert_wf find_by_id_upsert)

definition peer_ex :: "string \<Rightarrow> string \<Rightarrow> peer" where
  "peer_ex n d = peer_new (\<lambda>k. ''k'') n d []"

theorem upsert_replaces_one_device_witness:
  "peers_wf (upsert [peer_ex ''box'' ''aaa''] (peer_ex ''box'' ''bbb''))"
  using upsert_replaces_one_device[of "[peer_ex ''box'' ''aaa'']"]
  by (simp add: peers_wf_def)

text \<open>
  Names stay unambiguous when a peer is added, provided no other device already uses
  the name with the six-character suffix that \<open>upsert\<close> would invent.
\<close>

theorem upsert_names_distinct:
  assumes "distinct (map peer_name ps)"
    and "\<not> list_ex (\<lambda>q. peer_name q = peer_name p @ ''-'' @ take_chars 6 (peer_id p)
                     \<and> peer_id q \<noteq> peer_id p) ps"
  shows "distinct (map peer_name (upsert ps p))"
  using assms
  by (auto simp: upsert_eq upserted_name distinct_map_filter list_ex_iff)

theorem upsert_names_distinct_witness:
  "distinct (map peer_name (upsert [peer_ex ''box'' ''aaa''] (peer_ex ''box'' ''bbbbbbbb'')))"
proof -
  have "\<not> list_ex (\<lambda>q. peer_name q = peer_name (peer_ex ''box'' ''bbbbbbbb'') @ ''-''
      @ take_chars 6 (peer_id (peer_ex ''box'' ''bbbbbbbb'')) \<and> peer_id q \<noteq> ''bbbbbbbb'')
    [peer_ex ''box'' ''aaa'']"
    by (simp add: peer_ex_def peer_new_def)
  then show ?thesis
    by (intro upsert_names_distinct) (simp_all add: peer_ex_def peer_new_def)
qed

text \<open>
  Without that proviso the suffix does not disambiguate: after pairing three devices
  that call themselves \<open>box\<close>, two of whose ids share six characters, two of them have
  the same name, although the registry had distinct names before.
\<close>

theorem upsert_suffix_collision:
  "let ps = upsert (upsert [] (peer_ex ''box'' ''aaaa0000'')) (peer_ex ''box'' ''bbbbbb11'');
       ps' = upsert ps (peer_ex ''box'' ''bbbbbb22'')
   in distinct (map peer_name ps) \<and> \<not> distinct (map peer_name ps')
      \<and> map peer_name ps' = [''box'', ''box-bbbbbb'', ''box-bbbbbb'']"
  by (simp add: upsert_def peer_ex_def peer_new_def take_chars_def chars_ascii numeral_eq_Suc)

end
