(* ===== verification/Config.thy ===== *)
theory Config
  imports Peers
begin

text \<open>
  \<open>crates/qdrop-core/src/config.rs\<close>: the configuration with its defaults and the three-way
  confirmation policy with its hand-written (de)serialisation. The TOML parser and the
  \<open>hostname\<close> command are parameters.
\<close>

section \<open>The confirmation policy\<close>

datatype confirm_policy = Never | Unlisted | Always

text \<open>The value a policy has in the file: a boolean or a string.\<close>

datatype raw_policy = RawBool bool | RawStr string

fun serialize_policy :: "confirm_policy \<Rightarrow> raw_policy" where
  "serialize_policy Never = RawBool False"
| "serialize_policy Unlisted = RawBool True"
| "serialize_policy Always = RawStr ''strict''"

fun deserialize_policy :: "raw_policy \<Rightarrow> confirm_policy option" where
  "deserialize_policy (RawBool False) = Some Never"
| "deserialize_policy (RawBool True) = Some Unlisted"
| "deserialize_policy (RawStr s) =
     (let t = to_ascii_lowercase s in
      if t = ''never'' \<or> t = ''false'' then Some Never
      else if t = ''unlisted'' \<or> t = ''true'' then Some Unlisted
      else if t = ''strict'' \<or> t = ''always'' then Some Always
      else None)"

section \<open>The configuration\<close>

record config =
  device_name :: string
  port :: u16
  sync_clipboard :: bool
  sync_images :: bool
  max_clipboard_bytes :: u64
  clipboard_history :: nat
  require_confirm :: confirm_policy
  log_filter :: string

text \<open>What \<open>hostname\<close> prints: \<open>None\<close> when it cannot be run or fails.\<close>

definition config_hostname :: "bytes option \<Rightarrow> string option" where
  "config_hostname out =
    (case Option.bind out from_utf8 of
       None \<Rightarrow> None
     | Some s \<Rightarrow> let t = trim s in if t \<noteq> [] then Some t else None)"

definition default_device_name :: "string option \<Rightarrow> bytes option \<Rightarrow> string" where
  "default_device_name env_name out =
    (case (case env_name of Some v \<Rightarrow> if v \<noteq> [] then Some v else None | None \<Rightarrow> None) of
       Some v \<Rightarrow> v
     | None \<Rightarrow> (case config_hostname out of Some h \<Rightarrow> h | None \<Rightarrow> ''qdrop-device''))"

definition config_default :: "string option \<Rightarrow> bytes option \<Rightarrow> config" where
  "config_default env_name out =
    \<lparr>device_name = default_device_name env_name out, port = DEFAULT_PORT, sync_clipboard = True,
     sync_images = True, max_clipboard_bytes = 1024 * 1024, clipboard_history = 25,
     require_confirm = Never, log_filter = ''info''\<rparr>"

definition config_load ::
  "(string \<Rightarrow> config option) \<Rightarrow> config \<Rightarrow> (io_kind, string) res \<Rightarrow> (load_error, config) res" where
  "config_load toml dflt file =
    (case file of
       Inr text \<Rightarrow> (case toml text of Some c \<Rightarrow> Inr c | None \<Rightarrow> Inl ParseFailed)
     | Inl e \<Rightarrow> if e = NotFound then Inr dflt else Inl (ReadFailed e))"

section \<open>Properties\<close>

lemma default_device_name_ne: "default_device_name env_name out \<noteq> []"
  by (auto simp: default_device_name_def config_hostname_def Let_def split: option.splits if_splits)

text \<open>
  The confirmation policy survives a round trip through the configuration file, and a
  string is read as a policy only if it is one of the six documented words in some ASCII
  case.
\<close>

theorem policy_roundtrip:
  "deserialize_policy (serialize_policy p) = Some p
   \<and> (deserialize_policy (RawStr s) \<noteq> None \<longleftrightarrow>
        list_ex (eq_ignore_ascii_case s)
          [''never'', ''false'', ''unlisted'', ''true'', ''strict'', ''always''])"
proof
  show "deserialize_policy (serialize_policy p) = Some p"
    by (cases p) (simp_all add: to_ascii_lowercase_def ascii_lower_def)
qed (simp add: Let_def eq_ignore_ascii_case_def to_ascii_lowercase_def ascii_lower_def)

end
