(* ===== verification/History.thy ===== *)
theory History
  imports Crypto Config
begin

text \<open>
  \<open>crates/qdropd/src/history.rs\<close>: the ring of recent clipboard entries and the image
  files behind it. The directory is a map from file names to contents beside the persisted
  index; which system calls succeed is an argument of each operation, SHA-256 the parameter
  \<open>sha\<close>.
\<close>

section \<open>State\<close>

datatype body = TextBody string | ImageBody string u32 u32

record entry =
  e_body :: body
  e_when :: u64
  e_origin :: string
  e_hash :: string

record history =
  h_max :: nat
  h_entries :: "entry list"
  next_file :: u64
  h_files :: "string \<Rightarrow> bytes option"
  h_index :: "entry list option"

record hist_env =
  he_now :: u64
  he_dims :: "(u32 \<times> u32) option"
  he_write_ok :: bool
  he_remove_ok :: bool
  he_persist_ok :: bool

datatype restored = RestoredText string | RestoredImage bytes

section \<open>Operations\<close>

definition png_name :: "u64 \<Rightarrow> string" where
  "png_name n = dec_str (unat n) @ ''.png''"

definition png_number :: "entry \<Rightarrow> u64 option" where
  "png_number e =
    (case e_body e of
       ImageBody f _ _ \<Rightarrow>
         map_option of_nat (Option.bind (strip_suffix f ''.png'') (parse_uint (2 ^ 64 - 1)))
     | TextBody _ \<Rightarrow> None)"

definition history_load :: "nat \<Rightarrow> entry list option \<Rightarrow> (string \<Rightarrow> bytes option) \<Rightarrow> history" where
  "history_load m idx files =
    (let es = take m (case idx of Some es \<Rightarrow> es | None \<Rightarrow> []);
         ns = List.map_filter png_number es
     in \<lparr>h_max = m, h_entries = es,
         next_file = (if ns = [] then 0 else foldl max (hd ns) (tl ns) + 1),
         h_files = files, h_index = idx\<rparr>)"

definition enabled :: "history \<Rightarrow> bool" where
  "enabled h \<longleftrightarrow> h_max h > 0"

definition front_is :: "string \<Rightarrow> entry list \<Rightarrow> bool" where
  "front_is hash q = (case q of f # _ \<Rightarrow> e_hash f = hash | [] \<Rightarrow> False)"

function evict :: "bool \<Rightarrow> nat \<Rightarrow> entry list \<Rightarrow> (string \<Rightarrow> bytes option) \<Rightarrow> entry list \<times> (string \<Rightarrow> bytes option)" where
  "evict rm_ok m q files =
     (if length q > m
      then evict rm_ok m (butlast q)
             (case e_body (last q) of
                ImageBody f _ _ \<Rightarrow> if rm_ok then files(f := None) else files
              | TextBody _ \<Rightarrow> files)
      else (q, files))"
  by pat_completeness auto
termination
  by (relation "measure (\<lambda>(_, _, q, _). length q)") auto

declare evict.simps [simp del]

definition persist :: "hist_env \<Rightarrow> entry list \<Rightarrow> history \<Rightarrow> history" where
  "persist ev q h = (if he_persist_ok ev then h\<lparr>h_index := Some q\<rparr> else h)"

definition push :: "hist_env \<Rightarrow> entry \<Rightarrow> history \<Rightarrow> history" where
  "push ev e h =
    (if front_is (e_hash e) (h_entries h) then h
     else (case evict (he_remove_ok ev) (h_max h) (e # h_entries h) (h_files h) of
        (q, files) \<Rightarrow> persist ev q (h\<lparr>h_entries := q, h_files := files\<rparr>)))"

definition record_text :: "(bytes \<Rightarrow> bytes) \<Rightarrow> hist_env \<Rightarrow> string \<Rightarrow> string \<Rightarrow> history \<Rightarrow> history" where
  "record_text sha ev text origin h =
    (if \<not> enabled h \<or> text = [] then h
     else push ev \<lparr>e_body = TextBody text, e_when = he_now ev, e_origin = origin,
                    e_hash = hex (sha (str_bytes text))\<rparr> h)"

definition record_image :: "(bytes \<Rightarrow> bytes) \<Rightarrow> hist_env \<Rightarrow> bytes \<Rightarrow> string \<Rightarrow> history \<Rightarrow> history" where
  "record_image sha ev png origin h =
    (if \<not> enabled h then h
     else (let content_hash = hex (sha png) in
       if front_is content_hash (h_entries h) then h
       else (let (w, ht) = (case he_dims ev of Some d \<Rightarrow> d | None \<Rightarrow> (0, 0));
                 n = next_file h;
                 h = h\<lparr>next_file := next_file h + 1\<rparr>;
                 file = png_name n
             in if \<not> he_write_ok ev then h
                else push ev \<lparr>e_body = ImageBody file w ht, e_when = he_now ev, e_origin = origin,
                               e_hash = content_hash\<rparr>
                       (h\<lparr>h_files := (h_files h)(file \<mapsto> png)\<rparr>))))"

definition history_get :: "nat \<Rightarrow> history \<Rightarrow> restored option" where
  "history_get i h =
    (if i < length (h_entries h)
     then (case e_body (h_entries h ! i) of
             TextBody t \<Rightarrow> Some (RestoredText t)
           | ImageBody f _ _ \<Rightarrow> map_option RestoredImage (h_files h f))
     else None)"

text \<open>The listing for the control socket, newest first.\<close>

record list_item =
  li_index :: nat
  li_kind :: string
  li_preview :: string
  li_when :: u64
  li_origin :: string

definition preview :: "entry \<Rightarrow> string" where
  "preview e =
    (case e_body e of
       TextBody t \<Rightarrow>
         concat (map (\<lambda>c. if c = CHR 0x0A then [CHR 0xE2, CHR 0x8F, CHR 0x8E] else [c]) (take_chars 60 t))
     | ImageBody _ w ht \<Rightarrow>
         ''[image '' @ dec_str (unat w) @ [CHR 0xC3, CHR 0x97] @ dec_str (unat ht) @ '']'')"

definition name_of :: "peers \<Rightarrow> string \<Rightarrow> string" where
  "name_of ps origin =
    (if origin = ''local'' then ''local''
     else (case find_by_id ps origin of Some p \<Rightarrow> peer_name p | None \<Rightarrow> take_chars 8 origin))"

definition history_list :: "(load_error, peers) res \<Rightarrow> history \<Rightarrow> list_item list" where
  "history_list reg h =
    (let ps = (case reg of Inr ps \<Rightarrow> ps | Inl _ \<Rightarrow> [])
     in map (\<lambda>(i, e). \<lparr>li_index = i,
               li_kind = (case e_body e of TextBody _ \<Rightarrow> ''text'' | ImageBody _ _ _ \<Rightarrow> ''image''),
               li_preview = preview e, li_when = e_when e, li_origin = name_of ps (e_origin e)\<rparr>)
          (zip [0..<length (h_entries h)] (h_entries h)))"

section \<open>Lemmas\<close>

text \<open>One call of the sync loop.\<close>

datatype hist_event = RecText string string | RecImage bytes string

definition hist_step :: "(bytes \<Rightarrow> bytes) \<Rightarrow> history \<Rightarrow> hist_env \<times> hist_event \<Rightarrow> history" where
  "hist_step sha h e =
    (case e of (ev, RecText t origin) \<Rightarrow> record_text sha ev t origin h
             | (ev, RecImage b origin) \<Rightarrow> record_image sha ev b origin h)"

definition img_files :: "entry list \<Rightarrow> string list" where
  "img_files q =
     List.map_filter (\<lambda>e. case e_body e of ImageBody f _ _ \<Rightarrow> Some f | TextBody _ \<Rightarrow> None) q"

lemma img_files_Nil [simp]: "img_files [] = []"
  by (simp add: img_files_def map_filter_def)

lemma img_files_append [simp]: "img_files (q @ r) = img_files q @ img_files r"
  by (simp add: img_files_def map_filter_def)

lemma img_files_Cons:
  "img_files (e # q) = (case e_body e of ImageBody f _ _ \<Rightarrow> f # img_files q | TextBody _ \<Rightarrow> img_files q)"
  by (simp add: img_files_def map_filter_def split: body.splits)

lemma img_files_take: "distinct (img_files q) \<Longrightarrow> distinct (img_files (take m q))"
  by (metis append_take_drop_id distinct_append img_files_append)

lemma set_img_files_take: "set (img_files (take m q)) \<subseteq> set (img_files q)"
  by (metis append_take_drop_id img_files_append set_append sup_ge1)

text \<open>
  Eviction keeps the newest entries, and of the files those of the entries kept.
\<close>

lemma evict_take:
  assumes "distinct (img_files q)"
  shows "fst (evict rm_ok m q files) = take m q
    \<and> (\<forall>f\<in>set (img_files (take m q)). snd (evict rm_ok m q files) f = files f)"
  using assms
proof (induction rm_ok m q files rule: evict.induct)
  case (1 rm_ok m q files)
  show ?case
  proof (cases "length q > m")
    case False
    then show ?thesis by (simp add: evict.simps)
  next
    case True
    then have ne: "q \<noteq> []" by auto
    define files' where "files' = (case e_body (last q) of
       ImageBody f _ _ \<Rightarrow> if rm_ok then files(f := None) else files | TextBody _ \<Rightarrow> files)"
    have q: "img_files q = img_files (butlast q) @ img_files [last q]"
      using ne by (metis append_butlast_last_id img_files_append)
    have tk: "take m (butlast q) = take m q" using True by (simp add: take_butlast)
    have same: "files' f = files f" if "f \<in> set (img_files (take m q))" for f
    proof -
      have "f \<in> set (img_files (butlast q))"
        using that set_img_files_take[of m "butlast q"] tk by auto
      then have "f \<notin> set (img_files [last q])" using "1.prems" q by auto
      then show ?thesis by (auto simp: files'_def img_files_Cons split: body.splits)
    qed
    have "evict rm_ok m q files = evict rm_ok m (butlast q) files'"
      using True by (subst evict.simps) (simp add: files'_def)
    then show ?thesis
      using "1.IH"[OF True, folded files'_def] "1.prems" q same by (simp add: tk)
  qed
qed

lemma evict_fst: "fst (evict rm_ok m q files) = take m q"
proof (induction rm_ok m q files rule: evict.induct)
  case (1 rm_ok m q files)
  then show ?case by (subst evict.simps) (simp add: take_butlast)
qed

lemma push_entries:
  "h_entries (push ev e h) =
     (if front_is (e_hash e) (h_entries h) then h_entries h else take (h_max h) (e # h_entries h))"
  using evict_fst[of "he_remove_ok ev" "h_max h" "e # h_entries h" "h_files h"]
  by (simp add: push_def persist_def case_prod_beta)

lemma push_max [simp]: "h_max (push ev e h) = h_max h"
  by (simp add: push_def persist_def case_prod_beta)

text \<open>The ring is never longer than its limit and never repeats an entry in a row.\<close>

definition ring_ok :: "nat \<Rightarrow> history \<Rightarrow> bool" where
  "ring_ok m h \<longleftrightarrow> h_max h = m \<and> length (h_entries h) \<le> m \<and> distinct_adj (map e_hash (h_entries h))"

lemma distinct_adj_take: "distinct_adj xs \<Longrightarrow> distinct_adj (take m xs)"
  by (metis append_take_drop_id distinct_adj_appendD1)

lemma push_ring [step_inv]: "ring_ok m h \<Longrightarrow> ring_ok m (push ev e h)"
proof -
  assume r: "ring_ok m h"
  have "distinct_adj (map e_hash (e # h_entries h))" if "\<not> front_is (e_hash e) (h_entries h)"
    using that r by (cases "h_entries h") (auto simp: ring_ok_def front_is_def)
  then have "distinct_adj (map e_hash (take m (e # h_entries h)))" if "\<not> front_is (e_hash e) (h_entries h)"
    using that distinct_adj_take unfolding take_map[symmetric] by blast
  with r show ?thesis by (auto simp: ring_ok_def push_entries)
qed

lemma hist_step_ring: "ring_ok m h \<Longrightarrow> ring_ok m (hist_step sha h e)"
proof -
  assume r: "ring_ok m h"
  have "ring_ok m (h\<lparr>next_file := n, h_files := f\<rparr>)" "ring_ok m (h\<lparr>next_file := n\<rparr>)" for n f
    using r by (simp_all add: ring_ok_def)
  with r show ?thesis
    by (auto simp: hist_step_def record_text_def record_image_def Let_def case_prod_beta push_ring
        split: prod.splits hist_event.splits)
qed

interpretation hs: event_system "hist_step sha" "ring_ok m" for sha m
  by unfold_locales (rule hist_step_ring)

text \<open>
  Which files of its directory the history touches: only those named by a number. An index the
  program wrote names no others.
\<close>

definition png_numbered :: "string \<Rightarrow> bool" where
  "png_numbered f \<longleftrightarrow> (\<exists>k. f = png_name k)"

definition only_numbered :: "(string \<Rightarrow> bytes option) \<Rightarrow> history \<Rightarrow> bool" where
  "only_numbered files0 h \<longleftrightarrow>
     (\<forall>f. h_files h f \<noteq> files0 f \<longrightarrow> png_numbered f) \<and> (\<forall>f\<in>set (img_files (h_entries h)). png_numbered f)"

lemma evict_files: "snd (evict rm_ok m q files) f \<noteq> files f \<Longrightarrow> f \<in> set (img_files q)"
proof (induction rm_ok m q files rule: evict.induct)
  case (1 rm_ok m q files)
  show ?case
  proof (cases "length q > m")
    case True
    then have "q = butlast q @ [last q]" by (cases q rule: rev_cases) auto
    then have q: "img_files q = img_files (butlast q) @ img_files [last q]" by (metis img_files_append)
    define files' where "files' = (case e_body (last q) of
       ImageBody f _ _ \<Rightarrow> if rm_ok then files(f := None) else files | TextBody _ \<Rightarrow> files)"
    have ev: "evict rm_ok m q files = evict rm_ok m (butlast q) files'"
      using True by (subst evict.simps) (simp add: files'_def)
    show ?thesis
    proof (cases "files' f = files f")
      case False
      then have "f \<in> set (img_files [last q])" by (auto simp: files'_def img_files_Cons split: body.splits if_splits)
      then show ?thesis by (simp add: q)
    qed (use "1.IH"[OF True, folded files'_def] "1.prems" ev q in auto)
  qed (use "1.prems" in \<open>simp add: evict.simps\<close>)
qed

lemma push_numbered:
  assumes "only_numbered files0 h" "\<forall>f\<in>set (img_files [e]). png_numbered f"
  shows "only_numbered files0 (push ev e h)"
proof -
  have q: "\<forall>f\<in>set (img_files (e # h_entries h)). png_numbered f"
    using assms img_files_append[of "[e]" "h_entries h"] by (auto simp: only_numbered_def)
  have "set (img_files (h_entries (push ev e h))) \<subseteq> set (img_files (e # h_entries h))"
    using set_img_files_take[of "h_max h" "e # h_entries h"] by (auto simp: push_entries img_files_Cons split: body.splits)
  moreover have "h_files (push ev e h) f = h_files h f \<or> png_numbered f" for f
    using evict_files[of "he_remove_ok ev" "h_max h" "e # h_entries h" "h_files h" f] q
    by (auto simp: push_def persist_def case_prod_beta)
  ultimately show ?thesis using assms(1) q unfolding only_numbered_def by (metis subsetD)
qed

lemma record_numbered:
  "only_numbered files0 h \<Longrightarrow> only_numbered files0 (record_text sha ev t origin h)"
  "only_numbered files0 h \<Longrightarrow> only_numbered files0 (record_image sha ev png origin h)"
proof -
  assume h: "only_numbered files0 h"
  then show "only_numbered files0 (record_text sha ev t origin h)"
    by (auto simp: record_text_def img_files_Cons intro!: push_numbered)
  have n: "png_numbered (png_name (next_file h))" by (auto simp: png_numbered_def)
  with h have "only_numbered files0 (h\<lparr>next_file := i, h_files := (h_files h)(png_name (next_file h) \<mapsto> png)\<rparr>)"
    "only_numbered files0 (h\<lparr>next_file := i\<rparr>)" for i
    by (auto simp: only_numbered_def)
  with h n show "only_numbered files0 (record_image sha ev png origin h)"
    by (auto simp: record_image_def Let_def case_prod_beta img_files_Cons intro!: push_numbered)
qed

text \<open>Every entry is backed by its content, and file names are not reused.\<close>

definition backed :: "(bytes \<Rightarrow> bytes) \<Rightarrow> (string \<Rightarrow> bytes option) \<Rightarrow> entry \<Rightarrow> bool" where
  "backed sha files e \<longleftrightarrow>
     (case e_body e of
        TextBody t \<Rightarrow> e_hash e = hex (sha (str_bytes t))
      | ImageBody f _ _ \<Rightarrow> (case files f of Some png \<Rightarrow> e_hash e = hex (sha png) | None \<Rightarrow> False))"

definition hist_wf :: "(bytes \<Rightarrow> bytes) \<Rightarrow> history \<Rightarrow> bool" where
  "hist_wf sha h \<longleftrightarrow>
     distinct (img_files (h_entries h))
     \<and> (\<forall>f\<in>set (img_files (h_entries h)). \<exists>n<unat (next_file h). f = dec_str n @ ''.png'')
     \<and> (\<forall>e\<in>set (h_entries h). backed sha (h_files h) e)"

lemma backed_cong:
  "backed sha files e \<Longrightarrow> (\<And>f. f \<in> set (img_files [e]) \<Longrightarrow> files' f = files f) \<Longrightarrow> backed sha files' e"
  by (auto simp: backed_def img_files_Cons split: body.splits)

lemma img_files_mem: "e \<in> set q \<Longrightarrow> set (img_files [e]) \<subseteq> set (img_files q)"
  by (auto simp: img_files_def map_filter_def split: body.splits)

lemma push_wf:
  assumes "hist_wf sha h" "backed sha (h_files h) e"
    and new: "\<And>f. f \<in> set (img_files [e]) \<Longrightarrow>
        f \<notin> set (img_files (h_entries h)) \<and> (\<exists>n<unat (next_file h). f = dec_str n @ ''.png'')"
  shows "hist_wf sha (push ev e h) \<and> next_file (push ev e h) = next_file h"
proof (cases "front_is (e_hash e) (h_entries h)")
  case True
  with assms(1) show ?thesis by (simp add: push_def)
next
  case False
  let ?q = "e # h_entries h"
  have img: "img_files ?q = img_files [e] @ img_files (h_entries h)"
    using img_files_append[of "[e]" "h_entries h"] by simp
  have d: "distinct (img_files ?q)"
    using assms(1) new unfolding img by (auto simp: hist_wf_def img_files_Cons split: body.splits)
  obtain q files where ev: "evict (he_remove_ok ev) (h_max h) ?q (h_files h) = (q, files)" by fastforce
  have q: "q = take (h_max h) ?q" and files: "\<forall>f\<in>set (img_files q). files f = h_files h f"
    using evict_take[OF d, of "he_remove_ok ev" "h_max h" "h_files h"] ev by auto
  have bk: "backed sha files x" if x: "x \<in> set q" for x
  proof -
    have "x \<in> set (e # h_entries h)" using x q by (metis in_set_takeD)
    then have "backed sha (h_files h) x"
      using assms(1,2) by (auto simp: hist_wf_def)
    then show ?thesis using img_files_mem[OF x] files by (auto intro: backed_cong)
  qed
  have nm: "\<exists>n<unat (next_file h). f = dec_str n @ ''.png''" if "f \<in> set (img_files q)" for f
    using that set_img_files_take[of "h_max h" ?q] assms(1) new unfolding img q
    by (auto simp: hist_wf_def)
  have "hist_wf sha (h\<lparr>h_entries := q, h_files := files\<rparr>)"
    using bk nm d img_files_take unfolding hist_wf_def by (simp add: q)
  then show ?thesis
    using False by (auto simp: push_def ev persist_def hist_wf_def)
qed

lemma record_text_wf:
  assumes "hist_wf sha h"
  shows "hist_wf sha (record_text sha ev t origin h)
    \<and> next_file (record_text sha ev t origin h) = next_file h"
proof -
  have "hist_wf sha (push ev e h) \<and> next_file (push ev e h) = next_file h"
    if "e = \<lparr>e_body = TextBody t, e_when = w, e_origin = origin, e_hash = hex (sha (str_bytes t))\<rparr>" for e w
    by (rule push_wf[OF assms]) (simp_all add: that backed_def img_files_Cons)
  with assms show ?thesis by (simp add: record_text_def)
qed

lemma record_image_wf:
  assumes "hist_wf sha h" "unat (next_file h) + 1 < 2 ^ 64"
  shows "hist_wf sha (record_image sha ev png origin h)
    \<and> unat (next_file (record_image sha ev png origin h)) \<le> unat (next_file h) + 1"
proof -
  define h1 where "h1 = h\<lparr>next_file := next_file h + 1\<rparr>"
  define h2 where "h2 = h1\<lparr>h_files := (h_files h)(png_name (next_file h) \<mapsto> png)\<rparr>"
  have nx: "unat (next_file h + 1) = unat (next_file h) + 1"
    using unat_add_lem[of "next_file h" 1] assms(2) by simp
  have fresh: "png_name (next_file h) \<notin> set (img_files (h_entries h))"
    using assms(1) by (auto simp: hist_wf_def png_name_def)
  have w1: "hist_wf sha h1"
    using assms(1) nx by (fastforce simp: hist_wf_def h1_def)
  have w2: "hist_wf sha h2"
  proof -
    have "backed sha (h_files h2) e" if e: "e \<in> set (h_entries h)" for e
    proof (rule backed_cong)
      show "backed sha (h_files h) e" using e assms(1) by (simp add: hist_wf_def)
      show "h_files h2 f = h_files h f" if "f \<in> set (img_files [e])" for f
        using that img_files_mem[OF e] fresh by (auto simp: h2_def)
    qed
    with w1 show ?thesis by (auto simp: hist_wf_def h1_def h2_def)
  qed
  have "hist_wf sha (push ev \<lparr>e_body = ImageBody (png_name (next_file h)) w ht, e_when = t, e_origin = origin,
       e_hash = hex (sha png)\<rparr> h2)
    \<and> next_file (push ev \<lparr>e_body = ImageBody (png_name (next_file h)) w ht, e_when = t, e_origin = origin,
       e_hash = hex (sha png)\<rparr> h2) = next_file h2" for w ht t
    using fresh nx
    by (intro push_wf[OF w2]) (auto simp: backed_def h2_def h1_def img_files_Cons png_name_def)
  with w1 assms(1) nx show ?thesis
    by (auto simp: record_image_def Let_def h1_def[symmetric] h2_def[symmetric] case_prod_beta)
      (auto simp: h1_def h2_def)
qed

lemma hist_run_wf:
  "hist_wf sha h \<Longrightarrow> unat (next_file h) + length evs < 2 ^ 64 \<Longrightarrow>
     hist_wf sha (foldl (hist_step sha) h evs)"
proof (induction evs arbitrary: h)
  case (Cons e evs)
  have "hist_wf sha (hist_step sha h e) \<and> unat (next_file (hist_step sha h e)) \<le> unat (next_file h) + 1"
  proof (cases e)
    case (Pair ev x)
    with Cons.prems record_text_wf[of sha h ev] record_image_wf[of sha h ev] show ?thesis
      by (cases x) (simp_all add: hist_step_def)
  qed
  with Cons.IH[of "hist_step sha h e"] Cons.prems show ?case by auto
qed simp

section \<open>Properties\<close>

text \<open>
  Whatever is copied, the history never exceeds its configured length and never lists
  the same content twice in a row; with length zero it stays empty.
\<close>

theorem history_is_bounded:
  assumes "length (h_entries h) \<le> h_max h" "distinct_adj (map e_hash (h_entries h))"
  shows "length (h_entries (foldl (hist_step sha) h evs)) \<le> h_max h
    \<and> distinct_adj (map e_hash (h_entries (foldl (hist_step sha) h evs)))"
  using hs.run_keeps[of "h_max h" h sha evs] assms by (simp add: ring_ok_def)

definition ex_hist :: history where
  "ex_hist = \<lparr>h_max = 2, h_entries = [], next_file = 0, h_files = (\<lambda>_. None), h_index = None\<rparr>"

definition ex_hev :: hist_env where
  "ex_hev = \<lparr>he_now = 5, he_dims = None, he_write_ok = True, he_remove_ok = True, he_persist_ok = True\<rparr>"

theorem history_is_bounded_witness:
  "length (h_entries (foldl (hist_step (\<lambda>b. b)) ex_hist
     (map (\<lambda>b. (ex_hev, RecImage [b] ''local'')) [1, 1, 2, 3]))) \<le> 2"
  using history_is_bounded[of ex_hist "\<lambda>b. b" "map (\<lambda>b. (ex_hev, RecImage [b] ''local'')) [1, 1, 2, 3]"]
  by (simp add: ex_hist_def)

text \<open>
  Every entry listed can be restored: after any sequence of copies (fewer than
  \<open>2 ^ 64\<close> of them), fetching an entry returns content whose hash is the one recorded for
  it; eviction never deletes the file of an entry that is still listed, and no file is
  overwritten by a later image.
\<close>

theorem history_entries_restore:
  assumes "hist_wf sha h" "unat (next_file h) + length evs < 2 ^ 64"
    and "h' = foldl (hist_step sha) h evs" "i < length (h_entries h')"
  shows "\<exists>r. history_get i h' = Some r
    \<and> e_hash (h_entries h' ! i) = hex (sha (case r of RestoredText t \<Rightarrow> str_bytes t | RestoredImage b \<Rightarrow> b))"
proof -
  have "backed sha (h_files h') (h_entries h' ! i)"
    using hist_run_wf[OF assms(1,2)] assms(3,4) by (simp add: hist_wf_def)
  with assms(4) show ?thesis
    by (auto simp: history_get_def backed_def split: body.splits option.splits)
qed

theorem history_entries_restore_witness:
  "\<exists>r. history_get 0 (foldl (hist_step (\<lambda>b. b)) ex_hist [(ex_hev, RecImage [7] ''local'')]) = Some r"
proof -
  have "hist_wf (\<lambda>b. b) ex_hist" by (simp add: hist_wf_def ex_hist_def)
  moreover have "unat (next_file ex_hist) + length [(ex_hev, RecImage [7] ''local'')] < 2 ^ 64"
    by (simp add: ex_hist_def)
  moreover have "0 < length (h_entries (foldl (hist_step (\<lambda>b. b)) ex_hist [(ex_hev, RecImage [7] ''local'')]))"
    by (simp add: hist_step_def record_image_def enabled_def ex_hist_def ex_hev_def front_is_def push_entries Let_def)
  ultimately show ?thesis
    using history_entries_restore[OF _ _ refl, of "\<lambda>b. b" ex_hist "[(ex_hev, RecImage [7] ''local'')]" 0]
    by blast
qed

lemma foldl_max_acc: "(a :: u64) \<le> foldl max a ns"
  by (induction ns arbitrary: a) (auto intro: order_trans[OF max.cobounded1])

lemma foldl_max_ge: "x \<in> set (n # ns) \<Longrightarrow> x \<le> foldl max (n :: u64) ns"
proof (induction ns arbitrary: n)
  case (Cons m ns)
  show ?case
  proof (cases "x \<in> set ns")
    case True
    with Cons.IH[of "max n m"] show ?thesis by simp
  next
    case False
    with Cons.prems have "x \<le> max n m" by auto
    also have "\<dots> \<le> foldl max (max n m) ns" by (rule foldl_max_acc)
    finally show ?thesis by simp
  qed
qed simp

lemma foldl_max_mem: "foldl max (n :: u64) ns \<in> set (n # ns)"
proof (induction ns arbitrary: n)
  case (Cons m ns)
  from Cons[of "max n m"] show ?case by (auto simp: max_def split: if_splits)
qed simp

lemma word_less_succ: "(n :: u64) \<le> m \<Longrightarrow> m \<noteq> - 1 \<Longrightarrow> n < m + 1"
proof -
  assume nm: "n \<le> m" "m \<noteq> - 1"
  have "unat m \<noteq> unat (- 1 :: u64)" using nm(2) by (simp only: word_unat_eq_iff[symmetric] simp_thms)
  moreover have "unat (- 1 :: u64) = 2 ^ 64 - 1" by (simp add: unsigned_minus_1_eq_mask mask_eq_exp_minus_1)
  moreover have "unat m < 2 ^ 64" using unsigned_less[of m, where ?'a = nat] by simp
  ultimately have "unat m + 1 < 2 ^ 64" by linarith
  then have "unat (m + 1) = unat m + 1" using unat_add_lem[of m 1] by simp
  with nm(1) show ?thesis by (simp add: word_less_nat_alt word_le_nat_alt)
qed

lemma load_next_file:
  assumes "x \<in> set (take m es)" "png_number x = Some n"
    and "\<forall>y\<in>set (take m es). png_number y \<noteq> Some (- 1)"
  shows "n < next_file (history_load m (Some es) files)"
proof -
  let ?ns = "List.map_filter png_number (take m es)"
  have mem: "n \<in> set ?ns" using assms(1,2) by (force simp: map_filter_def)
  then obtain k ks where ns: "?ns = k # ks" by (cases ?ns) auto
  have "foldl max k ks \<in> set ?ns" using foldl_max_mem ns by metis
  then have "foldl max k ks \<noteq> - 1" using assms(3) by (force simp: map_filter_def)
  moreover have "n \<le> foldl max k ks" using foldl_max_ge mem ns by metis
  ultimately show ?thesis by (simp add: history_load_def ns word_less_succ)
qed

text \<open>
  The history survives a restart: loading the index that the last push wrote gives back
  the same ring, and a file number above that of every image in it, so that the next image
  does not overwrite one of them.
\<close>

theorem history_reload:
  assumes "\<not> front_is (e_hash e) (h_entries h)" "he_persist_ok ev" "h' = push ev e h"
    and "h'' = history_load (h_max h) (h_index h') (h_files h')"
    and "list_all (\<lambda>x. png_number x \<noteq> Some (- 1)) (h_entries h')"
  shows "h_entries h'' = h_entries h'
    \<and> list_all (\<lambda>x. case png_number x of Some n \<Rightarrow> n < next_file h'' | None \<Rightarrow> True) (h_entries h'')"
proof -
  have i: "h_index h' = Some (h_entries h')"
    using assms(1-3) by (simp add: push_def persist_def case_prod_beta)
  have l: "take (h_max h) (h_entries h') = h_entries h'"
    using assms(1,3) by (simp add: push_entries)
  have e: "h_entries h'' = h_entries h'"
    by (simp add: assms(4) i history_load_def l Let_def)
  have "n < next_file h''" if "x \<in> set (h_entries h')" "png_number x = Some n" for x n
    using load_next_file[of x "h_max h" "h_entries h'" n "h_files h'"] that assms(4,5) l i
    by (auto simp: list_all_iff)
  with e show ?thesis by (auto simp: list_all_iff split: option.splits)
qed

theorem history_reload_witness:
  "h_entries (history_load 2 (h_index (push ex_hev \<lparr>e_body = TextBody ''a'', e_when = 1, e_origin = ''local'',
       e_hash = ''h''\<rparr> ex_hist)) (\<lambda>_. None))
   = h_entries (push ex_hev \<lparr>e_body = TextBody ''a'', e_when = 1, e_origin = ''local'', e_hash = ''h''\<rparr> ex_hist)"
proof -
  let ?e = "\<lparr>e_body = TextBody ''a'', e_when = 1, e_origin = ''local'', e_hash = ''h''\<rparr>"
  have x: "h_files (push ex_hev ?e ex_hist) = (\<lambda>_. None)" "h_max ex_hist = 2"
    "\<not> front_is (e_hash ?e) (h_entries ex_hist)" "he_persist_ok ex_hev"
    by (simp_all add: push_def ex_hist_def ex_hev_def evict.simps persist_def front_is_def)
  have "list_all (\<lambda>x. png_number x \<noteq> Some (- 1)) (h_entries (push ex_hev ?e ex_hist))"
    by (simp add: push_entries ex_hist_def front_is_def png_number_def)
  from history_reload[OF x(3,4) refl refl this] show ?thesis by (simp add: x)
qed

end
