(* ===== verification/History_Spec.thy ===== *)
theory History_Spec
  imports History
begin

text \<open>
  The specification of the clipboard history (\<open>crates/qdropd/src/history.rs\<close>) and its
  refinement: seen from outside, the ring, its image files, their numbering, eviction, the
  index on disk and restarts of the daemon are one bounded log of contents.
\<close>

section \<open>Specification\<close>

text \<open>The log is a list of contents, newest first. Contents are compared by digest.\<close>

definition content_bytes :: "restored \<Rightarrow> bytes" where
  "content_bytes r = (case r of RestoredText t \<Rightarrow> str_bytes t | RestoredImage b \<Rightarrow> b)"

definition log_record :: "(bytes \<Rightarrow> bytes) \<Rightarrow> nat \<Rightarrow> restored \<Rightarrow> restored list \<Rightarrow> restored list" where
  "log_record sha m r log =
    (case log of
       x # _ \<Rightarrow> if sha (content_bytes x) = sha (content_bytes r) then log else take m (r # log)
     | [] \<Rightarrow> take m [r])"

text \<open>The life of a history: copies recorded by the sync loop, and restarts of the daemon.\<close>

datatype hist_life = Rec hist_env hist_event | Restart

fun log_step :: "(bytes \<Rightarrow> bytes) \<Rightarrow> nat \<Rightarrow> restored list \<Rightarrow> hist_life \<Rightarrow> restored list" where
  "log_step sha m log (Rec ev (RecText t origin)) =
     (if t = [] then log else log_record sha m (RestoredText t) log)"
| "log_step sha m log (Rec ev (RecImage png origin)) =
     (if he_write_ok ev then log_record sha m (RestoredImage png) log else log)"
| "log_step sha m log Restart = log"

text \<open>
  What the documentation promises: the last \<open>m\<close> distinct contents copied, newest first. (An image
  whose file cannot be written and an empty text are not copied.)
\<close>

fun copied :: "hist_life \<Rightarrow> restored option" where
  "copied (Rec ev (RecText t origin)) = (if t = [] then None else Some (RestoredText t))"
| "copied (Rec ev (RecImage png origin)) = (if he_write_ok ev then Some (RestoredImage png) else None)"
| "copied Restart = None"

definition newest_distinct :: "nat \<Rightarrow> restored list \<Rightarrow> restored list" where
  "newest_distinct m cs = take m (rev (remdups cs))"

text \<open>No copy returns to a content that is still listed, except to the newest one.\<close>

definition no_return :: "nat \<Rightarrow> restored list \<Rightarrow> bool" where
  "no_return m cs \<longleftrightarrow>
     (\<forall>i<length cs. cs ! i \<in> set (newest_distinct m (take i cs)) \<longrightarrow> cs ! i = last (take i cs))"

section \<open>Implementation\<close>

definition life_step :: "(bytes \<Rightarrow> bytes) \<Rightarrow> history \<Rightarrow> hist_life \<Rightarrow> history" where
  "life_step sha h e =
    (case e of
       Rec ev x \<Rightarrow> hist_step sha h (ev, x)
     | Restart \<Rightarrow> history_load (h_max h) (h_index h) (h_files h))"

fun index_written :: "hist_life \<Rightarrow> bool" where
  "index_written (Rec ev x) = he_persist_ok ev"
| "index_written Restart = True"

text \<open>The contents a client can fetch.\<close>

definition content_of :: "(string \<Rightarrow> bytes option) \<Rightarrow> entry \<Rightarrow> restored option" where
  "content_of files e =
    (case e_body e of
       TextBody t \<Rightarrow> Some (RestoredText t)
     | ImageBody f _ _ \<Rightarrow> map_option RestoredImage (files f))"

definition log_of :: "history \<Rightarrow> restored option list" where
  "log_of h = map (content_of (h_files h)) (h_entries h)"

lemma history_get_log: "i < length (h_entries h) \<Longrightarrow> history_get i h = log_of h ! i"
  by (simp add: history_get_def log_of_def content_of_def)

lemma log_of_eq: "log_of h = map (\<lambda>i. history_get i h) [0..<length (h_entries h)]"
  by (rule nth_equalityI) (simp_all add: log_of_def history_get_log[unfolded log_of_def])

text \<open>The index on disk is the ring, and the ring is within its limit.\<close>

definition indexed :: "nat \<Rightarrow> history \<Rightarrow> bool" where
  "indexed m h \<longleftrightarrow>
     h_max h = m \<and> length (h_entries h) \<le> m
     \<and> (case h_index h of Some es \<Rightarrow> es | None \<Rightarrow> []) = h_entries h"

section \<open>Lemmas\<close>

lemma content_bytes_simps [simp]:
  "content_bytes (RestoredText t) = str_bytes t" "content_bytes (RestoredImage b) = b"
  by (simp_all add: content_bytes_def)

lemma content_cong:
  "(\<And>f. f \<in> set (img_files [e]) \<Longrightarrow> files' f = files f) \<Longrightarrow> content_of files' e = content_of files e"
  by (simp add: content_of_def img_files_Cons split: body.splits)

lemma contents_cong:
  assumes "\<forall>f\<in>set (img_files q). files' f = files f"
  shows "map (content_of files') q = map (content_of files) q"
  using assms img_files_mem by (intro map_cong refl content_cong) blast

lemma content_backed:
  "backed sha files e \<Longrightarrow> \<exists>r. content_of files e = Some r \<and> e_hash e = hex (sha (content_bytes r))"
  by (auto simp: backed_def content_of_def split: body.splits option.splits)

text \<open>The comparison with the newest entry, by the printed digest, is the one of the log.\<close>

lemma front_log:
  assumes "hist_wf sha h" "log_of h = map Some log"
  shows "front_is (hex (sha (content_bytes r))) (h_entries h)
    \<longleftrightarrow> (case log of x # _ \<Rightarrow> sha (content_bytes x) = sha (content_bytes r) | [] \<Rightarrow> False)"
proof (cases "h_entries h")
  case Nil
  with assms(2) show ?thesis by (simp add: front_is_def log_of_def)
next
  case (Cons e es)
  then have "backed sha (h_files h) e" using assms(1) by (simp add: hist_wf_def)
  from content_backed[OF this] Cons assms(2) show ?thesis
    by (auto simp: front_is_def log_of_def hex_inject split: list.splits)
qed

lemma push_log:
  assumes "distinct (img_files (e # h_entries h))" "content_of (h_files h) e = Some r"
    and log: "log_of h = map Some log"
    and front: "front_is (e_hash e) (h_entries h)
      \<longleftrightarrow> (case log of x # _ \<Rightarrow> sha (content_bytes x) = sha (content_bytes r) | [] \<Rightarrow> False)"
  shows "log_of (push ev e h) = map Some (log_record sha (h_max h) r log)"
proof (cases "front_is (e_hash e) (h_entries h)")
  case True
  with log front show ?thesis by (simp add: push_def log_record_def split: list.splits)
next
  case False
  obtain q files where ev: "evict (he_remove_ok ev) (h_max h) (e # h_entries h) (h_files h) = (q, files)"
    by fastforce
  have "q = take (h_max h) (e # h_entries h)" and "\<forall>f\<in>set (img_files q). files f = h_files h f"
    using evict_take[OF assms(1), of "he_remove_ok ev" "h_max h" "h_files h"] ev by auto
  then have "map (content_of files) q = take (h_max h) (map (content_of (h_files h)) (e # h_entries h))"
    using contents_cong by (metis take_map)
  also have "\<dots> = map Some (take (h_max h) (r # log))"
    unfolding take_map[symmetric] using assms(2) log by (simp add: log_of_def)
  finally have "log_of (push ev e h) = map Some (take (h_max h) (r # log))"
    using False by (simp add: push_def ev persist_def log_of_def)
  with False front show ?thesis by (simp add: log_record_def split: list.splits)
qed

lemma push_indexed: "he_persist_ok ev \<Longrightarrow> indexed m h \<Longrightarrow> indexed m (push ev e h)"
  by (auto simp: indexed_def push_def persist_def case_prod_beta evict_fst split: option.splits)

lemma record_text_log:
  assumes "hist_wf sha h" "indexed m h" "log_of h = map Some log" "he_persist_ok ev" "m > 0" "t \<noteq> []"
  shows "indexed m (record_text sha ev t origin h)
    \<and> log_of (record_text sha ev t origin h) = map Some (log_record sha m (RestoredText t) log)"
proof -
  let ?e = "\<lparr>e_body = TextBody t, e_when = he_now ev, e_origin = origin, e_hash = hex (sha (str_bytes t))\<rparr>"
  have m: "h_max h = m" using assms(2) by (simp add: indexed_def)
  have "record_text sha ev t origin h = push ev ?e h"
    using assms(5,6) m by (simp add: record_text_def enabled_def)
  moreover have "log_of (push ev ?e h) = map Some (log_record sha m (RestoredText t) log)"
    using assms(1) front_log[OF assms(1,3), of "RestoredText t"] unfolding m[symmetric]
    by (intro push_log assms(3)) (simp_all add: img_files_Cons hist_wf_def content_of_def)
  ultimately show ?thesis using push_indexed[OF assms(4,2)] by simp
qed

lemma record_image_log:
  assumes "hist_wf sha h" "indexed m h" "log_of h = map Some log" "he_persist_ok ev" "m > 0"
  shows "indexed m (record_image sha ev png origin h)
    \<and> log_of (record_image sha ev png origin h)
        = map Some (if he_write_ok ev then log_record sha m (RestoredImage png) log else log)"
proof -
  have m: "h_max h = m" using assms(2) by (simp add: indexed_def)
  note front = front_log[OF assms(1,3), of "RestoredImage png", unfolded content_bytes_simps]
  let ?f = "png_name (next_file h)"
  let ?h = "h\<lparr>next_file := next_file h + 1, h_files := (h_files h)(?f \<mapsto> png)\<rparr>"
  have fresh: "?f \<notin> set (img_files (h_entries h))"
    using assms(1) by (auto simp: hist_wf_def png_name_def)
  have log: "log_of ?h = map Some log"
    using contents_cong[of "h_entries h" "(h_files h)(?f \<mapsto> png)" "h_files h"] fresh assms(3)
    by (metis (no_types, lifting) fun_upd_other history.ext_inject history.surjective history.update_convs(3,4) log_of_def)
  have ix: "indexed m ?h" "indexed m (h\<lparr>next_file := next_file h + 1\<rparr>)"
    using assms(2) by (simp_all add: indexed_def)
  have push: "log_of (push ev \<lparr>e_body = ImageBody ?f w ht, e_when = t, e_origin = origin, e_hash = hex (sha png)\<rparr> ?h)
      = map Some (log_record sha m (RestoredImage png) log)" for w ht t
  proof -
    have "log_of (push ev \<lparr>e_body = ImageBody ?f w ht, e_when = t, e_origin = origin, e_hash = hex (sha png)\<rparr> ?h)
      = map Some (log_record sha (h_max ?h) (RestoredImage png) log)"
      using assms(1) fresh front
      by (intro push_log log) (simp_all add: img_files_Cons hist_wf_def content_of_def cong: list.case_cong)
    then show ?thesis by (simp add: m)
  qed
  show ?thesis
  proof (cases "front_is (hex (sha png)) (h_entries h)")
    case True
    with assms(2,3) front show ?thesis
      by (auto simp: record_image_def log_record_def split: list.splits)
  next
    case False
    then show ?thesis
      using assms(3,5) m push push_indexed[OF assms(4) ix(1)] ix(2)
      by (simp add: record_image_def enabled_def Let_def case_prod_beta) (simp add: log_of_def)
  qed
qed

text \<open>Restarting: the files of the ring are numbered below the counter computed from them.\<close>

lemma png_number_name:
  "n < 2 ^ 64 \<Longrightarrow> e_body e = ImageBody (dec_str n @ ''.png'') w ht \<Longrightarrow> png_number e = Some (of_nat n)"
  by (simp add: png_number_def strip_suffix_def parse_uint_dec_str)

lemma ring_numbers:
  assumes "hist_wf sha h" "e \<in> set (h_entries h)" "e_body e = ImageBody f w ht"
  shows "\<exists>n<unat (next_file h). f = dec_str n @ ''.png'' \<and> png_number e = Some (of_nat n)"
proof -
  have "f \<in> set (img_files (h_entries h))"
    using img_files_mem[OF assms(2)] assms(3) by (simp add: img_files_Cons)
  then obtain n where n: "n < unat (next_file h)" "f = dec_str n @ ''.png''"
    using assms(1) by (auto simp: hist_wf_def)
  moreover have "n < 2 ^ 64" using n(1) unsigned_less[of "next_file h", where ?'a = nat] by simp
  ultimately show ?thesis using png_number_name assms(3) by blast
qed

lemma ring_numbers_below:
  assumes "hist_wf sha h" "e \<in> set (h_entries h)" "png_number e = Some k"
  shows "unat k < unat (next_file h)"
proof -
  have "\<exists>f w ht. e_body e = ImageBody f w ht"
    using assms(3) by (simp add: png_number_def split: body.splits)
  with ring_numbers[OF assms(1,2)] assms(3) obtain n where "n < unat (next_file h)" "k = of_nat n" by auto
  moreover have "unat (of_nat n :: u64) \<le> n" by (simp add: unat_of_nat)
  ultimately show ?thesis by simp
qed

lemma restart_log:
  assumes "hist_wf sha h" "indexed m h"
  defines "h' \<equiv> history_load (h_max h) (h_index h) (h_files h)"
  shows "hist_wf sha h'" "indexed m h'" "log_of h' = log_of h" "unat (next_file h') \<le> unat (next_file h)"
proof -
  have es: "h_entries h' = h_entries h" and fl: "h_files h' = h_files h"
    using assms(2) by (auto simp: h'_def history_load_def indexed_def Let_def split: option.splits)
  have "h_max h' = h_max h" "h_index h' = h_index h" by (simp_all add: h'_def history_load_def Let_def)
  with assms(2) es show "indexed m h'" by (simp add: indexed_def)
  show "log_of h' = log_of h" by (simp add: log_of_def es fl)
  let ?ns = "List.map_filter png_number (h_entries h)"
  have "unat (next_file h') \<le> unat (next_file h)"
  proof (cases ?ns)
    case Nil
    then show ?thesis using es by (simp add: h'_def history_load_def Let_def)
  next
    case (Cons k ks)
    have "foldl max k ks \<in> set ?ns" using foldl_max_mem Cons by metis
    then have "unat (foldl max k ks) < unat (next_file h)" using ring_numbers_below[OF assms(1)] by (auto simp: map_filter_def)
    moreover have "unat (foldl max k ks + 1) \<le> unat (foldl max k ks) + 1"
      by (simp add: unat_word_ariths)
    ultimately have "unat (foldl max k ks + 1) \<le> unat (next_file h)" by linarith
    then show ?thesis using es Cons by (simp add: h'_def history_load_def Let_def)
  qed
  then show "unat (next_file h') \<le> unat (next_file h)" .
  have "\<exists>n<unat (next_file h'). f = dec_str n @ ''.png''" if f: "f \<in> set (img_files (h_entries h))" for f
  proof -
    obtain e w ht where e: "e \<in> set (h_entries h)" "e_body e = ImageBody f w ht"
      using f by (auto simp: img_files_def map_filter_def split: body.splits)
    from ring_numbers[OF assms(1) this] obtain n where n: "n < unat (next_file h)" "f = dec_str n @ ''.png''" "png_number e = Some (of_nat n)"
      by blast
    have max: "png_number x \<noteq> Some (- 1)" if "x \<in> set (h_entries h)" for x
      using ring_numbers_below[OF assms(1) that] word_le_nat_alt word_order.extremum linorder_not_less by blast
    have e': "e \<in> set (take (h_max h) (h_entries h))" using e(1) assms(2) by (simp add: indexed_def)
    have h': "history_load (h_max h) (Some (h_entries h)) (h_files h) = h'\<lparr>h_index := Some (h_entries h)\<rparr>"
      using assms(2) by (auto simp: h'_def history_load_def indexed_def Let_def split: option.splits)
    have "of_nat n < next_file h'"
      using load_next_file[OF e' n(3), of "h_files h"] max unfolding h' by (auto dest: in_set_takeD)
    moreover have "n < 2 ^ 64" using n(1) unsigned_less[of "next_file h", where ?'a = nat] by simp
    ultimately have "n < unat (next_file h')" by (simp add: word_less_nat_alt unat_of_nat)
    with n(2) show ?thesis by blast
  qed
  with assms(1) show "hist_wf sha h'" by (simp add: hist_wf_def es fl)
qed

lemma life_step_log:
  assumes "hist_wf sha h" "indexed m h" "log_of h = map Some log" "index_written e"
    and "unat (next_file h) + 1 < 2 ^ 64" "m > 0"
  shows "hist_wf sha (life_step sha h e) \<and> indexed m (life_step sha h e)
    \<and> log_of (life_step sha h e) = map Some (log_step sha m log e)
    \<and> unat (next_file (life_step sha h e)) \<le> unat (next_file h) + 1"
proof (cases e)
  case Restart
  then show ?thesis using restart_log[OF assms(1,2)] assms(3) by (simp add: life_step_def)
next
  case (Rec ev x)
  show ?thesis
  proof (cases x)
    case (RecText t origin)
    then show ?thesis
      using Rec assms record_text_wf[OF assms(1), of ev t origin] record_text_log[OF assms(1-3), of ev t origin]
      by (cases "t = []") (simp_all add: life_step_def hist_step_def record_text_def)
  next
    case (RecImage png origin)
    then show ?thesis
      using Rec assms record_image_wf[OF assms(1,5), of ev png origin] record_image_log[OF assms(1-3), of ev png origin]
      by (simp add: life_step_def hist_step_def)
  qed
qed

lemma life_run_log:
  assumes "hist_wf sha h" "indexed m h" "log_of h = map Some log" "list_all index_written evs"
    and "unat (next_file h) + length evs < 2 ^ 64" "m > 0"
  shows "log_of (foldl (life_step sha) h evs) = map Some (foldl (log_step sha m) log evs)"
  using assms
proof (induction evs arbitrary: h log)
  case (Cons e evs)
  then have "unat (next_file h) + 1 < 2 ^ 64" by simp
  with life_step_log[OF Cons.prems(1-3), of e] Cons.prems show ?case
    by (simp add: Cons.IH)
qed simp

text \<open>With length zero nothing is ever recorded.\<close>

lemma disabled_run:
  "h_max h = 0 \<Longrightarrow> h_entries h = [] \<Longrightarrow> h_entries (foldl (life_step sha) h evs) = []"
proof (induction evs arbitrary: h)
  case (Cons e evs)
  have "h_max (life_step sha h e) = 0 \<and> h_entries (life_step sha h e) = []"
    using Cons.prems
    by (auto simp: life_step_def hist_step_def record_text_def record_image_def enabled_def history_load_def Let_def
        split: hist_life.splits hist_event.splits)
  with Cons.IH show ?case by simp
qed simp

lemma disabled_log: "foldl (log_step sha 0) [] evs = []"
proof (induction evs)
  case (Cons e evs)
  have "log_step sha 0 [] e = []" by (cases "(sha, 0::nat, [] :: restored list, e)" rule: log_step.cases) (simp_all add: log_record_def)
  with Cons show ?case by simp
qed simp

text \<open>The log of a run is that of its copies, and without returns it is what the documentation says.\<close>

lemma log_of_copies:
  "foldl (log_step sha m) log evs = foldl (\<lambda>log r. log_record sha m r log) log (List.map_filter copied evs)"
proof (induction evs arbitrary: log)
  case (Cons e evs)
  then show ?case
    by (cases "(sha, m, log, e)" rule: log_step.cases) (simp_all add: map_filter_simps)
qed (simp add: map_filter_simps)

lemma remdups_snoc: "remdups (xs @ [x]) = removeAll x (remdups xs) @ [x]"
  by (induction xs) auto

lemma take_removeAll: "distinct xs \<Longrightarrow> take n (removeAll x xs) = take n (removeAll x (take (Suc n) xs))"
proof (induction xs arbitrary: n)
  case (Cons y xs)
  show ?case
  proof (cases "x = y")
    case True
    with Cons.prems have "x \<notin> set xs" "x \<notin> set (take n xs)" by (auto dest: in_set_takeD)
    then have "removeAll x xs = xs" "removeAll x (take n xs) = take n xs" by (simp_all add: removeAll_id)
    with True show ?thesis by simp
  next
    case False
    with Cons.IH[of "n - 1"] Cons.prems show ?thesis by (cases n) simp_all
  qed
qed simp

lemma newest_distinct_snoc:
  "newest_distinct m (cs @ [r]) = take m (r # removeAll r (newest_distinct m cs))"
  unfolding newest_distinct_def remdups_snoc
  using take_removeAll[of "rev (remdups cs)" "m - 1" r] by (cases m) (simp_all add: rev_filter[symmetric] removeAll_filter_not_eq)

lemma newest_distinct_Cons:
  assumes "newest_distinct m cs = x # xs"
  shows "x = last cs" "x \<in> set cs"
proof -
  have "cs \<noteq> []" "m > 0" using assms by (cases m; auto simp: newest_distinct_def)+
  then have "cs = butlast cs @ [last cs]" by simp
  then have "newest_distinct m cs = take m (last cs # removeAll (last cs) (newest_distinct m (butlast cs)))"
    using newest_distinct_snoc[of m "butlast cs" "last cs"] by simp
  with assms \<open>m > 0\<close> show "x = last cs" by (cases m) simp_all
  with \<open>cs \<noteq> []\<close> show "x \<in> set cs" by simp
qed

lemma documented_log:
  assumes "inj_on (\<lambda>r. sha (content_bytes r)) (set cs)" "no_return m cs"
  shows "foldl (\<lambda>log r. log_record sha m r log) [] cs = newest_distinct m cs"
  using assms
proof (induction cs rule: rev_induct)
  case (snoc r cs)
  have nr: "r \<in> set (newest_distinct m cs) \<longrightarrow> r = last cs" and "no_return m cs"
    using snoc.prems(2) unfolding no_return_def by (force simp: nth_append)+
  with snoc have "foldl (\<lambda>log r. log_record sha m r log) [] (cs @ [r]) = log_record sha m r (newest_distinct m cs)"
    by (simp add: inj_on_def)
  also have "\<dots> = take m (r # removeAll r (newest_distinct m cs))"
  proof (cases "newest_distinct m cs")
    case (Cons x xs)
    have d: "distinct (x # xs)" "take m (x # xs) = x # xs" unfolding Cons[symmetric] by (simp_all add: newest_distinct_def)
    have x: "x = last cs" "x \<in> set cs" using newest_distinct_Cons[OF Cons] by auto
    then have "sha (content_bytes x) = sha (content_bytes r) \<longleftrightarrow> x = r"
      using snoc.prems(1) unfolding inj_on_def by auto
    then show ?thesis using d nr x unfolding Cons log_record_def by (auto simp: removeAll_id)
  qed (simp add: log_record_def)
  finally show ?case by (simp add: newest_distinct_snoc)
qed (simp add: newest_distinct_def)

lemma history_run_log:
  assumes "list_all index_written evs" "length evs < 2 ^ 64"
    and "h = foldl (life_step sha) (history_load m None files) evs"
  shows "map (\<lambda>i. history_get i h) [0..<length (h_entries h)] = map Some (foldl (log_step sha m) [] evs)"
proof (cases "m = 0")
  case True
  then show ?thesis
    using disabled_run[of "history_load m None files" sha evs] assms(3)
    by (simp add: disabled_log history_load_def)
next
  case False
  let ?h0 = "history_load m None files"
  have "hist_wf sha ?h0" "indexed m ?h0" "log_of ?h0 = map Some []" "unat (next_file ?h0) = 0"
    by (simp_all add: history_load_def hist_wf_def indexed_def log_of_def map_filter_def)
  with life_run_log[of sha ?h0 m "[]" evs] False assms show ?thesis by (simp add: log_of_eq)
qed

section \<open>Properties\<close>

text \<open>
  C9. The history is the documented log: whatever is copied and however often the daemon restarts in
  between (fewer than \<open>2 ^ 64\<close> events, each index write succeeding, image writes and the
  removal of evicted files failing or not), fetching the listed entries one after the other
  returns exactly the last \<open>m\<close> distinct contents that were copied, newest first; no entry's image
  is ever missing, overwritten by a later one or lost by a restart. This holds for the runs in
  which different contents have different digests, and no copy returns to a content that is still
  listed unless it is the newest: only the newest entry is compared, so an older one would be
  listed twice (\<open>older_repeat_is_listed_twice\<close>).
\<close>

theorem history_refines_a_log:
  assumes "list_all index_written evs" "length evs < 2 ^ 64"
    and "cs = List.map_filter copied evs" "inj_on (\<lambda>r. sha (content_bytes r)) (set cs)" "no_return m cs"
    and "h = foldl (life_step sha) (history_load m None files) evs"
  shows "map (\<lambda>i. history_get i h) [0..<length (h_entries h)] = map Some (newest_distinct m cs)"
  using history_run_log[OF assms(1,2,6)] documented_log[OF assms(4,5)] by (simp add: log_of_copies assms(3))

definition ex_life :: "hist_life list" where
  "ex_life = [Rec ex_hev (RecImage [1] ''local''), Rec ex_hev (RecText ''a'' ''local''), Restart,
     Rec ex_hev (RecText ''a'' ''local''), Rec ex_hev (RecImage [2] ''local''), Restart, Rec ex_hev (RecImage [3] ''local''),
     Rec ex_hev (RecText ''a'' ''local'')]"

theorem history_refines_a_log_witness:
  "map (\<lambda>i. history_get i (foldl (life_step (\<lambda>b. b)) (history_load 2 None (\<lambda>_. None)) ex_life)) [0..<2]
   = [Some (RestoredText ''a''), Some (RestoredImage [3])]"
proof -
  let ?h = "foldl (life_step (\<lambda>b. b)) (history_load 2 None (\<lambda>_. None)) ex_life"
  let ?cs = "List.map_filter copied ex_life"
  have cs: "?cs = [RestoredImage [1], RestoredText ''a'', RestoredText ''a'', RestoredImage [2], RestoredImage [3], RestoredText ''a'']"
    by (simp add: ex_life_def ex_hev_def map_filter_simps)
  have a: "list_all index_written ex_life" "length ex_life < 2 ^ 64" by (simp_all add: ex_life_def ex_hev_def)
  have b: "inj_on (\<lambda>r. content_bytes r) (set ?cs)" by (auto simp: cs str_bytes_def inj_on_def)
  have c: "no_return 2 ?cs" unfolding cs by (simp add: no_return_def newest_distinct_def All_less_Suc)
  from history_refines_a_log[OF a refl b c refl, of "\<lambda>_. None"]
  have m: "map (\<lambda>i. history_get i ?h) [0..<length (h_entries ?h)] = [Some (RestoredText ''a''), Some (RestoredImage [3])]"
    by (simp add: cs newest_distinct_def)
  then have "length (map (\<lambda>i. history_get i ?h) [0..<length (h_entries ?h)]) = 2" by simp
  then have "length (h_entries ?h) = 2" by simp
  with m show ?thesis by simp
qed

text \<open>
  Copies of A, B and A again are three entries of a history of three, of which the documentation
  would list two.
\<close>

theorem older_repeat_is_listed_twice:
  assumes "evs = [Rec ev (RecText a o1), Rec ev (RecText b o2), Rec ev (RecText a o3)]" "he_persist_ok ev" "a \<noteq> []" "b \<noteq> []"
    and "sha (str_bytes a) \<noteq> sha (str_bytes b)" "h = foldl (life_step sha) (history_load 3 None files) evs"
  shows "map (\<lambda>i. history_get i h) [0..<length (h_entries h)] = map (Some \<circ> RestoredText) [a, b, a]
    \<and> newest_distinct 3 (List.map_filter copied evs) = map RestoredText [a, b]"
proof -
  have "list_all index_written evs" "length evs < 2 ^ 64" using assms(1,2) by simp_all
  from history_run_log[OF this assms(6)] assms(1,3,4,5) show ?thesis
    by (auto simp: log_record_def newest_distinct_def map_filter_simps)
qed

end
