(* ===== verification/Clipboard.thy ===== *)
theory Clipboard
  imports History
begin

text \<open>
  \<open>crates/qdropd/src/clipboard.rs\<close>: the thread that owns the system clipboard. The
  clipboard itself (\<open>arboard\<close>) is outside: what a snapshot shows is an argument of each
  turn of the loop, and the writes the thread makes are recorded. What the two platforms show
  the thread is in \<open>Clip_Backend\<close>.
\<close>

section \<open>State\<close>

datatype local_clip = LocalText string | LocalImage bytes

datatype clip_command = ApplyText string | ApplyImage bytes | GetText

record snapshot =
  sn_token :: u64
  sn_concealed :: bool
  sn_text :: "string option"
  sn_image :: "bytes option"

record clip_thread =
  last_token :: "u64 option"
  suppress :: "bytes option"
  writes :: "clip_command list"

section \<open>Operations\<close>

text \<open>
  The contents of the clipboard as the library reports them, and the token: the first
  eight bytes of the hash of the tagged contents, little endian.
\<close>

definition snapshot_of ::
  "(bytes \<Rightarrow> bytes) \<Rightarrow> bool \<Rightarrow> string option \<Rightarrow> bytes option \<Rightarrow> bool \<Rightarrow> snapshot" where
  "snapshot_of sha with_images board_text board_png hidden =
    (let text = (case board_text of Some t \<Rightarrow> if t \<noteq> [] then Some t else None | None \<Rightarrow> None);
         image = (if with_images then board_png else None);
         h = (case text of Some t \<Rightarrow> str_bytes ''t'' @ str_bytes t | None \<Rightarrow> [])
             @ (case image of Some p \<Rightarrow> str_bytes ''i'' @ p | None \<Rightarrow> [])
     in \<lparr>sn_token = of_nat (be_val (rev (take 8 (sha h)))), sn_concealed = hidden,
         sn_text = text, sn_image = image\<rparr>)"

text \<open>
  Whether the offered MIME types hint at a password manager: what running \<open>wl-paste\<close> gives
  (its success and its output), or \<open>None\<close> when it cannot be run. \<open>lower\<close> is the lossy
  decoding followed by Unicode's lower case.
\<close>

definition linux_looks_concealed :: "(bytes \<Rightarrow> string) \<Rightarrow> (bool \<times> bytes) option \<Rightarrow> bool" where
  "linux_looks_concealed lower out =
    (case out of
       Some (True, stdout) \<Rightarrow>
         let types = lower stdout
         in sublist ''x-kde-passwordmanagerhint'' types \<or> sublist ''password'' types \<or> sublist ''concealed'' types
     | _ \<Rightarrow> False)"

text \<open>The thread starts with the token of what is already there.\<close>

definition clip_start :: "snapshot option \<Rightarrow> clip_thread" where
  "clip_start snap = \<lparr>last_token = map_option sn_token snap, suppress = None, writes = []\<rparr>"

text \<open>A command; \<open>snap\<close> is the snapshot taken after it. The reply is for \<open>GetText\<close>.\<close>

fun clip_command_step ::
  "(bytes \<Rightarrow> bytes) \<Rightarrow> snapshot option \<Rightarrow> clip_command \<Rightarrow> clip_thread \<Rightarrow> string option \<times> clip_thread" where
  "clip_command_step sha snap (ApplyText t) st =
     (None, st\<lparr>suppress := Some (sha (str_bytes t)), writes := writes st @ [ApplyText t],
               last_token := map_option sn_token snap\<rparr>)"
| "clip_command_step sha snap (ApplyImage b) st =
     (None, st\<lparr>suppress := Some (sha b), writes := writes st @ [ApplyImage b],
               last_token := map_option sn_token snap\<rparr>)"
| "clip_command_step sha snap GetText st =
     (case Option.bind snap sn_text of
        Some t \<Rightarrow> if t \<noteq> [] then (Some t, st) else (None, st)
      | None \<Rightarrow> (None, st))"

definition clip_hash :: "(bytes \<Rightarrow> bytes) \<Rightarrow> local_clip \<Rightarrow> bytes" where
  "clip_hash sha c = (case c of LocalText t \<Rightarrow> sha (str_bytes t) | LocalImage b \<Rightarrow> sha b)"

text \<open>A poll of the clipboard; the result is the change passed on to the sync loop.\<close>

definition clip_poll ::
  "(bytes \<Rightarrow> bytes) \<Rightarrow> snapshot option \<Rightarrow> clip_thread \<Rightarrow> local_clip option \<times> clip_thread" where
  "clip_poll sha snap st =
    (case snap of
       None \<Rightarrow> (None, st)
     | Some s \<Rightarrow>
         if Some (sn_token s) = last_token st then (None, st)
         else (let st = st\<lparr>last_token := Some (sn_token s)\<rparr> in
           if sn_concealed s then (None, st)
           else (case (case sn_image s of
                         Some png \<Rightarrow> Some (LocalImage png)
                       | None \<Rightarrow> map_option LocalText (sn_text s)) of
              None \<Rightarrow> (None, st)
            | Some c \<Rightarrow>
                if Some (clip_hash sha c) = suppress st then (None, st\<lparr>suppress := None\<rparr>)
                else (Some c, st))))"

text \<open>The turns of the loop: a poll or a command, each with the snapshot it sees.\<close>

datatype clip_turn = Poll "snapshot option" | Command "snapshot option" clip_command

definition clip_turn_step ::
  "(bytes \<Rightarrow> bytes) \<Rightarrow> clip_turn \<Rightarrow> clip_thread \<Rightarrow> local_clip option \<times> clip_thread" where
  "clip_turn_step sha t st =
    (case t of Poll s \<Rightarrow> clip_poll sha s st
             | Command s c \<Rightarrow> (None, snd (clip_command_step sha s c st)))"

fun clip_run :: "(bytes \<Rightarrow> bytes) \<Rightarrow> clip_turn list \<Rightarrow> clip_thread \<Rightarrow> local_clip list \<times> clip_thread" where
  "clip_run sha [] st = ([], st)"
| "clip_run sha (t # ts) st =
     (case clip_turn_step sha t st of
        (c, st) \<Rightarrow> (case clip_run sha ts st of
           (cs, st) \<Rightarrow> ((case c of Some x \<Rightarrow> [x] | None \<Rightarrow> []) @ cs, st)))"

section \<open>Properties\<close>

text \<open>What a snapshot shows of a local change.\<close>

definition shows_clip :: "snapshot \<Rightarrow> local_clip \<Rightarrow> bool" where
  "shows_clip s c \<longleftrightarrow>
     (case c of LocalImage b \<Rightarrow> sn_image s = Some b | LocalText t \<Rightarrow> sn_image s = None \<and> sn_text s = Some t)"

lemma clip_poll_Some:
  "clip_poll sha snap st = (Some c, st') \<Longrightarrow>
     \<exists>s. snap = Some s \<and> \<not> sn_concealed s \<and> shows_clip s c \<and> Some (sn_token s) \<noteq> last_token st
       \<and> Some (clip_hash sha c) \<noteq> suppress st"
  by (auto simp: clip_poll_def shows_clip_def Let_def split: option.splits if_splits)

lemma clip_run_from_poll:
  "c \<in> set (fst (clip_run sha ts st)) \<Longrightarrow> \<exists>s. Poll (Some s) \<in> set ts \<and> \<not> sn_concealed s \<and> shows_clip s c"
proof (induction ts arbitrary: st)
  case (Cons t ts)
  obtain x st1 where x: "clip_turn_step sha t st = (x, st1)" by fastforce
  show ?case
  proof (cases "c \<in> set (fst (clip_run sha ts st1))")
    case True
    with Cons.IH show ?thesis by fastforce
  next
    case False
    with Cons.prems x have "x = Some c" by (auto simp: case_prod_beta split: option.splits)
    with x show ?thesis
      by (auto simp: clip_turn_step_def dest!: clip_poll_Some split: clip_turn.splits)
  qed
qed simp

text \<open>
  Only what the user copied openly leaves the clipboard thread: every change it passes
  on, over any run, was shown by a poll whose snapshot was not marked concealed, and an
  item marked so is never passed on.
\<close>

theorem concealed_items_never_leave:
  assumes "c \<in> set (fst (clip_run sha ts st))"
  shows "list_ex (\<lambda>t. case t of Poll (Some s) \<Rightarrow> \<not> sn_concealed s \<and> shows_clip s c | _ \<Rightarrow> False) ts"
  using clip_run_from_poll[OF assms] by (force simp: list_ex_iff)

theorem concealed_items_never_leave_witness:
  "fst (clip_run (\<lambda>b. b) [Poll (Some (snapshot_of (\<lambda>b. b) True (Some ''x'') None False))] (clip_start None))
     = [LocalText ''x'']
   \<and> list_ex (\<lambda>t. case t of Poll (Some s) \<Rightarrow> \<not> sn_concealed s \<and> shows_clip s (LocalText ''x'') | _ \<Rightarrow> False)
     [Poll (Some (snapshot_of (\<lambda>b. b) True (Some ''x'') None False))]"
proof -
  have e: "fst (clip_run (\<lambda>b. b) [Poll (Some (snapshot_of (\<lambda>b. b) True (Some ''x'') None False))] (clip_start None))
     = [LocalText ''x'']"
    by (simp add: clip_turn_step_def clip_poll_def snapshot_of_def clip_start_def Let_def)
  then show ?thesis
    using concealed_items_never_leave[of "LocalText ''x''" "\<lambda>b. b"
        "[Poll (Some (snapshot_of (\<lambda>b. b) True (Some ''x'') None False))]" "clip_start None"] by simp
qed

text \<open>
  Content written by the daemon is not taken for a local copy: whether the snapshot
  after the write already shows it or only a later poll does, the next poll that shows it
  passes nothing on.
\<close>

theorem own_write_is_not_echoed:
  assumes "shows_clip s c"
    and "st' = snd (clip_command_step sha after
           (case c of LocalText t \<Rightarrow> ApplyText t | LocalImage b \<Rightarrow> ApplyImage b) st)"
  shows "fst (clip_poll sha (Some s) st') = None"
  using assms
  by (cases c) (auto simp: clip_poll_def shows_clip_def clip_hash_def Let_def)

theorem own_write_is_not_echoed_witness:
  "fst (clip_poll (\<lambda>b. b) (Some (snapshot_of (\<lambda>b. b) True (Some ''x'') None False))
     (snd (clip_command_step (\<lambda>b. b) None (ApplyText ''x'') (clip_start None)))) = None"
  using own_write_is_not_echoed[of "snapshot_of (\<lambda>b. b) True (Some ''x'') None False" "LocalText ''x''"
      _ "\<lambda>b. b" None "clip_start None"]
  by (simp add: shows_clip_def snapshot_of_def Let_def)

text \<open>
  The echo guard outlives the echo: when the snapshot after a write already shows the
  content, no poll consumes the guard, and when the user copies something else and then the
  same content again, that last copy is swallowed.
\<close>

theorem stale_guard_swallows_a_copy:
  assumes "shows_clip sa (LocalText a)" "shows_clip sb (LocalText b)" "sn_token sa \<noteq> sn_token sb"
    and "\<not> sn_concealed sa" "\<not> sn_concealed sb" "sha (str_bytes a) \<noteq> sha (str_bytes b)"
  shows "fst (clip_run sha [Command (Some sa) (ApplyText a), Poll (Some sa), Poll (Some sb), Poll (Some sa)] st)
    = [LocalText b]"
  using assms by (auto simp: clip_turn_step_def clip_poll_def shows_clip_def clip_hash_def Let_def)

theorem stale_guard_swallows_a_copy_witness:
  "fst (clip_run (\<lambda>b. b) [Command (Some (snapshot_of (\<lambda>b. b) False (Some ''a'') None False)) (ApplyText ''a''),
      Poll (Some (snapshot_of (\<lambda>b. b) False (Some ''a'') None False)),
      Poll (Some (snapshot_of (\<lambda>b. b) False (Some ''b'') None False)),
      Poll (Some (snapshot_of (\<lambda>b. b) False (Some ''a'') None False))] (clip_start None)) = [LocalText ''b'']"
  by (rule stale_guard_swallows_a_copy)
    (simp_all add: shows_clip_def snapshot_of_def Let_def be_val_def str_bytes_def)

text \<open>
  Text set through the control socket (\<open>qdrop copy\<close>) stays on this machine: the
  clipboard thread takes it for content it received, so however often it polls while the
  text is on the clipboard, nothing is passed on to be broadcast.
\<close>

theorem control_copy_is_not_broadcast:
  assumes "shows_clip s (LocalText t)"
  shows "fst (clip_run sha (Command (Some s) (ApplyText t) # replicate n (Poll (Some s))) st) = []"
proof -
  have "fst (clip_run sha (replicate n (Poll (Some s))) st') = []"
    if "last_token st' = Some (sn_token s)" for st'
    using that by (induction n) (auto simp: clip_turn_step_def clip_poll_def case_prod_beta)
  then show ?thesis by (simp add: clip_turn_step_def case_prod_beta)
qed

theorem control_copy_is_not_broadcast_witness:
  "fst (clip_run (\<lambda>b. b) (Command (Some (snapshot_of (\<lambda>b. b) False (Some ''a'') None False)) (ApplyText ''a'')
      # replicate 9 (Poll (Some (snapshot_of (\<lambda>b. b) False (Some ''a'') None False)))) (clip_start None)) = []"
  by (rule control_copy_is_not_broadcast) (simp add: shows_clip_def snapshot_of_def Let_def)

end
