(* ===== verification/Clip_Backend.thy ===== *)
theory Clip_Backend
  imports Clipboard
begin

text \<open>
  \<open>crates/qdropd/src/clipboard.rs\<close>, the platforms: what a snapshot reads from the Linux
  clipboard and from the macOS pasteboard, the writes, the handle other tasks hold, and the
  thread's loop over what the platform shows it. \<open>arboard\<close>, the pasteboard and the image
  library are outside: what they report is part of the board a turn looks at, decoding and
  encoding of images are parameters.
\<close>

section \<open>The platforms\<close>

text \<open>The image library; \<open>'i\<close> is a decoded image.\<close>

record 'i img_lib =
  load_from_memory :: "bytes \<Rightarrow> 'i option"
  load_tiff :: "bytes \<Rightarrow> 'i option"
  to_rgba8 :: "'i \<Rightarrow> u32 \<times> u32 \<times> bytes"
  from_raw :: "u32 \<Rightarrow> u32 \<Rightarrow> bytes \<Rightarrow> 'i option"
  write_png :: "'i \<Rightarrow> bytes option"

text \<open>What \<open>arboard\<close> and \<open>wl-paste\<close> report: text, a raw image, and the output of the helper.\<close>

record linux_board =
  lb_text :: "string option"
  lb_image :: "(nat \<times> nat \<times> bytes) option"
  lb_types :: "(bool \<times> bytes) option"

text \<open>The pasteboard: its change count, the types offered, and the data of three types.\<close>

record mac_board =
  pb_count :: u64
  pb_types :: "string list option"
  pb_string :: "string option"
  pb_png :: "bytes option"
  pb_tiff :: "bytes option"

datatype board = Linux linux_board | Mac mac_board

definition rgba_to_png :: "'i img_lib \<Rightarrow> nat \<times> nat \<times> bytes \<Rightarrow> bytes option" where
  "rgba_to_png lib img =
    (case img of (w, h, raw) \<Rightarrow>
       Option.bind (from_raw lib (of_nat w) (of_nat h) raw) (write_png lib))"

definition linux_snapshot ::
  "'i img_lib \<Rightarrow> (bytes \<Rightarrow> bytes) \<Rightarrow> (bytes \<Rightarrow> string) \<Rightarrow> bool \<Rightarrow> linux_board \<Rightarrow> snapshot option" where
  "linux_snapshot lib sha lower with_images b =
     Some (snapshot_of sha with_images (lb_text b) (Option.bind (lb_image b) (rgba_to_png lib))
             (linux_looks_concealed lower (lb_types b)))"

definition CONCEALED_TYPES :: "string list" where
  "CONCEALED_TYPES = [''org.nspasteboard.ConcealedType'', ''org.nspasteboard.TransientType'',
     ''org.nspasteboard.AutoGeneratedType'']"

definition read_png :: "'i img_lib \<Rightarrow> mac_board \<Rightarrow> bytes option" where
  "read_png lib b =
    (case pb_png b of
       Some data \<Rightarrow> Some data
     | None \<Rightarrow> Option.bind (Option.bind (pb_tiff b) (load_tiff lib)) (write_png lib))"

definition mac_concealed :: "mac_board \<Rightarrow> bool" where
  "mac_concealed b = (case pb_types b of Some ts \<Rightarrow> list_ex (\<lambda>t. t \<in> set CONCEALED_TYPES) ts | None \<Rightarrow> False)"

definition mac_snapshot :: "'i img_lib \<Rightarrow> bool \<Rightarrow> mac_board \<Rightarrow> snapshot option" where
  "mac_snapshot lib with_images b =
    (if mac_concealed b
     then Some \<lparr>sn_token = pb_count b, sn_concealed = True, sn_text = None, sn_image = None\<rparr>
     else (let image_png = (if with_images then read_png lib b else None);
               text = (if image_png = None
                       then (case pb_string b of Some t \<Rightarrow> if t \<noteq> [] then Some t else None | None \<Rightarrow> None)
                       else None)
           in Some \<lparr>sn_token = pb_count b, sn_concealed = False, sn_text = text, sn_image = image_png\<rparr>))"

record 'i backend =
  bk_img :: "'i img_lib"
  bk_sha :: "bytes \<Rightarrow> bytes"
  bk_lower :: "bytes \<Rightarrow> string"

definition take_snapshot :: "'i backend \<Rightarrow> bool \<Rightarrow> board \<Rightarrow> snapshot option" where
  "take_snapshot bk with_images b =
    (case b of
       Linux l \<Rightarrow> linux_snapshot (bk_img bk) (bk_sha bk) (bk_lower bk) with_images l
     | Mac m \<Rightarrow> mac_snapshot (bk_img bk) with_images m)"

text \<open>Writing an image: what is handed to \<open>arboard\<close>, or a decoding error.\<close>

definition set_image_png :: "'i img_lib \<Rightarrow> bytes \<Rightarrow> (string, nat \<times> nat \<times> bytes) res" where
  "set_image_png lib png =
    (case load_from_memory lib png of
       None \<Rightarrow> Inl ''decoding image''
     | Some i \<Rightarrow> (case to_rgba8 lib i of (w, h, raw) \<Rightarrow> Inr (unat w, unat h, raw)))"

section \<open>The thread and its handle\<close>

text \<open>
  What \<open>recv_timeout\<close> returns, with what the thread then sees: whether images are on, the
  board when it looks, and whether the sync loop still listens.
\<close>

datatype clip_input = Tick | Cmd clip_command | Disconnected

record look =
  lk_images :: bool
  lk_board :: board
  lk_listening :: bool

record clip_out =
  co_changes :: "local_clip list"
  co_replies :: "string option list"
  co_running :: bool

definition clip_spawn :: "'i backend \<Rightarrow> bool \<Rightarrow> bool \<Rightarrow> look \<Rightarrow> clip_thread option" where
  "clip_spawn bk backend_ok spawn_ok lk =
    (if \<not> backend_ok \<or> \<not> spawn_ok then None
     else Some (clip_start (take_snapshot bk (lk_images lk) (lk_board lk))))"

fun clip_loop_step ::
  "'i backend \<Rightarrow> clip_input \<Rightarrow> look \<Rightarrow> clip_thread \<Rightarrow> clip_out \<Rightarrow> clip_thread \<times> clip_out" where
  "clip_loop_step bk (Cmd GetText) lk st out =
     (let (reply, st) = clip_command_step (bk_sha bk) (take_snapshot bk False (lk_board lk)) GetText st
      in (st, out\<lparr>co_replies := co_replies out @ [reply]\<rparr>))"
| "clip_loop_step bk (Cmd c) lk st out =
     (snd (clip_command_step (bk_sha bk) (take_snapshot bk (lk_images lk) (lk_board lk)) c st), out)"
| "clip_loop_step bk Tick lk st out =
     (case clip_poll (bk_sha bk) (take_snapshot bk (lk_images lk) (lk_board lk)) st of
        (None, st) \<Rightarrow> (st, out)
      | (Some c, st) \<Rightarrow>
          if lk_listening lk then (st, out\<lparr>co_changes := co_changes out @ [c]\<rparr>)
          else (st, out\<lparr>co_running := False\<rparr>))"
| "clip_loop_step bk Disconnected lk st out = (st, out\<lparr>co_running := False\<rparr>)"

fun clip_loop :: "'i backend \<Rightarrow> (clip_input \<times> look) list \<Rightarrow> clip_thread \<Rightarrow> clip_out \<Rightarrow> clip_thread \<times> clip_out" where
  "clip_loop bk [] st out = (st, out)"
| "clip_loop bk ((i, lk) # ts) st out =
     (if \<not> co_running out then (st, out)
      else (case clip_loop_step bk i lk st out of (st, out) \<Rightarrow> clip_loop bk ts st out))"

definition clip_out_new :: clip_out where
  "clip_out_new = \<lparr>co_changes = [], co_replies = [], co_running = True\<rparr>"

text \<open>
  The handle: a command reaches the thread while it runs; reading waits two seconds for the
  answer, which is \<open>None\<close> here when it does not come in time.
\<close>

definition handle_apply :: "bool \<Rightarrow> clip_command \<Rightarrow> clip_command list \<Rightarrow> clip_command list" where
  "handle_apply running c q = (if running then q @ [c] else q)"

definition handle_get_text :: "bool \<Rightarrow> string option option \<Rightarrow> clip_command list \<Rightarrow> string option \<times> clip_command list" where
  "handle_get_text running answer q =
    (if running then ((case answer of Some r \<Rightarrow> r | None \<Rightarrow> None), q @ [GetText]) else (None, q))"

section \<open>Lemmas\<close>

text \<open>What a board openly shows, and whether it is marked as not to be shared.\<close>

fun marked :: "'i backend \<Rightarrow> board \<Rightarrow> bool" where
  "marked bk (Linux b) = linux_looks_concealed (bk_lower bk) (lb_types b)"
| "marked bk (Mac b) = mac_concealed b"

fun on_board :: "'i backend \<Rightarrow> local_clip \<Rightarrow> board \<Rightarrow> bool" where
  "on_board bk (LocalText t) (Linux b) \<longleftrightarrow> lb_text b = Some t"
| "on_board bk (LocalText t) (Mac b) \<longleftrightarrow> pb_string b = Some t"
| "on_board bk (LocalImage png) (Linux b) \<longleftrightarrow> Option.bind (lb_image b) (rgba_to_png (bk_img bk)) = Some png"
| "on_board bk (LocalImage png) (Mac b) \<longleftrightarrow> read_png (bk_img bk) b = Some png"

lemma snapshot_shows:
  assumes "take_snapshot bk imgs b = Some s" "shows_clip s c" "\<not> sn_concealed s"
  shows "\<not> marked bk b \<and> on_board bk c b \<and> ((\<exists>png. c = LocalImage png) \<longrightarrow> imgs) \<and> c \<noteq> LocalText []"
  using assms
  by (cases b; cases c)
    (auto simp: take_snapshot_def linux_snapshot_def mac_snapshot_def snapshot_of_def shows_clip_def Let_def
      split: if_splits option.splits)

lemma poll_from_board:
  assumes "clip_poll sha (take_snapshot bk imgs b) st = (Some c, st')"
  shows "\<not> marked bk b \<and> on_board bk c b \<and> ((\<exists>png. c = LocalImage png) \<longrightarrow> imgs) \<and> c \<noteq> LocalText []"
  using clip_poll_Some[OF assms] snapshot_shows by blast

lemma loop_step_changes:
  assumes "clip_loop_step bk i lk st out = (st', out')" "c \<in> set (co_changes out')"
  shows "c \<in> set (co_changes out) \<or> i = Tick \<and> \<not> marked bk (lk_board lk) \<and> on_board bk c (lk_board lk)
    \<and> ((\<exists>png. c = LocalImage png) \<longrightarrow> lk_images lk) \<and> c \<noteq> LocalText []"
proof (cases i)
  case Tick
  with assms show ?thesis
    by (auto dest!: poll_from_board split: prod.splits option.splits if_splits)
next
  case (Cmd x)
  with assms show ?thesis by (cases x) (auto simp: case_prod_beta)
qed (use assms in auto)

lemma loop_changes:
  "c \<in> set (co_changes (snd (clip_loop bk ts st out))) \<Longrightarrow> c \<notin> set (co_changes out) \<Longrightarrow>
     list_ex (\<lambda>(i, lk). i = Tick \<and> \<not> marked bk (lk_board lk) \<and> on_board bk c (lk_board lk)
       \<and> ((\<exists>png. c = LocalImage png) \<longrightarrow> lk_images lk) \<and> c \<noteq> LocalText []) ts"
proof (induction bk ts st out rule: clip_loop.induct)
  case (2 bk i lk ts st out)
  obtain st' out' where s: "clip_loop_step bk i lk st out = (st', out')" by fastforce
  show ?case
  proof (cases "co_running out")
    case True
    show ?thesis
    proof (cases "c \<in> set (co_changes out')")
      case True
      with loop_step_changes[OF s True] "2.prems"(2) show ?thesis by auto
    next
      case False
      with "2.IH"[OF _ s[symmetric]] "2.prems"(1) \<open>co_running out\<close> s show ?thesis by auto
    qed
  qed (use "2.prems" in auto)
qed auto

text \<open>The loop sees a board only through its snapshots.\<close>

definition same_look :: "'i backend \<Rightarrow> look \<Rightarrow> look \<Rightarrow> bool" where
  "same_look bk a b \<longleftrightarrow>
     lk_images a = lk_images b \<and> lk_listening a = lk_listening b
     \<and> (\<forall>imgs. take_snapshot bk imgs (lk_board a) = take_snapshot bk imgs (lk_board b))"

lemma loop_step_same: "same_look bk a b \<Longrightarrow> clip_loop_step bk i a st out = clip_loop_step bk i b st out"
proof -
  assume "same_look bk a b"
  then show ?thesis
    by (cases "(bk, i, a, st, out)" rule: clip_loop_step.cases) (simp_all add: same_look_def cong: prod.case_cong option.case_cong)
qed

lemma loop_same:
  "list_all2 (\<lambda>(i, a) (j, b). i = j \<and> same_look bk a b) xs ys \<Longrightarrow> clip_loop bk xs st out = clip_loop bk ys st out"
proof (induction xs ys arbitrary: st out rule: list_all2_induct)
  case (Cons x xs y ys)
  obtain i a b where "x = (i, a)" "y = (i, b)" "same_look bk a b" using Cons(1) by (cases x; cases y) auto
  with Cons(3) loop_step_same[of bk a b i] show ?case by (auto split: prod.splits)
qed simp

section \<open>Properties\<close>

text \<open>
  C27. What is marked as secret never leaves, on either platform: every change the thread passes on
  was, when it looked, on a clipboard that carried none of the markers of password managers
  and transient items, is exactly the text or the (re-encoded) image found there, is not empty,
  and is an image only if image sync was on.
\<close>

theorem marked_items_never_leave:
  assumes "c \<in> set (co_changes (snd (clip_loop bk ts st clip_out_new)))"
  shows "list_ex (\<lambda>(i, lk). i = Tick \<and> \<not> marked bk (lk_board lk) \<and> on_board bk c (lk_board lk)
    \<and> ((\<exists>png. c = LocalImage png) \<longrightarrow> lk_images lk) \<and> c \<noteq> LocalText []) ts"
  using loop_changes[OF assms] by (simp add: clip_out_new_def)

text \<open>
  C28. On macOS a marked item is not even read: two runs that differ only in the contents of marked
  items (not in their types and change counts) behave alike in everything, the changes passed
  on, the answers to \<open>qdrop paste\<close> and the state of the thread.
\<close>

theorem mac_secrets_do_not_interfere:
  assumes "list_all2 (\<lambda>(i, a) (j, b). i = j \<and> lk_images a = lk_images b \<and> lk_listening a = lk_listening b
      \<and> (lk_board a = lk_board b
         \<or> (\<exists>p q. lk_board a = Mac p \<and> lk_board b = Mac q \<and> mac_concealed p
              \<and> pb_count q = pb_count p \<and> pb_types q = pb_types p))) xs ys"
  shows "clip_loop bk xs st out = clip_loop bk ys st out"
proof (rule loop_same, rule list_all2_mono[OF assms], clarify)
  fix i j :: clip_input and a b :: look
  assume l: "lk_images a = lk_images b" "lk_listening a = lk_listening b"
    and "lk_board a = lk_board b \<or> (\<exists>p q. lk_board a = Mac p \<and> lk_board b = Mac q \<and> mac_concealed p
              \<and> pb_count q = pb_count p \<and> pb_types q = pb_types p)"
  then show "i = i \<and> same_look bk a b"
    by (auto simp: same_look_def take_snapshot_def mac_snapshot_def mac_concealed_def)
qed

definition ex_img :: "bytes img_lib" where
  "ex_img = \<lparr>load_from_memory = Some, load_tiff = Some, to_rgba8 = (\<lambda>i. (1, of_nat (length i div 4), i)),
     from_raw = (\<lambda>w h raw. if length raw = 4 * unat w * unat h then Some raw else None), write_png = Some\<rparr>"

definition ex_bk :: "bytes backend" where
  "ex_bk = \<lparr>bk_img = ex_img, bk_sha = (\<lambda>b. b), bk_lower = (\<lambda>_. [])\<rparr>"

definition ex_look :: "string list \<Rightarrow> string \<Rightarrow> u64 \<Rightarrow> look" where
  "ex_look types t n = \<lparr>lk_images = True,
     lk_board = Mac \<lparr>pb_count = n, pb_types = Some types, pb_string = Some t, pb_png = None, pb_tiff = None\<rparr>, lk_listening = True\<rparr>"

lemma ex_clip_run:
  "clip_loop ex_bk [(Tick, ex_look [] ''x'' 1), (Tick, ex_look [''org.nspasteboard.ConcealedType''] p 2), (Cmd GetText, ex_look [''org.nspasteboard.ConcealedType''] p 2)]
     (clip_start None) clip_out_new
   = (\<lparr>last_token = Some 2, suppress = None, writes = []\<rparr>,
      \<lparr>co_changes = [LocalText ''x''], co_replies = [None], co_running = True\<rparr>)"
  by (simp add: ex_look_def ex_bk_def ex_img_def take_snapshot_def mac_snapshot_def mac_concealed_def CONCEALED_TYPES_def
      read_png_def clip_poll_def clip_start_def clip_out_new_def Let_def clip_hash_def)

theorem marked_items_never_leave_witness:
  "list_ex (\<lambda>(i, lk). i = Tick \<and> \<not> marked ex_bk (lk_board lk) \<and> on_board ex_bk (LocalText ''x'') (lk_board lk)
    \<and> ((\<exists>png. LocalText ''x'' = LocalImage png) \<longrightarrow> lk_images lk) \<and> LocalText ''x'' \<noteq> LocalText [])
    [(Tick, ex_look [] ''x'' 1), (Tick, ex_look [''org.nspasteboard.ConcealedType''] ''pw'' 2),
     (Cmd GetText, ex_look [''org.nspasteboard.ConcealedType''] ''pw'' 2)]"
  by (rule marked_items_never_leave[where st = "clip_start None"]) (simp only: ex_clip_run, simp)

theorem mac_secrets_do_not_interfere_witness:
  "clip_loop ex_bk [(Tick, ex_look [''org.nspasteboard.ConcealedType''] ''hunter2'' 2)] (clip_start None) clip_out_new
   = clip_loop ex_bk [(Tick, ex_look [''org.nspasteboard.ConcealedType''] ''swordfish'' 2)] (clip_start None) clip_out_new"
  by (rule mac_secrets_do_not_interfere) (simp add: ex_look_def mac_concealed_def CONCEALED_TYPES_def)

text \<open>
  On Linux the mark keeps an item from the peers, not from \<open>qdrop paste\<close>: whatever the helper
  reports, the answer is the text on the clipboard.
\<close>

theorem linux_paste_ignores_the_mark:
  assumes "lb_text b = Some t" "t \<noteq> []" "lk_board lk = Linux b"
  shows "clip_loop_step bk (Cmd GetText) lk st out = (st, out\<lparr>co_replies := co_replies out @ [Some t]\<rparr>)"
  using assms by (simp add: take_snapshot_def linux_snapshot_def snapshot_of_def Let_def)

end
