(* ===== verification/Bus.thy ===== *)
theory Bus
  imports Frame
begin

text \<open>
  \<open>crates/qdropd/src/bus.rs\<close>: the map from connected devices to their outbound channels.
  A \<open>tokio::sync::mpsc\<close> channel is shared by its senders, so the bus holds references into
  a store of channels: a channel is its queued messages, its capacity and whether the
  receiving connection is gone. The hash map is an association list in iteration order.
\<close>

section \<open>Channels\<close>

record chan =
  queue :: "message list"
  cap :: nat
  closed :: bool

type_synonym chans = "nat \<Rightarrow> chan"

definition try_send :: "nat \<Rightarrow> message \<Rightarrow> chans \<Rightarrow> bool \<times> chans" where
  "try_send c m cs =
     (if closed (cs c) \<or> length (queue (cs c)) \<ge> cap (cs c) then (False, cs)
      else (True, cs(c := (cs c)\<lparr>queue := queue (cs c) @ [m]\<rparr>)))"

section \<open>The bus\<close>

record bus =
  links :: "(string \<times> nat) list"
  chans :: chans

definition bus_insert :: "string \<Rightarrow> nat \<Rightarrow> bus \<Rightarrow> bus" where
  "bus_insert d c b = b\<lparr>links := filter (\<lambda>l. fst l \<noteq> d) (links b) @ [(d, c)]\<rparr>"

definition bus_remove :: "string \<Rightarrow> bus \<Rightarrow> bus" where
  "bus_remove d b = b\<lparr>links := filter (\<lambda>l. fst l \<noteq> d) (links b)\<rparr>"

definition bus_new :: bus where
  "bus_new = \<lparr>links = [], chans = (\<lambda>_. \<lparr>queue = [], cap = 64, closed = False\<rparr>)\<rparr>"

definition connected_ids :: "bus \<Rightarrow> string list" where
  "connected_ids b = map fst (links b)"

definition sender :: "bus \<Rightarrow> string \<Rightarrow> nat option" where
  "sender b d = map_of (links b) d"

definition bus_is_empty :: "bus \<Rightarrow> bool" where
  "bus_is_empty b \<longleftrightarrow> links b = []"

definition broadcast :: "message \<Rightarrow> string option \<Rightarrow> bus \<Rightarrow> bus" where
  "broadcast m except b =
     (let targets = map snd (filter (\<lambda>l. except \<noteq> Some (fst l)) (links b))
      in b\<lparr>chans := foldl (\<lambda>cs c. snd (try_send c m cs)) (chans b) targets\<rparr>)"

definition send_to :: "string \<Rightarrow> message \<Rightarrow> bus \<Rightarrow> bool \<times> bus" where
  "send_to d m b =
     (case sender b d of
        None \<Rightarrow> (False, b)
      | Some c \<Rightarrow> let (ok, cs) = try_send c m (chans b) in (ok, b\<lparr>chans := cs\<rparr>))"

text \<open>One entry per device, and no two devices share a channel.\<close>

definition bus_wf :: "bus \<Rightarrow> bool" where
  "bus_wf b \<longleftrightarrow> distinct (map fst (links b)) \<and> distinct (map snd (links b))"

section \<open>Lemmas\<close>

lemma try_send_other: "c' \<noteq> c \<Longrightarrow> snd (try_send c m cs) c' = cs c'"
  by (simp add: try_send_def)

lemma broadcast_fold:
  "distinct ts \<Longrightarrow>
     foldl (\<lambda>cs c. snd (try_send c m cs)) cs ts c = (if c \<in> set ts then snd (try_send c m cs) c else cs c)"
proof (induction ts arbitrary: cs)
  case (Cons t ts)
  then show ?case by (auto simp: try_send_def)
qed simp

lemma links_send_to [simp]: "links (snd (send_to d m b)) = links b"
  by (simp add: send_to_def split: option.splits prod.splits)

lemma sender_send_to [simp]: "sender (snd (send_to d m b)) d' = sender b d'"
  by (simp add: sender_def)

lemma links_broadcast [simp]: "links (broadcast m e b) = links b"
  by (simp add: broadcast_def)

lemma send_to_chan:
  "sender b d = Some c \<Longrightarrow> \<not> closed (chans b c) \<Longrightarrow> length (queue (chans b c)) < cap (chans b c) \<Longrightarrow>
     fst (send_to d m b) \<and> queue (chans (snd (send_to d m b)) c) = queue (chans b c) @ [m]"
  by (simp add: send_to_def try_send_def)

lemma bus_insert_wf [step_inv]:
  "bus_wf b \<Longrightarrow> c \<notin> snd ` set (links b) \<Longrightarrow> bus_wf (bus_insert d c b)"
  by (auto simp: bus_wf_def bus_insert_def distinct_map_filter)

lemma bus_remove_wf [step_inv]: "bus_wf b \<Longrightarrow> bus_wf (bus_remove d b)"
  by (auto simp: bus_wf_def bus_remove_def distinct_map_filter)

lemma map_of_filter_key:
  "map_of (filter (\<lambda>l. fst l \<noteq> d) ls) d' = (if d' = d then None else map_of ls d')"
  by (induction ls) auto

lemma sender_insert: "sender (bus_insert d c b) d' = (if d' = d then Some c else sender b d')"
  by (auto simp: sender_def bus_insert_def map_add_def map_of_filter_key split: option.splits)

lemma sender_remove: "sender (bus_remove d b) d' = (if d' = d then None else sender b d')"
  by (simp add: sender_def bus_remove_def map_of_filter_key)

lemma broadcast_chan:
  assumes "bus_wf b" "sender b d = Some c"
  shows "chans (broadcast m except b) c
    = (if except \<noteq> Some d \<and> \<not> closed (chans b c) \<and> length (queue (chans b c)) < cap (chans b c)
       then (chans b c)\<lparr>queue := queue (chans b c) @ [m]\<rparr> else chans b c)
    \<and> (c' \<notin> snd ` set (links b) \<longrightarrow> chans (broadcast m except b) c' = chans b c')"
proof -
  let ?ts = "map snd (filter (\<lambda>l. except \<noteq> Some (fst l)) (links b))"
  have mem: "(d, c) \<in> set (links b)" using assms(2) by (simp add: sender_def map_of_SomeD)
  have "c \<in> set ?ts \<longleftrightarrow> except \<noteq> Some d"
  proof
    assume "c \<in> set ?ts"
    then obtain d' where "(d', c) \<in> set (links b)" "except \<noteq> Some d'" by auto
    moreover have "inj_on snd (set (links b))" using assms(1) by (simp add: bus_wf_def distinct_map)
    ultimately show "except \<noteq> Some d"
      using mem by (metis inj_on_def prod.inject snd_conv)
  qed (use mem in force)
  moreover have "distinct ?ts" using assms(1) by (simp add: bus_wf_def distinct_map_filter)
  then have "chans (broadcast m except b) x = (if x \<in> set ?ts then snd (try_send x m (chans b)) x else chans b x)" for x
    using broadcast_fold[of ?ts m "chans b" x] by (simp add: broadcast_def Let_def)
  ultimately show ?thesis
    by (auto simp: try_send_def)
qed

section \<open>Properties\<close>

text \<open>
  A broadcast reaches exactly the connected devices other than the excluded one: the
  channel of each of them that is open and has room gets the message at its end, a full or
  closed one drops it without stalling the rest, and every other channel is untouched.
\<close>

theorem broadcast_reaches_the_others:
  assumes "bus_wf b" "sender b d = Some c"
  shows "chans (broadcast m except b) c
    = (if except \<noteq> Some d \<and> \<not> closed (chans b c) \<and> length (queue (chans b c)) < cap (chans b c)
       then (chans b c)\<lparr>queue := queue (chans b c) @ [m]\<rparr> else chans b c)
    \<and> (c' \<notin> snd ` set (links b) \<longrightarrow> chans (broadcast m except b) c' = chans b c')"
  using assms by (rule broadcast_chan)

theorem broadcast_reaches_the_others_witness:
  "queue (chans (broadcast (Ping 1) (Some ''a'')
     \<lparr>links = [(''a'', 0), (''b'', 1)], chans = (\<lambda>_. \<lparr>queue = [], cap = 64, closed = False\<rparr>)\<rparr>) 1) = [Ping 1]"
  using broadcast_reaches_the_others[of "\<lparr>links = [(''a'', 0), (''b'', 1)],
      chans = (\<lambda>_. \<lparr>queue = [], cap = 64, closed = False\<rparr>)\<rparr>" "''b''" 1 "Ping 1" "Some ''a''"]
  by (simp add: bus_wf_def sender_def)

end
