(* ===== verification/Sync.thy ===== *)
theory Sync
  imports Clipboard Bus
begin

text \<open>
  \<open>crates/qdropd/src/sync.rs\<close> with the toggles of \<open>control.rs\<close>: the loop between the
  clipboard thread, the peers and the history. An event carries the time in milliseconds
  and the answers of the system to the history's file operations.
\<close>

section \<open>State\<close>

record sync =
  sy_own :: string
  sy_max :: nat
  sy_paused :: bool
  sy_images :: bool
  sy_clip :: bool
  sy_seq :: u64
  sy_synced :: "bytes option"
  sy_last :: nat
  sy_bus :: bus
  sy_history :: history
  sy_applied :: "clip_command list"
  sy_blobs :: "bytes list"

definition min_gap :: nat where
  "min_gap = 300"

definition sync_new :: "config \<Rightarrow> string \<Rightarrow> bus \<Rightarrow> history \<Rightarrow> bool \<Rightarrow> nat \<Rightarrow> sync" where
  "sync_new cfg own b h has_board now =
    \<lparr>sy_own = own, sy_max = unat (max_clipboard_bytes cfg), sy_paused = False, sy_images = sync_images cfg,
     sy_clip = (sync_clipboard cfg \<and> has_board), sy_seq = 0, sy_synced = None, sy_last = now - min_gap,
     sy_bus = b, sy_history = h, sy_applied = [], sy_blobs = []\<rparr>"

section \<open>Operations\<close>

definition set_clipboard_paused :: "bool \<Rightarrow> sync \<Rightarrow> sync" where
  "set_clipboard_paused v st = st\<lparr>sy_paused := v\<rparr>"

definition set_sync_images :: "bool \<Rightarrow> sync \<Rightarrow> sync" where
  "set_sync_images v st = st\<lparr>sy_images := v\<rparr>"

text \<open>
  Sending a new content: remembered, numbered and broadcast, or handed to the blob path
  when it is an image over the inline limit.
\<close>

definition sync_local :: "(bytes \<Rightarrow> bytes) \<Rightarrow> hist_env \<Rightarrow> nat \<Rightarrow> local_clip \<Rightarrow> sync \<Rightarrow> sync" where
  "sync_local sha ev now c st =
    (if sy_paused st then st
     else if now - sy_last st < min_gap then st
     else (let st = st\<lparr>sy_last := now\<rparr> in
       case c of
         LocalText t \<Rightarrow>
           let st = st\<lparr>sy_history := record_text sha ev t ''local'' (sy_history st)\<rparr>;
               h = sha (str_bytes t)
           in if length t > sy_max st then st
              else if Some h = sy_synced st then st
              else (let st = st\<lparr>sy_synced := Some h, sy_seq := sy_seq st + 1\<rparr>
                in st\<lparr>sy_bus := broadcast (Clipboard (sy_seq st) (sy_own st) [clip_text t]) None (sy_bus st)\<rparr>)
       | LocalImage png \<Rightarrow>
           if \<not> sy_images st then st
           else (let st = st\<lparr>sy_history := record_image sha ev png ''local'' (sy_history st)\<rparr>;
                     h = sha png
                 in if Some h = sy_synced st then st
                    else (let st = st\<lparr>sy_synced := Some h\<rparr> in
                      if length png \<le> CLIP_IMAGE_INLINE_MAX
                      then (let st = st\<lparr>sy_seq := sy_seq st + 1\<rparr>
                        in st\<lparr>sy_bus := broadcast (Clipboard (sy_seq st) (sy_own st) [clip_png png]) None (sy_bus st)\<rparr>)
                      else st\<lparr>sy_blobs := sy_blobs st @ [png]\<rparr>))))"

text \<open>\<open>Iterator::find_map\<close>\<close>

fun find_map :: "('a \<Rightarrow> 'b option) \<Rightarrow> 'a list \<Rightarrow> 'b option" where
  "find_map f [] = None"
| "find_map f (x # xs) = (case f x of Some y \<Rightarrow> Some y | None \<Rightarrow> find_map f xs)"

fun sync_remote :: "(bytes \<Rightarrow> bytes) \<Rightarrow> hist_env \<Rightarrow> string \<Rightarrow> message \<Rightarrow> sync \<Rightarrow> sync" where
  "sync_remote sha ev pid (Clipboard _ origin entries) st =
    (if sy_paused st \<or> origin = sy_own st then st
     else if \<not> sy_clip st then st
     else (case find_map as_text entries of
        Some t \<Rightarrow>
          if length t > sy_max st then st
          else (let st = st\<lparr>sy_history := record_text sha ev t pid (sy_history st)\<rparr>;
                    h = sha (str_bytes t)
                in if Some h = sy_synced st then st
                   else st\<lparr>sy_synced := Some h, sy_applied := sy_applied st @ [ApplyText t]\<rparr>)
      | None \<Rightarrow>
          if \<not> sy_images st then st
          else (case find_map as_image entries of
             None \<Rightarrow> st
           | Some png \<Rightarrow>
               let st = st\<lparr>sy_history := record_image sha ev png pid (sy_history st)\<rparr>;
                   h = sha png
               in if Some h = sy_synced st then st
                  else st\<lparr>sy_synced := Some h, sy_applied := sy_applied st @ [ApplyImage png]\<rparr>)))"
| "sync_remote sha ev pid _ st = st"

text \<open>The task that applies images delivered by the blob path.\<close>

definition sync_blob :: "bytes \<Rightarrow> sync \<Rightarrow> sync" where
  "sync_blob png st = (if sy_clip st then st\<lparr>sy_applied := sy_applied st @ [ApplyImage png]\<rparr> else st)"

datatype sync_event =
    OnLocal hist_env nat local_clip
  | OnRemote hist_env string message
  | OnBlob bytes
  | OnPause bool
  | OnImages bool

definition sync_step :: "(bytes \<Rightarrow> bytes) \<Rightarrow> sync \<Rightarrow> sync_event \<Rightarrow> sync" where
  "sync_step sha st e =
    (case e of
       OnLocal ev now c \<Rightarrow> sync_local sha ev now c st
     | OnRemote ev pid m \<Rightarrow> sync_remote sha ev pid m st
     | OnBlob png \<Rightarrow> sync_blob png st
     | OnPause v \<Rightarrow> set_clipboard_paused v st
     | OnImages v \<Rightarrow> set_sync_images v st)"

section \<open>Lemmas\<close>

lemma sync_remote_bus [simp]:
  "sy_bus (sync_remote sha ev pid m st) = sy_bus st \<and> sy_blobs (sync_remote sha ev pid m st) = sy_blobs st"
  by (cases m) (auto simp: Let_def split: option.splits)

lemma sync_local_known:
  "sy_synced st = Some (clip_hash sha c) \<Longrightarrow>
     sy_bus (sync_local sha ev now c st) = sy_bus st \<and> sy_blobs (sync_local sha ev now c st) = sy_blobs st
     \<and> sy_synced (sync_local sha ev now c st) = sy_synced st"
  by (auto simp: sync_local_def clip_hash_def Let_def split: local_clip.splits)

lemma sync_local_applied [simp]: "sy_applied (sync_local sha ev now c st) = sy_applied st"
  by (auto simp: sync_local_def Let_def split: local_clip.splits)

text \<open>An event that sends something changes the remembered hash, and the other way round.\<close>

definition sends :: "(bytes \<Rightarrow> bytes) \<Rightarrow> sync \<Rightarrow> sync_event \<Rightarrow> nat list" where
  "sends sha st e =
    (case e of
       OnLocal ev now c \<Rightarrow> if sy_synced (sync_local sha ev now c st) \<noteq> sy_synced st then [now] else []
     | _ \<Rightarrow> [])"

fun send_times :: "(bytes \<Rightarrow> bytes) \<Rightarrow> sync_event list \<Rightarrow> sync \<Rightarrow> nat list" where
  "send_times sha [] st = []"
| "send_times sha (e # es) st = sends sha st e @ send_times sha es (sync_step sha st e)"

lemma no_send_same_bus:
  "sy_synced (sync_local sha ev now c st) = sy_synced st \<Longrightarrow>
     sy_bus (sync_local sha ev now c st) = sy_bus st \<and> sy_blobs (sync_local sha ev now c st) = sy_blobs st"
  by (auto simp: sync_local_def Let_def split: local_clip.splits if_splits)

lemma sync_step_last:
  "sy_last (sync_step sha st e) = sy_last st
   \<or> (\<exists>ev now c. e = OnLocal ev now c \<and> sy_last (sync_step sha st e) = now \<and> now \<ge> sy_last st + min_gap)"
proof (cases e)
  case (OnLocal ev now c)
  have "\<not> now - sy_last st < min_gap \<Longrightarrow> now \<ge> sy_last st + min_gap"
    by (simp add: min_gap_def)
  with OnLocal show ?thesis
    by (auto simp: sync_step_def sync_local_def Let_def split: local_clip.splits)
next
  case (OnRemote ev pid m)
  then show ?thesis by (cases m) (auto simp: sync_step_def Let_def split: option.splits)
qed (auto simp: sync_step_def sync_blob_def set_clipboard_paused_def set_sync_images_def)

lemma sync_step_last_mono: "sy_last st \<le> sy_last (sync_step sha st e)"
  using sync_step_last[of sha st e] by auto

lemma sends_gap:
  "t \<in> set (sends sha st e) \<Longrightarrow> sy_last st + min_gap \<le> t \<and> sy_last (sync_step sha st e) = t"
  by (auto simp: sends_def sync_step_def sync_local_def Let_def min_gap_def
      split: sync_event.splits local_clip.splits if_splits)

lemma send_times_after: "t \<in> set (send_times sha es st) \<Longrightarrow> sy_last st + min_gap \<le> t"
proof (induction es arbitrary: st)
  case (Cons e es)
  show ?case
  proof (cases "t \<in> set (sends sha st e)")
    case True
    then show ?thesis using sends_gap by blast
  next
    case False
    with Cons.prems have "sy_last (sync_step sha st e) + min_gap \<le> t"
      by (intro Cons.IH) simp
    with sync_step_last_mono[of st sha e] show ?thesis by linarith
  qed
qed simp

lemma copies_of_synced:
  assumes "sy_synced st = Some (clip_hash sha c)"
    and "list_all (\<lambda>e. \<exists>ev now. e = OnLocal ev now c) es"
  shows "sy_bus (foldl (sync_step sha) st es) = sy_bus st
    \<and> sy_blobs (foldl (sync_step sha) st es) = sy_blobs st"
  using assms
proof (induction es arbitrary: st)
  case (Cons e es)
  then obtain ev now where e: "e = OnLocal ev now c" by auto
  have "sy_synced (sync_step sha st e) = Some (clip_hash sha c)"
    "sy_bus (sync_step sha st e) = sy_bus st" "sy_blobs (sync_step sha st e) = sy_blobs st"
    using sync_local_known[OF Cons.prems(1), of ev now] Cons.prems(1) by (simp_all add: e sync_step_def)
  with Cons.IH[of "sync_step sha st e"] Cons.prems(2) show ?case by simp
qed simp

lemma remote_applies:
  "sy_applied (sync_remote sha ev pid m st) \<noteq> sy_applied st \<Longrightarrow>
     \<exists>c. sy_synced (sync_remote sha ev pid m st) = Some (clip_hash sha c)
       \<and> sy_applied (sync_remote sha ev pid m st)
         = sy_applied st @ [case c of LocalText t \<Rightarrow> ApplyText t | LocalImage b \<Rightarrow> ApplyImage b]"
proof (cases m)
  case (Clipboard n origin entries)
  assume "sy_applied (sync_remote sha ev pid m st) \<noteq> sy_applied st"
  with Clipboard show ?thesis
    by (auto simp: Let_def clip_hash_def split: option.splits if_splits
        intro: exI[of _ "LocalText t" for t] exI[of _ "LocalImage b" for b])
qed simp_all

section \<open>Properties\<close>

text \<open>The command that puts a content on the clipboard.\<close>

definition apply_of :: "local_clip \<Rightarrow> clip_command" where
  "apply_of c = (case c of LocalText t \<Rightarrow> ApplyText t | LocalImage b \<Rightarrow> ApplyImage b)"

lemma apply_of_inject: "apply_of c = apply_of d \<longleftrightarrow> c = d"
  by (auto simp: apply_of_def split: local_clip.splits)

lemma polls_of_own_write:
  assumes "shows_clip s c" "set polls \<subseteq> {None, Some s}"
    and "suppress th = Some (clip_hash sha c) \<or> last_token th = Some (sn_token s)"
  shows "fst (clip_run sha (map Poll polls) th) = []"
  using assms(2,3)
proof (induction polls arbitrary: th)
  case (Cons p polls)
  obtain x th1 where x: "clip_turn_step sha (Poll p) th = (x, th1)" by fastforce
  then have "x = None \<and> (suppress th1 = Some (clip_hash sha c) \<or> last_token th1 = Some (sn_token s))"
    using Cons.prems assms(1)
    by (auto simp: clip_turn_step_def clip_poll_def shows_clip_def Let_def split: local_clip.splits if_splits option.splits)
  moreover from this have "fst (clip_run sha (map Poll polls) th1) = []" using Cons by simp
  ultimately show ?case using x by (simp add: case_prod_beta)
qed simp


definition ex_sync :: "string \<Rightarrow> sync" where
  "ex_sync own = \<lparr>sy_own = own, sy_max = 100, sy_paused = False, sy_images = True, sy_clip = True, sy_seq = 0,
     sy_synced = None, sy_last = 0,
     sy_bus = \<lparr>links = [(''b'', 1)], chans = (\<lambda>_. \<lparr>queue = [], cap = 64, closed = False\<rparr>)\<rparr>,
     sy_history = ex_hist, sy_applied = [], sy_blobs = []\<rparr>"


lemma local_text_queued:
  assumes "\<not> sy_paused a" "sy_last a + min_gap \<le> now" "length t \<le> sy_max a"
    and "sy_synced a \<noteq> Some (sha (str_bytes t))"
    and "bus_wf (sy_bus a)" "sender (sy_bus a) d = Some c" "\<not> closed (chans (sy_bus a) c)"
    and "length (queue (chans (sy_bus a) c)) < cap (chans (sy_bus a) c)"
  shows "queue (chans (sy_bus (sync_local sha ev now (LocalText t) a)) c)
      = queue (chans (sy_bus a) c) @ [Clipboard (sy_seq a + 1) (sy_own a) [clip_text t]]"
proof -
  let ?m = "Clipboard (sy_seq a + 1) (sy_own a) [clip_text t]"
  have "\<not> now - sy_last a < min_gap" using assms(2) by (simp add: min_gap_def)
  then have "sy_bus (sync_local sha ev now (LocalText t) a) = broadcast ?m None (sy_bus a)"
    using assms(1,3,4) by (simp add: sync_local_def Let_def)
  then show ?thesis using broadcast_chan[OF assms(5,6), of ?m None] assms(7,8) by simp
qed

lemma remote_text_applied:
  assumes "\<not> sy_paused b" "sy_clip b" "sy_own b \<noteq> origin" "length t \<le> sy_max b"
    and "sy_synced b \<noteq> Some (sha (str_bytes t))" "utf8_ok t"
  shows "sy_applied (sync_remote sha ev pid (Clipboard n origin [clip_text t]) b) = sy_applied b @ [ApplyText t]"
  using assms as_text_text[OF assms(6)] by (auto simp: Let_def)

text \<open>
  A copy reaches the other machine: a text copied on one daemon that is not paused, not
  rate limited, within the size limit and new, is queued on the channel of every connected
  peer that has room, and the message makes a daemon that is not paused and has a clipboard
  put exactly that text on it, without sending anything back.
\<close>

theorem copied_text_reaches_the_peer:
  assumes "\<not> sy_paused a" "sy_last a + min_gap \<le> now" "length t \<le> sy_max a" "utf8_ok t"
    and "sy_synced a \<noteq> Some (sha (str_bytes t))"
    and "bus_wf (sy_bus a)" "sender (sy_bus a) d = Some c" "\<not> closed (chans (sy_bus a) c)"
    and "length (queue (chans (sy_bus a) c)) < cap (chans (sy_bus a) c)"
    and "\<not> sy_paused b" "sy_clip b" "sy_own b \<noteq> sy_own a" "length t \<le> sy_max b"
    and "sy_synced b \<noteq> Some (sha (str_bytes t))"
  shows "\<exists>m. queue (chans (sy_bus (sync_local sha ev now (LocalText t) a)) c)
           = queue (chans (sy_bus a) c) @ [m]
    \<and> sy_applied (sync_remote sha ev' (sy_own a) m b) = sy_applied b @ [ApplyText t]
    \<and> sy_bus (sync_remote sha ev' (sy_own a) m b) = sy_bus b"
  using local_text_queued[where sha = sha, OF assms(1,2,3,5-9), of ev]
    remote_text_applied[where sha = sha, OF assms(10-14,4), of ev' "sy_own a" "sy_seq a + 1"]
  by (metis sync_remote_bus)

theorem copied_text_reaches_the_peer_witness:
  "\<exists>m. queue (chans (sy_bus (sync_local (\<lambda>b. b) ex_hev 1000 (LocalText ''hi'') (ex_sync ''a''))) 1) = [m]
    \<and> sy_applied (sync_remote (\<lambda>b. b) ex_hev ''a'' m (ex_sync ''b'')) = [ApplyText ''hi'']"
proof -
  have "utf8_ok ''hi''" by (rule utf8_ok_ascii) simp
  then show ?thesis
    using copied_text_reaches_the_peer[of "ex_sync ''a''" 1000 "''hi''" "\<lambda>b. b" "''b''" 1 "ex_sync ''b''" ex_hev ex_hev]
    by (auto simp: ex_sync_def min_gap_def bus_wf_def sender_def)
qed

text \<open>
  While sync is paused nothing moves: local copies and peers' updates leave the state,
  the history and the peers' channels exactly as they were.
\<close>

theorem paused_sync_is_silent:
  assumes "sy_paused st" "list_all (\<lambda>e. case e of OnLocal _ _ _ \<Rightarrow> True | OnRemote _ _ _ \<Rightarrow> True | _ \<Rightarrow> False) es"
  shows "foldl (sync_step sha) st es = st"
  using assms(2)
proof (induction es)
  case (Cons e es)
  have "sync_remote sha ev pid m st = st" for ev pid m
    using assms(1) by (cases m) simp_all
  with Cons assms(1) show ?case
    by (auto simp: sync_step_def sync_local_def split: sync_event.splits)
qed simp

theorem paused_sync_is_silent_witness:
  "foldl (sync_step (\<lambda>b. b)) ((ex_sync ''a'')\<lparr>sy_paused := True\<rparr>) [OnLocal ex_hev 1000 (LocalImage [7])]
   = (ex_sync ''a'')\<lparr>sy_paused := True\<rparr>"
  by (rule paused_sync_is_silent) simp_all

text \<open>
  An image that arrives by the blob path is put on the clipboard even while sync is
  paused or image sync is switched off, and it is not entered in the history.
\<close>

theorem blob_image_ignores_pause:
  assumes "sy_clip st" "sy_paused st \<or> \<not> sy_images st"
  shows "sy_applied (sync_step sha st (OnBlob png)) = sy_applied st @ [ApplyImage png]
    \<and> sy_history (sync_step sha st (OnBlob png)) = sy_history st"
  using assms by (simp add: sync_step_def sync_blob_def)

theorem blob_image_ignores_pause_witness:
  "sy_applied (sync_step (\<lambda>b. b) ((ex_sync ''a'')\<lparr>sy_paused := True\<rparr>) (OnBlob [7])) = [ApplyImage [7]]"
  using blob_image_ignores_pause[of "(ex_sync ''a'')\<lparr>sy_paused := True\<rparr>" "\<lambda>b. b" "[7]"]
  by (simp add: ex_sync_def)

text \<open>
  C26. Outbound rate limit: over any sequence of events, the times at which the loop sends a
  local copy to the peers (inline or as a blob) are at least 300 milliseconds apart, and no
  copy is sent at any other time.
\<close>

theorem sends_are_rate_limited:
  "sorted_wrt (\<lambda>x y. x + 300 \<le> y) (send_times sha es st)
   \<and> (sends sha st (OnLocal ev now c) = [] \<longrightarrow>
        sy_bus (sync_local sha ev now c st) = sy_bus st \<and> sy_blobs (sync_local sha ev now c st) = sy_blobs st)"
proof
  show "sorted_wrt (\<lambda>x y. x + 300 \<le> y) (send_times sha es st)"
  proof (induction es arbitrary: st)
    case (Cons e es)
    have one: "length (sends sha st e) \<le> 1" by (simp add: sends_def split: sync_event.splits)
    have "x + 300 \<le> y" if x: "x \<in> set (sends sha st e)"
      and y: "y \<in> set (send_times sha es (sync_step sha st e))" for x y
      using sends_gap[OF x] send_times_after[OF y] by (simp add: min_gap_def)
    with Cons one show ?case
      by (cases "sends sha st e") (auto simp: sorted_wrt_append)
  qed simp
qed (auto simp: sends_def dest: no_send_same_bus split: if_splits)

theorem sends_are_rate_limited_witness:
  "sy_bus (sync_local (\<lambda>b. b) ex_hev 100 (LocalImage [7]) (ex_sync ''a'')) = sy_bus (ex_sync ''a'')"
proof -
  have "sends (\<lambda>b. b) (ex_sync ''a'') (OnLocal ex_hev 100 (LocalImage [7])) = []"
    by (simp add: sends_def sync_local_def ex_sync_def min_gap_def)
  then show ?thesis
    using sends_are_rate_limited[of "\<lambda>b. b" "[]" "ex_sync ''a''" ex_hev 100 "LocalImage [7]"] by simp
qed

end
