(* ===== verification/Filexfer.thy ===== *)
theory Filexfer
  imports Bus Config "HOL-Library.AList"
begin

text \<open>
  \<open>crates/qdropd/src/filexfer.rs\<close>: blob transfers. The receiving half is a handler on the
  state of the component together with the file system it writes to; the frame router
  calls it for one message at a time. The sending half streams a source as messages.
  What the operating system answers during one call is the argument \<open>env\<close>; SHA-256 is
  the parameter \<open>sha\<close> and its incremental hasher the bytes fed to it so far.
\<close>

section \<open>The file system\<close>

text \<open>
  Directory entries name inodes; an open file is an inode and an offset, so that two
  handles on one inode overwrite each other, as they do on Unix.
\<close>

record fs =
  dirents :: "string \<Rightarrow> nat option"
  inodes :: "nat \<Rightarrow> bytes"
  dirs :: "string list"
  next_ino :: nat

record handle =
  h_ino :: nat
  h_off :: nat

definition fs_exists :: "fs \<Rightarrow> string \<Rightarrow> bool" where
  "fs_exists f p \<longleftrightarrow> dirents f p \<noteq> None \<or> p \<in> set (dirs f)"

definition create_dir_all :: "string \<Rightarrow> fs \<Rightarrow> fs" where
  "create_dir_all d f = f\<lparr>dirs := List.insert d (dirs f)\<rparr>"

text \<open>\<open>File::create\<close> truncates the file a path names, or makes a new one.\<close>

definition file_create :: "string \<Rightarrow> fs \<Rightarrow> handle \<times> fs" where
  "file_create p f =
     (case dirents f p of
        Some i \<Rightarrow> (\<lparr>h_ino = i, h_off = 0\<rparr>, f\<lparr>inodes := (inodes f)(i := [])\<rparr>)
      | None \<Rightarrow> (\<lparr>h_ino = next_ino f, h_off = 0\<rparr>,
                 f\<lparr>dirents := (dirents f)(p \<mapsto> next_ino f), inodes := (inodes f)(next_ino f := []),
                   next_ino := Suc (next_ino f)\<rparr>))"

definition overlay :: "nat \<Rightarrow> bytes \<Rightarrow> bytes \<Rightarrow> bytes" where
  "overlay off d c =
     take off c @ replicate (off - length c) 0 @ d @ drop (off + length d) c"

definition file_write :: "handle \<Rightarrow> bytes \<Rightarrow> fs \<Rightarrow> handle \<times> fs" where
  "file_write h d f =
     (h\<lparr>h_off := h_off h + length d\<rparr>,
      f\<lparr>inodes := (inodes f)(h_ino h := overlay (h_off h) d (inodes f (h_ino h)))\<rparr>)"

definition remove_file :: "string \<Rightarrow> fs \<Rightarrow> fs" where
  "remove_file p f = f\<lparr>dirents := (dirents f)(p := None)\<rparr>"

definition rename_file :: "string \<Rightarrow> string \<Rightarrow> fs \<Rightarrow> fs option" where
  "rename_file p q f =
     (case dirents f p of
        None \<Rightarrow> None
      | Some i \<Rightarrow> Some (f\<lparr>dirents := (dirents f)(p := None, q \<mapsto> i)\<rparr>))"

definition read_file :: "fs \<Rightarrow> string \<Rightarrow> bytes option" where
  "read_file f p = map_option (inodes f) (dirents f p)"

section \<open>State\<close>

definition MAX_MEM_BLOB :: nat where
  "MAX_MEM_BLOB = 64 * 1024 * 1024"

definition MAX_CONCURRENT_INCOMING :: nat where
  "MAX_CONCURRENT_INCOMING = 16"

definition SEND_ATTEMPTS :: nat where
  "SEND_ATTEMPTS = 3"

datatype sink = SinkFile (tmp_path: string) (final_dir: string) (sink_file: handle) | SinkMemory bytes

record incoming =
  inc_name :: string
  inc_sink :: sink
  inc_hasher :: bytes
  inc_written :: u64
  inc_declared :: u64
  inc_peer :: string

text \<open>
  \<open>acks\<close> maps a transfer id to its waiter, \<open>woken\<close> records what the waiters were sent;
  \<open>clip_sink\<close> is the queue of the clipboard subsystem, \<open>posted\<close> the notifications.
\<close>

record filexfer =
  fx_bus :: bus
  download_dir :: string
  confirm :: confirm_policy
  next_id :: u64
  acks :: "u64 \<Rightarrow> nat option"
  woken :: "(nat \<times> bool \<times> string) list"
  fx_incoming :: "((string \<times> u64) \<times> incoming) list"
  clip_sink :: "bytes list option"
  fx_fs :: fs
  posted :: "(string \<times> string) list"

text \<open>
  The answers of the operating system during one call: the registry file, and for each
  system call whether it fails. A failing write may have stored a part of its data, and a
  failing flush reports how many of the bytes written last never reached the file.
\<close>

record env =
  e_reg :: "(load_error, peers) res"
  e_mkdir :: "string option"
  e_create :: "string option"
  e_write :: "nat option"
  e_flush :: "nat option"
  e_rename :: "string option"
  e_remove_fails :: bool

definition filexfer_new :: "config \<Rightarrow> bus \<Rightarrow> string \<Rightarrow> bool \<Rightarrow> fs \<Rightarrow> filexfer" where
  "filexfer_new cfg b dir has_sink f =
    \<lparr>fx_bus = b, download_dir = dir, confirm = require_confirm cfg, next_id = 1,
     acks = Map.empty, woken = [], fx_incoming = [],
     clip_sink = (if has_sink then Some [] else None), fx_fs = f, posted = []\<rparr>"

section \<open>Helpers\<close>

definition needs_confirm :: "(load_error, peers) res \<Rightarrow> confirm_policy \<Rightarrow> string \<Rightarrow> bool" where
  "needs_confirm reg policy pid =
    (case policy of
       Never \<Rightarrow> False
     | Always \<Rightarrow> True
     | Unlisted \<Rightarrow> \<not> (case reg of Inr ps \<Rightarrow> is_authorized ps pid | Inl _ \<Rightarrow> False))"

definition peer_label :: "(load_error, peers) res \<Rightarrow> string \<Rightarrow> string" where
  "peer_label reg d =
    (case (case reg of Inr ps \<Rightarrow> map_option peer_name (find_by_id ps d) | Inl _ \<Rightarrow> None) of
       Some n \<Rightarrow> n
     | None \<Rightarrow> d)"

definition numbered :: "string \<Rightarrow> nat \<Rightarrow> string" where
  "numbered name i =
    (let (stem, ext) = (case rsplit_once (CHR ''.'') name of
           Some (s, e) \<Rightarrow> (s, ''.'' @ e)
         | None \<Rightarrow> (name, []))
     in stem @ '' ('' @ dec_str i @ '')'' @ ext)"

definition unique_dest :: "fs \<Rightarrow> string \<Rightarrow> string \<Rightarrow> string" where
  "unique_dest f dir name =
    (let first = path_join dir name in
     if \<not> fs_exists f first then first
     else (case find (\<lambda>i. \<not> fs_exists f (path_join dir (numbered name i))) [1..<10000] of
        Some i \<Rightarrow> path_join dir (numbered name i)
      | None \<Rightarrow> first))"

definition part_name :: "string \<Rightarrow> u64 \<Rightarrow> string" where
  "part_name safe bid = ''.'' @ safe @ ''.'' @ dec_str (unat bid) @ ''.part''"

definition reject :: "string \<Rightarrow> u64 \<Rightarrow> string \<Rightarrow> filexfer \<Rightarrow> filexfer" where
  "reject pid bid detail fx =
     fx\<lparr>fx_bus := snd (send_to pid (BlobAck bid False detail) (fx_bus fx))\<rparr>"

text \<open>\<open>let _ = fs::remove_file(..)\<close>: a failure leaves the file.\<close>

definition try_remove :: "env \<Rightarrow> string \<Rightarrow> filexfer \<Rightarrow> filexfer" where
  "try_remove env p fx =
     (if e_remove_fails env then fx else fx\<lparr>fx_fs := remove_file p (fx_fs fx)\<rparr>)"

definition cleanup :: "env \<Rightarrow> sink \<Rightarrow> filexfer \<Rightarrow> filexfer" where
  "cleanup env s fx =
     (case s of SinkFile tmp _ _ \<Rightarrow> try_remove env tmp fx | SinkMemory _ \<Rightarrow> fx)"

section \<open>The receiving half\<close>

definition insert_incoming :: "string \<Rightarrow> u64 \<Rightarrow> string \<Rightarrow> sink \<Rightarrow> u64 \<Rightarrow> filexfer \<Rightarrow> filexfer" where
  "insert_incoming pid bid name s sz fx =
     fx\<lparr>fx_incoming := AList.update (pid, bid)
          \<lparr>inc_name = name, inc_sink = s, inc_hasher = [], inc_written = 0, inc_declared = sz,
           inc_peer = pid\<rparr> (fx_incoming fx)\<rparr>"

definition on_start ::
  "env \<Rightarrow> string \<Rightarrow> u64 \<Rightarrow> string \<Rightarrow> u64 \<Rightarrow> blob_purpose \<Rightarrow> filexfer \<Rightarrow> filexfer" where
  "on_start env pid bid name sz purpose fx =
    (if length (fx_incoming fx) \<ge> MAX_CONCURRENT_INCOMING
     then reject pid bid ''too many concurrent transfers'' fx
     else (case purpose of
       ClipboardImage \<Rightarrow>
         if clip_sink fx = None then reject pid bid ''clipboard image sync not available'' fx
         else if unat sz > MAX_MEM_BLOB then reject pid bid ''clipboard image too large'' fx
         else insert_incoming pid bid ''clipboard-image'' (SinkMemory []) sz fx
     | File \<Rightarrow>
         (case safe_blob_name name of
            None \<Rightarrow> reject pid bid ''unsafe filename'' fx
          | Some safe \<Rightarrow>
              let final = (if needs_confirm (e_reg env) (confirm fx) pid
                           then path_join (download_dir fx) ''pending'' else download_dir fx)
              in (case e_mkdir env of
                 Some e \<Rightarrow> reject pid bid (''cannot create download dir: '' @ e) fx
               | None \<Rightarrow>
                   let fx = fx\<lparr>fx_fs := create_dir_all final (fx_fs fx)\<rparr>;
                       tmp = path_join final (part_name safe bid)
                   in (case e_create env of
                      Some e \<Rightarrow> reject pid bid (''cannot create temp file: '' @ e) fx
                    | None \<Rightarrow>
                        let (h, f) = file_create tmp (fx_fs fx)
                        in insert_incoming pid bid safe (SinkFile tmp final h) sz
                             (fx\<lparr>fx_fs := f\<rparr>))))))"

definition on_chunk :: "env \<Rightarrow> string \<Rightarrow> u64 \<Rightarrow> bytes \<Rightarrow> filexfer \<Rightarrow> filexfer" where
  "on_chunk env pid bid data fx =
    (case map_of (fx_incoming fx) (pid, bid) of
       None \<Rightarrow> fx
     | Some inc \<Rightarrow>
         let hashed = (\<lambda>s. inc\<lparr>inc_sink := s, inc_hasher := inc_hasher inc @ data,
                                inc_written := inc_written inc + of_nat (length data)\<rparr>)
         in (case inc_sink inc of
            SinkFile tmp final h \<Rightarrow>
              (case e_write env of
                 Some n \<Rightarrow>
                   let f = snd (file_write h (take n data) (fx_fs fx));
                       fx = fx\<lparr>fx_fs := f, fx_incoming := AList.delete (pid, bid) (fx_incoming fx)\<rparr>
                   in reject pid bid ''write failed'' (try_remove env tmp fx)
               | None \<Rightarrow>
                   let (h', f) = file_write h data (fx_fs fx)
                   in fx\<lparr>fx_fs := f, fx_incoming :=
                         AList.update (pid, bid) (hashed (SinkFile tmp final h')) (fx_incoming fx)\<rparr>)
          | SinkMemory buf \<Rightarrow>
              if length buf + length data > MAX_MEM_BLOB
              then reject pid bid ''clipboard image too large''
                     (fx\<lparr>fx_incoming := AList.delete (pid, bid) (fx_incoming fx)\<rparr>)
              else fx\<lparr>fx_incoming :=
                     AList.update (pid, bid) (hashed (SinkMemory (buf @ data))) (fx_incoming fx)\<rparr>))"

text \<open>\<open>flush\<close> and \<open>sync_all\<close>, whose results the code ignores.\<close>

definition flush_sink :: "env \<Rightarrow> sink \<Rightarrow> fs \<Rightarrow> fs" where
  "flush_sink env s f =
     (case s of
        SinkFile _ _ h \<Rightarrow>
          (case e_flush env of
             None \<Rightarrow> f
           | Some n \<Rightarrow> f\<lparr>inodes := (inodes f)(h_ino h := take (h_off h - n) (inodes f (h_ino h)))\<rparr>)
      | SinkMemory _ \<Rightarrow> f)"

definition accept_memory :: "string \<Rightarrow> u64 \<Rightarrow> bytes \<Rightarrow> filexfer \<Rightarrow> filexfer" where
  "accept_memory pid bid b fx =
    (let fx = fx\<lparr>clip_sink := map_option (\<lambda>q. q @ [b]) (clip_sink fx)\<rparr>
     in fx\<lparr>fx_bus := snd (send_to pid (BlobAck bid True ''clipboard-image'') (fx_bus fx))\<rparr>)"

definition accept_file :: "env \<Rightarrow> string \<Rightarrow> u64 \<Rightarrow> incoming \<Rightarrow> string \<Rightarrow> string \<Rightarrow> filexfer \<Rightarrow> filexfer" where
  "accept_file env pid bid inc tmp final fx =
    (let dest = unique_dest (fx_fs fx) final (inc_name inc)
     in (case (case e_rename env of
            Some e \<Rightarrow> Inl e
          | None \<Rightarrow> (case rename_file tmp dest (fx_fs fx) of
              Some f \<Rightarrow> Inr f
            | None \<Rightarrow> Inl ''No such file or directory (os error 2)'')) of
        Inl e \<Rightarrow> reject pid bid (''rename failed: '' @ e) (try_remove env tmp fx)
      | Inr f \<Rightarrow>
          let fx = fx\<lparr>fx_fs := f,
                fx_bus := snd (send_to pid (BlobAck bid True (inc_name inc)) (fx_bus fx))\<rparr>;
              where_to = (if needs_confirm (e_reg env) (confirm fx) pid
                          then dest @ '' (pending review)'' else dest)
          in fx\<lparr>posted := posted fx @ [(''Received '' @ inc_name inc,
                  ''From a peer '' @ [CHR 0xE2, CHR 0x86, CHR 0x92] @ '' '' @ where_to)]\<rparr>))"

definition on_end :: "(bytes \<Rightarrow> bytes) \<Rightarrow> env \<Rightarrow> string \<Rightarrow> u64 \<Rightarrow> bytes \<Rightarrow> filexfer \<Rightarrow> filexfer" where
  "on_end sha env pid bid sha256 fx =
    (case map_of (fx_incoming fx) (pid, bid) of
       None \<Rightarrow> fx
     | Some inc \<Rightarrow>
         let fx = fx\<lparr>fx_incoming := AList.delete (pid, bid) (fx_incoming fx)\<rparr>;
             fx = fx\<lparr>fx_fs := flush_sink env (inc_sink inc) (fx_fs fx)\<rparr>
         in if sha (inc_hasher inc) \<noteq> sha256
            then reject pid bid ''sha256 mismatch'' (cleanup env (inc_sink inc) fx)
            else if inc_declared inc \<noteq> 0 \<and> inc_written inc \<noteq> inc_declared inc
            then reject pid bid ''size mismatch'' (cleanup env (inc_sink inc) fx)
            else (case inc_sink inc of
              SinkMemory b \<Rightarrow> accept_memory pid bid b fx
            | SinkFile tmp final h \<Rightarrow> accept_file env pid bid inc tmp final fx))"

fun handle_inbound :: "(bytes \<Rightarrow> bytes) \<Rightarrow> env \<Rightarrow> string \<Rightarrow> message \<Rightarrow> filexfer \<Rightarrow> filexfer" where
  "handle_inbound sha env pid (BlobStart bid name sz purpose) fx =
     on_start env pid bid name sz purpose fx"
| "handle_inbound sha env pid (BlobChunk bid data) fx = on_chunk env pid bid data fx"
| "handle_inbound sha env pid (BlobEnd bid sha256) fx = on_end sha env pid bid sha256 fx"
| "handle_inbound sha env pid (BlobAck bid ok detail) fx =
     (case acks fx bid of
        None \<Rightarrow> fx
      | Some w \<Rightarrow> fx\<lparr>acks := (acks fx)(bid := None), woken := woken fx @ [(w, ok, detail)]\<rparr>)"
| "handle_inbound sha env pid _ fx = fx"


text \<open>One event of the router: the answers of the system, the sending peer, its message.\<close>

type_synonym fx_event = "env \<times> string \<times> message"

definition fx_step :: "(bytes \<Rightarrow> bytes) \<Rightarrow> filexfer \<Rightarrow> fx_event \<Rightarrow> filexfer" where
  "fx_step sha fx ev = (case ev of (env, pid, msg) \<Rightarrow> handle_inbound sha env pid msg fx)"

section \<open>Confinement\<close>

text \<open>The entries of the download directory and of its subdirectory \<open>pending\<close>.\<close>

definition drop_dirs :: "string \<Rightarrow> string list" where
  "drop_dirs d = [d, path_join d ''pending'']"

definition confined :: "string \<Rightarrow> string \<Rightarrow> bool" where
  "confined d p \<longleftrightarrow> (\<exists>dir\<in>set (drop_dirs d). \<exists>n. plain_name n \<and> p = path_join dir n)"

definition fs_sep :: "string \<Rightarrow> fs \<Rightarrow> bool" where
  "fs_sep d f \<longleftrightarrow>
     (\<forall>p i. dirents f p = Some i \<longrightarrow> i < next_ino f)
     \<and> (\<forall>p q i. confined d p \<longrightarrow> \<not> confined d q \<longrightarrow> dirents f p = Some i \<longrightarrow> dirents f q \<noteq> Some i)"

definition handle_ok :: "string \<Rightarrow> fs \<Rightarrow> handle \<Rightarrow> bool" where
  "handle_ok d f h \<longleftrightarrow> h_ino h < next_ino f \<and> (\<forall>q. \<not> confined d q \<longrightarrow> dirents f q \<noteq> Some (h_ino h))"

text \<open>\<open>f'\<close> is \<open>f\<close> after changes that stay within the confined paths.\<close>

definition within :: "string \<Rightarrow> fs \<Rightarrow> fs \<Rightarrow> bool" where
  "within d f f' \<longleftrightarrow>
     fs_sep d f' \<and> next_ino f \<le> next_ino f'
     \<and> (\<forall>q. \<not> confined d q \<longrightarrow> dirents f' q = dirents f q \<and> read_file f' q = read_file f q)"

lemma within_refl: "fs_sep d f \<Longrightarrow> within d f f"
  by (simp add: within_def)

lemma within_trans: "within d f g \<Longrightarrow> within d g h \<Longrightarrow> within d f h"
  by (auto simp: within_def)

lemma within_sep: "within d f g \<Longrightarrow> fs_sep d g"
  by (simp add: within_def)

lemma handle_ok_ext: "within d f g \<Longrightarrow> handle_ok d f h \<Longrightarrow> handle_ok d g h"
  by (auto simp: within_def handle_ok_def)

lemma within_dirents:
  assumes sep: "fs_sep d f" and same: "inodes g = inodes f" "next_ino g = next_ino f"
    and out: "\<And>q. \<not> confined d q \<Longrightarrow> dirents g q = dirents f q"
    and ins: "\<And>p i. confined d p \<Longrightarrow> dirents g p = Some i \<Longrightarrow> \<exists>p'. confined d p' \<and> dirents f p' = Some i"
  shows "within d f g"
proof -
  have "i < next_ino g" if "dirents g p = Some i" for p i
    using that sep out ins same unfolding fs_sep_def by metis
  moreover have "dirents g q \<noteq> Some i" if "confined d p" "\<not> confined d q" "dirents g p = Some i" for p q i
    using that sep out ins unfolding fs_sep_def by metis
  ultimately show ?thesis
    unfolding within_def fs_sep_def using same out by (simp add: read_file_def)
qed

lemma ext_mkdir: "fs_sep d f \<Longrightarrow> within d f (create_dir_all x f)"
  by (rule within_dirents) (auto simp: create_dir_all_def)

lemma ext_remove: "fs_sep d f \<Longrightarrow> confined d p \<Longrightarrow> within d f (remove_file p f)"
  by (rule within_dirents) (auto simp: remove_file_def split: if_splits)

lemma ext_rename:
  assumes "fs_sep d f" "confined d p" "confined d q" "rename_file p q f = Some g"
  shows "within d f g"
proof -
  from assms(4) obtain i where i: "dirents f p = Some i" "g = f\<lparr>dirents := (dirents f)(p := None, q \<mapsto> i)\<rparr>"
    by (auto simp: rename_file_def split: option.splits)
  show ?thesis
  proof (rule within_dirents)
    fix p' j assume "confined d p'" "dirents g p' = Some j"
    then show "\<exists>p''. confined d p'' \<and> dirents f p'' = Some j"
      using i assms(2) by (auto split: if_splits)
  qed (use assms i in auto)
qed

lemma ext_inode:
  "fs_sep d f \<Longrightarrow> handle_ok d f h \<Longrightarrow> within d f (f\<lparr>inodes := (inodes f)(h_ino h := c)\<rparr>)"
  by (auto simp: within_def fs_sep_def handle_ok_def read_file_def map_option_case split: option.splits)

lemma ext_write: "fs_sep d f \<Longrightarrow> handle_ok d f h \<Longrightarrow> within d f (snd (file_write h b f))"
  by (simp add: file_write_def ext_inode)

lemma ext_flush:
  "fs_sep d f \<Longrightarrow> (\<And>t x h. s = SinkFile t x h \<Longrightarrow> handle_ok d f h) \<Longrightarrow> within d f (flush_sink env s f)"
  by (auto simp: flush_sink_def within_refl split: sink.splits option.splits intro!: ext_inode)

lemma create_ok:
  assumes "fs_sep d f" "confined d p"
  shows "within d f (snd (file_create p f)) \<and> handle_ok d (snd (file_create p f)) (fst (file_create p f))"
proof (cases "dirents f p")
  case None
  with assms show ?thesis
    by (fastforce simp: file_create_def within_def fs_sep_def handle_ok_def read_file_def
        map_option_case split: option.splits)
next
  case (Some i)
  then have "handle_ok d f \<lparr>h_ino = i, h_off = 0\<rparr>"
    using assms by (auto simp: fs_sep_def handle_ok_def)
  with Some assms ext_inode[of d f "\<lparr>h_ino = i, h_off = 0\<rparr>" "[]"] show ?thesis
    by (simp add: file_create_def handle_ok_ext)
qed

lemma numbered_plain: "plain_name n \<Longrightarrow> plain_name (numbered n i)"
proof -
  assume n: "plain_name n"
  have "CHR ''/'' \<notin> set (dec_str i)"
    using dec_str_digits[of i] by (auto simp: list_all_iff is_ascii_digit_def Let_def)
  moreover have "CHR '' '' \<in> set (numbered n i)"
    by (auto simp: numbered_def Let_def split: option.splits)
  moreover have "CHR '' '' \<notin> set ''.''" "CHR '' '' \<notin> set ''..''" by simp_all
  ultimately show ?thesis
    using n unfolding plain_name_def
    by (auto simp: numbered_def Let_def dest!: rsplit_once_SomeD split: option.splits)
qed

lemma part_name_plain: "plain_name s \<Longrightarrow> plain_name (part_name s i)"
proof -
  assume n: "plain_name s"
  have "CHR ''/'' \<notin> set (dec_str (unat i))"
    using dec_str_digits[of "unat i"] by (auto simp: list_all_iff is_ascii_digit_def Let_def)
  moreover have "CHR ''p'' \<in> set (part_name s i)" by (simp add: part_name_def)
  ultimately show ?thesis
    using n by (auto simp: plain_name_def part_name_def)
qed

lemma unique_dest_confined:
  "plain_name n \<Longrightarrow> dir \<in> set (drop_dirs d) \<Longrightarrow> confined d (unique_dest f dir n)"
  by (auto simp: unique_dest_def Let_def confined_def dest: numbered_plain split: option.splits)

lemma final_dir_mem:
  "(if c then path_join d ''pending'' else d) \<in> set (drop_dirs d)"
  by (simp add: drop_dirs_def)

section \<open>The invariant of the receiving half\<close>

fun sink_ok :: "string \<Rightarrow> fs \<Rightarrow> sink \<Rightarrow> bool" where
  "sink_ok d f (SinkFile tmp final h) \<longleftrightarrow>
     final \<in> set (drop_dirs d) \<and> confined d tmp \<and> handle_ok d f h"
| "sink_ok d f (SinkMemory b) \<longleftrightarrow> length b \<le> MAX_MEM_BLOB"

definition inc_ok :: "string \<Rightarrow> fs \<Rightarrow> incoming \<Rightarrow> bool" where
  "inc_ok d f inc \<longleftrightarrow> plain_name (inc_name inc) \<and> sink_ok d f (inc_sink inc)"

definition fx_inv :: "string \<Rightarrow> fs \<Rightarrow> filexfer \<Rightarrow> bool" where
  "fx_inv d f0 fx \<longleftrightarrow>
     download_dir fx = d \<and> within d f0 (fx_fs fx)
     \<and> (\<forall>(k, inc)\<in>set (fx_incoming fx). inc_ok d (fx_fs fx) inc)
     \<and> distinct (map fst (fx_incoming fx)) \<and> length (fx_incoming fx) \<le> MAX_CONCURRENT_INCOMING"

lemma inc_ok_ext: "within d f g \<Longrightarrow> inc_ok d f inc \<Longrightarrow> inc_ok d g inc"
  by (cases "inc_sink inc") (auto simp: inc_ok_def handle_ok_ext)

lemma length_update_le: "length (AList.update k v al) \<le> Suc (length al)"
  by (induction al) auto

lemma length_update_mem: "map_of al k \<noteq> None \<Longrightarrow> length (AList.update k v al) = length al"
  by (induction al) auto

lemma update_mem: "(k', v') \<in> set (AList.update k v al) \<Longrightarrow> (k', v') \<in> set al \<or> v' = v"
  by (induction al) (auto split: if_splits)

lemma delete_mem: "x \<in> set (AList.delete k al) \<Longrightarrow> x \<in> set al"
  by (auto simp: AList.delete_eq)

lemma length_delete: "length (AList.delete k al) \<le> length al"
  by (simp add: AList.delete_eq)

text \<open>Steps that move the file system along and touch no table entry.\<close>

lemma inv_fs:
  "fx_inv d f0 fx \<Longrightarrow> within d (fx_fs fx) g \<Longrightarrow> fx_inv d f0 (fx\<lparr>fx_fs := g\<rparr>)"
  by (auto simp: fx_inv_def dest: inc_ok_ext within_trans)

lemma inv_bus [simp]: "fx_inv d f0 (fx\<lparr>fx_bus := b\<rparr>) = fx_inv d f0 fx"
  by (simp add: fx_inv_def)

lemma inv_reject [simp]: "fx_inv d f0 (reject pid bid t fx) = fx_inv d f0 fx"
  by (simp add: reject_def)

lemma inv_posted [simp]: "fx_inv d f0 (fx\<lparr>posted := b\<rparr>) = fx_inv d f0 fx"
  by (simp add: fx_inv_def)

lemma inv_sink [simp]: "fx_inv d f0 (fx\<lparr>clip_sink := b\<rparr>) = fx_inv d f0 fx"
  by (simp add: fx_inv_def)

lemma inv_sep: "fx_inv d f0 fx \<Longrightarrow> fs_sep d (fx_fs fx)"
  by (auto simp: fx_inv_def dest: within_sep)

lemma inv_delete:
  "fx_inv d f0 fx \<Longrightarrow> fx_inv d f0 (fx\<lparr>fx_incoming := AList.delete k (fx_incoming fx)\<rparr>)"
  using length_delete[of k "fx_incoming fx"]
  by (auto simp: fx_inv_def distinct_delete dest: delete_mem)

lemma inv_update:
  assumes "fx_inv d f0 fx" "inc_ok d (fx_fs fx) inc"
    and "length (AList.update k inc (fx_incoming fx)) \<le> MAX_CONCURRENT_INCOMING"
  shows "fx_inv d f0 (fx\<lparr>fx_incoming := AList.update k inc (fx_incoming fx)\<rparr>)"
proof -
  have "inc_ok d (fx_fs fx) v" if "(k', v) \<in> set (AList.update k inc (fx_incoming fx))" for k' v
    using update_mem[OF that] assms(1,2) by (auto simp: fx_inv_def)
  then show ?thesis
    using assms by (auto simp: fx_inv_def distinct_update)
qed

lemma inv_lookup:
  "fx_inv d f0 fx \<Longrightarrow> map_of (fx_incoming fx) k = Some inc \<Longrightarrow> inc_ok d (fx_fs fx) inc"
  by (auto simp: fx_inv_def dest!: map_of_SomeD)

lemma inv_try_remove:
  "fx_inv d f0 fx \<Longrightarrow> confined d p \<Longrightarrow> fx_inv d f0 (try_remove env p fx)"
  by (auto simp: try_remove_def intro!: inv_fs ext_remove inv_sep)

lemma inv_cleanup:
  "fx_inv d f0 fx \<Longrightarrow> sink_ok d f s \<Longrightarrow> fx_inv d f0 (cleanup env s fx)"
  by (cases s) (auto simp: cleanup_def intro!: inv_try_remove)

lemma insert_incoming_inv:
  assumes "fx_inv d f0 fx" "plain_name n" "sink_ok d (fx_fs fx) s"
    and "length (fx_incoming fx) < MAX_CONCURRENT_INCOMING"
  shows "fx_inv d f0 (insert_incoming pid bid n s sz fx)"
proof -
  have "length (AList.update k v (fx_incoming fx)) \<le> MAX_CONCURRENT_INCOMING" for k v
    using length_update_le[of k v "fx_incoming fx"] assms(4) by linarith
  then show ?thesis
    unfolding insert_incoming_def using assms by (intro inv_update) (auto simp: inc_ok_def)
qed

lemma start_file_inv:
  assumes "fx_inv d f0 fx" "plain_name safe" "length (fx_incoming fx) < MAX_CONCURRENT_INCOMING"
    and "final \<in> set (drop_dirs d)"
  shows "fx_inv d f0 (case file_create (path_join final (part_name safe bid)) (fx_fs fx) of
           (h, f) \<Rightarrow> insert_incoming pid bid safe (SinkFile (path_join final (part_name safe bid)) final h) sz
                       (fx\<lparr>fx_fs := f\<rparr>))"
proof -
  let ?tmp = "path_join final (part_name safe bid)"
  have c: "confined d ?tmp"
    using assms(2,4) part_name_plain unfolding confined_def by blast
  obtain h f where hf: "file_create ?tmp (fx_fs fx) = (h, f)" by fastforce
  have "within d (fx_fs fx) f" "handle_ok d f h"
    using create_ok[OF inv_sep[OF assms(1)] c] hf by simp_all
  with assms c show ?thesis
    unfolding hf by (auto intro!: insert_incoming_inv inv_fs)
qed

lemma on_start_inv [step_inv]:
  assumes "fx_inv d f0 fx"
  shows "fx_inv d f0 (on_start env pid bid name sz purpose fx)"
proof (cases "length (fx_incoming fx) \<ge> MAX_CONCURRENT_INCOMING")
  case True
  with assms show ?thesis by (simp add: on_start_def)
next
  case False
  have dd: "download_dir fx = d" using assms by (simp add: fx_inv_def)
  show ?thesis
  proof (cases purpose)
    case ClipboardImage
    have "plain_name ''clipboard-image''" by (simp add: plain_name_def)
    with ClipboardImage False assms show ?thesis
      by (auto simp: on_start_def intro!: insert_incoming_inv)
  next
    case File
    show ?thesis
    proof (cases "safe_blob_name name")
      case None
      with False File assms show ?thesis by (simp add: on_start_def)
    next
      case (Some safe)
      have pn: "plain_name safe" using safe_blob_name_SomeD[OF Some] by simp
      define final where "final = (if needs_confirm (e_reg env) (confirm fx) pid
        then path_join d ''pending'' else d)"
      have A: "fx_inv d f0 (fx\<lparr>fx_fs := create_dir_all final (fx_fs fx)\<rparr>)"
        using assms by (auto intro!: inv_fs ext_mkdir inv_sep)
      have m: "final \<in> set (drop_dirs d)" unfolding final_def by (rule final_dir_mem)
      have l: "length (fx_incoming (fx\<lparr>fx_fs := create_dir_all final (fx_fs fx)\<rparr>)) < MAX_CONCURRENT_INCOMING"
        using False by simp
      show ?thesis
        using False File Some assms A start_file_inv[OF A pn l m, of pid bid sz]
        unfolding on_start_def dd final_def[symmetric] by (simp add: Let_def split: option.split)
    qed
  qed
qed

lemma on_chunk_inv [step_inv]:
  assumes "fx_inv d f0 fx"
  shows "fx_inv d f0 (on_chunk env pid bid data fx)"
proof (cases "map_of (fx_incoming fx) (pid, bid)")
  case None
  with assms show ?thesis by (simp add: on_chunk_def)
next
  case (Some inc)
  note ok = inv_lookup[OF assms Some]
  have len: "length (AList.update (pid, bid) v (fx_incoming fx)) \<le> MAX_CONCURRENT_INCOMING" for v
    using assms Some length_update_mem[of "fx_incoming fx" "(pid, bid)" v] by (simp add: fx_inv_def)
  show ?thesis
  proof (cases "inc_sink inc")
    case (SinkMemory buf)
    with ok Some assms len show ?thesis
      by (auto simp: on_chunk_def Let_def inc_ok_def intro!: inv_delete inv_update)
  next
    case (SinkFile tmp final h)
    with ok have h: "handle_ok d (fx_fs fx) h" "confined d tmp" "final \<in> set (drop_dirs d)"
      "plain_name (inc_name inc)"
      by (auto simp: inc_ok_def)
    have w: "within d (fx_fs fx) (snd (file_write h b (fx_fs fx)))" for b
      using h(1) assms by (intro ext_write inv_sep)
    have hw: "handle_ok d (snd (file_write h b (fx_fs fx))) (fst (file_write h b (fx_fs fx)))" for b
      using handle_ok_ext[OF w h(1), of b] by (simp add: file_write_def handle_ok_def)
    have fail: "fx_inv d f0 (fx\<lparr>fx_fs := snd (file_write h b (fx_fs fx)),
        fx_incoming := AList.delete (pid, bid) (fx_incoming fx)\<rparr>)" for b
      using inv_delete[OF inv_fs[OF assms w[of b]], of "(pid, bid)"] by simp
    have go: "fx_inv d f0 (fx\<lparr>fx_fs := snd (file_write h b (fx_fs fx)),
        fx_incoming := AList.update (pid, bid) v (fx_incoming fx)\<rparr>)"
      if "inc_ok d (snd (file_write h b (fx_fs fx))) v" for b v
      using inv_update[OF inv_fs[OF assms w[of b]], of v "(pid, bid)"] that len by simp
    show ?thesis
    proof (cases "e_write env")
      case None
      with Some SinkFile show ?thesis
        using hw[of data] h
        by (auto simp: on_chunk_def Let_def case_prod_beta inc_ok_def intro!: go)
    next
      case (Some n)
      with \<open>map_of (fx_incoming fx) (pid, bid) = Some inc\<close> SinkFile show ?thesis
        using h(2) fail by (auto simp: on_chunk_def Let_def intro!: inv_try_remove)
    qed
  qed
qed

lemma on_end_inv [step_inv]:
  assumes "fx_inv d f0 fx"
  shows "fx_inv d f0 (on_end sha env pid bid h fx)"
proof (cases "map_of (fx_incoming fx) (pid, bid)")
  case None
  with assms show ?thesis by (simp add: on_end_def)
next
  case (Some inc)
  define fx1 where "fx1 = fx\<lparr>fx_incoming := AList.delete (pid, bid) (fx_incoming fx),
    fx_fs := flush_sink env (inc_sink inc) (fx_fs fx)\<rparr>"
  note ok = inv_lookup[OF assms Some]
  have w: "within d (fx_fs fx) (flush_sink env (inc_sink inc) (fx_fs fx))"
    using ok assms by (intro ext_flush inv_sep) (auto simp: inc_ok_def)
  have inv1: "fx_inv d f0 fx1"
    using inv_fs[OF inv_delete[OF assms, of "(pid, bid)"]] w by (simp add: fx1_def)
  have ok1: "inc_ok d (fx_fs fx1) inc" using inc_ok_ext[OF w ok] by (simp add: fx1_def)
  have bad: "fx_inv d f0 (cleanup env (inc_sink inc) fx1)"
    using inv1 ok1 unfolding inc_ok_def by (blast intro: inv_cleanup)
  have eq: "on_end sha env pid bid h fx =
     (if sha (inc_hasher inc) \<noteq> h
      then reject pid bid ''sha256 mismatch'' (cleanup env (inc_sink inc) fx1)
      else if inc_declared inc \<noteq> 0 \<and> inc_written inc \<noteq> inc_declared inc
      then reject pid bid ''size mismatch'' (cleanup env (inc_sink inc) fx1)
      else (case inc_sink inc of
        SinkMemory b \<Rightarrow> accept_memory pid bid b fx1
      | SinkFile tmp final h \<Rightarrow> accept_file env pid bid inc tmp final fx1))"
    by (simp add: on_end_def Some fx1_def Let_def accept_memory_def accept_file_def
        split: sink.splits)
  have "fx_inv d f0 (accept_file env pid bid inc tmp final fx1)"
    if s: "inc_sink inc = SinkFile tmp final fh" for tmp final fh
  proof -
    have c: "confined d tmp" "confined d (unique_dest (fx_fs fx1) final (inc_name inc))"
      using ok1 s by (auto simp: inc_ok_def unique_dest_confined)
    show ?thesis
      using inv1 c ext_rename[OF inv_sep[OF inv1] c]
      by (auto simp: accept_file_def Let_def inv_try_remove split: option.splits sum.splits
          intro!: inv_fs)
  qed
  with bad inv1 show ?thesis
    unfolding eq by (auto simp: accept_memory_def Let_def split: sink.splits)
qed

lemma handle_inbound_inv: "fx_inv d f0 fx \<Longrightarrow> fx_inv d f0 (handle_inbound sha env pid msg fx)"
proof (cases msg)
  case (BlobAck i ok t)
  then show "fx_inv d f0 fx \<Longrightarrow> ?thesis"
    by (auto simp: fx_inv_def split: option.splits)
qed (simp_all add: step_inv)

interpretation fxs: event_system "fx_step sha" "fx_inv d f0"
  for sha d f0
  by unfold_locales (auto simp: fx_step_def handle_inbound_inv split: prod.splits)

section \<open>A transfer from its start to its end\<close>

lemma update_update_same: "AList.update k v (AList.update k w al) = AList.update k v al"
  by (induction al) auto

lemma delete_update_same: "AList.delete k (AList.update k v al) = AList.delete k al"
  by (induction al) auto

definition env_ok :: "env \<Rightarrow> bool" where
  "env_ok env \<longleftrightarrow> e_mkdir env = None \<and> e_create env = None \<and> e_write env = None \<and> e_flush env = None
     \<and> e_rename env = None"

text \<open>The state in the middle of a transfer whose temporary file is the inode \<open>n\<close>.\<close>

definition receiving ::
  "string \<Rightarrow> u64 \<Rightarrow> string \<Rightarrow> string \<Rightarrow> string \<Rightarrow> u64 \<Rightarrow> nat \<Rightarrow> bytes \<Rightarrow> filexfer \<Rightarrow> filexfer" where
  "receiving pid bid safe tmp final sz n data fx =
     fx\<lparr>fx_fs := (fx_fs fx)\<lparr>inodes := (inodes (fx_fs fx))(n := data)\<rparr>,
        fx_incoming := AList.update (pid, bid)
          \<lparr>inc_name = safe, inc_sink = SinkFile tmp final \<lparr>h_ino = n, h_off = length data\<rparr>,
           inc_hasher = data, inc_written = of_nat (length data), inc_declared = sz, inc_peer = pid\<rparr>
          (fx_incoming fx)\<rparr>"

lemma overlay_append: "overlay (length c) d c = c @ d"
  by (simp add: overlay_def)

lemma map_of_update_same [simp]: "map_of (AList.update k v al) k = Some v"
  by (simp add: update_conv)

lemma on_chunk_receiving:
  "e_write env = None \<Longrightarrow>
     on_chunk env pid bid d (receiving pid bid safe tmp final sz n data fx)
     = receiving pid bid safe tmp final sz n (data @ d) fx"
  by (simp add: on_chunk_def receiving_def file_write_def overlay_append update_update_same Let_def)

definition chunk_events :: "string \<Rightarrow> u64 \<Rightarrow> (env \<times> bytes) list \<Rightarrow> fx_event list" where
  "chunk_events pid bid cs = map (\<lambda>(env, d). (env, pid, BlobChunk bid d)) cs"

lemma chunks_receiving:
  "list_all (\<lambda>c. e_write (fst c) = None) cs \<Longrightarrow>
     foldl (fx_step sha) (receiving pid bid safe tmp final sz n data fx) (chunk_events pid bid cs)
     = receiving pid bid safe tmp final sz n (data @ concat (map snd cs)) fx"
proof (induction cs arbitrary: data)
  case Nil
  then show ?case by (simp add: chunk_events_def)
next
  case (Cons c cs)
  obtain env d where c: "c = (env, d)" by fastforce
  have "foldl (fx_step sha) (receiving pid bid safe tmp final sz n data fx) (chunk_events pid bid (c # cs))
      = foldl (fx_step sha) (receiving pid bid safe tmp final sz n (data @ d) fx) (chunk_events pid bid cs)"
    using Cons.prems c by (simp add: chunk_events_def fx_step_def on_chunk_receiving)
  also have "\<dots> = receiving pid bid safe tmp final sz n ((data @ d) @ concat (map snd cs)) fx"
    using Cons by simp
  finally show ?case by (simp add: c)
qed

text \<open>Where a file from a peer goes, and the temporary file it is first written to.\<close>

definition dest_dir :: "env \<Rightarrow> string \<Rightarrow> filexfer \<Rightarrow> string" where
  "dest_dir env pid fx =
     (if needs_confirm (e_reg env) (confirm fx) pid then path_join (download_dir fx) ''pending''
      else download_dir fx)"

definition started :: "string \<Rightarrow> string \<Rightarrow> filexfer \<Rightarrow> filexfer" where
  "started final tmp fx =
     fx\<lparr>fx_fs := snd (file_create tmp (create_dir_all final (fx_fs fx)))\<rparr>"

lemma on_start_receiving:
  assumes "length (fx_incoming fx) < MAX_CONCURRENT_INCOMING" "safe_blob_name name = Some safe"
    and "e_mkdir env = None" "e_create env = None"
    and "dirents (fx_fs fx) (path_join (dest_dir env pid fx) (part_name safe bid)) = None"
  shows "on_start env pid bid name sz File fx
    = receiving pid bid safe (path_join (dest_dir env pid fx) (part_name safe bid)) (dest_dir env pid fx)
        sz (next_ino (fx_fs fx)) []
        (started (dest_dir env pid fx) (path_join (dest_dir env pid fx) (part_name safe bid)) fx)"
  using assms
  by (simp add: on_start_def Let_def dest_dir_def[symmetric] file_create_def create_dir_all_def
      receiving_def started_def insert_incoming_def)

text \<open>What is left after an accepted end: the temporary file renamed, the entry gone.\<close>

lemma on_end_receiving:
  assumes "sz = 0 \<or> sz = of_nat (length data)" "e_rename env = None"
    and "dirents (fx_fs fx) tmp = Some n"
    and f_def: "f = flush_sink env (SinkFile tmp final \<lparr>h_ino = n, h_off = length data\<rparr>)
                 ((fx_fs fx)\<lparr>inodes := (inodes (fx_fs fx))(n := data)\<rparr>)"
  shows "\<exists>note. on_end sha env pid bid (sha data) (receiving pid bid safe tmp final sz n data fx)
    = fx\<lparr>fx_incoming := AList.delete (pid, bid) (fx_incoming fx),
         fx_fs := f\<lparr>dirents := (dirents (fx_fs fx))(tmp := None, unique_dest f final safe \<mapsto> n)\<rparr>,
         fx_bus := snd (send_to pid (BlobAck bid True safe) (fx_bus fx)),
         posted := posted fx @ [note]\<rparr>"
proof -
  have d: "dirents f = dirents (fx_fs fx)"
    by (simp add: f_def flush_sink_def split: option.splits)
  show ?thesis
    using assms(1-3)
    by (auto simp: on_end_def receiving_def Let_def delete_update_same accept_file_def rename_file_def
        f_def[symmetric] d)
qed

lemma unique_dest_exists:
  "fs_exists f (unique_dest f dir name) \<longleftrightarrow>
     fs_exists f (path_join dir name)
     \<and> list_all (\<lambda>i. fs_exists f (path_join dir (numbered name i))) [1..<10000]"
proof (cases "fs_exists f (path_join dir name)")
  case False
  then show ?thesis by (simp add: unique_dest_def)
next
  case True
  let ?P = "\<lambda>i. \<not> fs_exists f (path_join dir (numbered name i))"
  have u: "unique_dest f dir name = (case find ?P [1..<10000] of
      Some i \<Rightarrow> path_join dir (numbered name i) | None \<Rightarrow> path_join dir name)"
    using True by (simp add: unique_dest_def)
  show ?thesis
  proof (cases "find ?P [1..<10000]")
    case None
    then have "list_all (\<lambda>i. fs_exists f (path_join dir (numbered name i))) [1..<10000]"
      unfolding find_None_iff_all list_all_iff by blast
    with True show ?thesis unfolding u None by simp
  next
    case (Some i)
    then have "i \<in> set [1..<10000]" "?P i" by (metis find_SomeD)+
    then show ?thesis unfolding u Some list_all_iff by auto
  qed
qed

lemma unique_dest_cong:
  assumes "\<And>n. n = name \<or> (\<exists>i. n = numbered name i) \<Longrightarrow>
             fs_exists f (path_join dir n) = fs_exists g (path_join dir n)"
  shows "unique_dest f dir name = unique_dest g dir name"
proof -
  have "(\<lambda>i. \<not> fs_exists f (path_join dir (numbered name i)))
      = (\<lambda>i. \<not> fs_exists g (path_join dir (numbered name i)))"
    using assms by blast
  moreover have "fs_exists f (path_join dir name) = fs_exists g (path_join dir name)"
    using assms by blast
  ultimately show ?thesis by (simp only: unique_dest_def Let_def)
qed

lemma unique_dest_name:
  "\<exists>m. (m = n \<or> (\<exists>i. m = numbered n i)) \<and> unique_dest f dir n = path_join dir m"
  by (auto simp: unique_dest_def Let_def split: option.splits)

lemma last_dec_str: "last (dec_str n) \<noteq> CHR '')''"
proof -
  have "is_ascii_digit (last (dec_str n))"
    using dec_str_digits[of n] last_in_set[OF dec_str_ne] by (auto simp: list_all_iff)
  moreover have "\<not> is_ascii_digit (CHR '')'')" by (simp add: is_ascii_digit_def)
  ultimately show ?thesis by metis
qed

text \<open>No final name is a temporary name of the same file.\<close>

lemma numbered_not_part: "numbered name i \<noteq> part_name name bid"
proof
  assume eq: "numbered name i = part_name name bid"
  have p: "rsplit_once (CHR ''.'') (part_name name bid) = Some (''.'' @ name @ ''.'' @ dec_str (unat bid), ''part'')"
    using rsplit_once_append[of "CHR ''.''" "''part''" "''.'' @ name @ ''.'' @ dec_str (unat bid)"]
    by (simp add: part_name_def)
  show False
  proof (cases "rsplit_once (CHR ''.'') name")
    case None
    then have "last (numbered name i) = CHR '')''" by (simp add: numbered_def)
    moreover have "last (part_name name bid) = CHR ''t''" by (simp add: part_name_def)
    ultimately show False using eq by simp
  next
    case (Some se)
    obtain st e where se: "se = (st, e)" by fastforce
    with Some have "CHR ''.'' \<notin> set e" by (auto dest: rsplit_once_SomeD)
    then have "rsplit_once (CHR ''.'') (numbered name i) = Some (st @ '' ('' @ dec_str i @ '')'', e)"
      using rsplit_once_append[of "CHR ''.''" e "st @ '' ('' @ dec_str i @ '')''"] Some se
      by (simp add: numbered_def)
    with p eq have "st @ '' ('' @ dec_str i @ '')'' = ''.'' @ name @ ''.'' @ dec_str (unat bid)"
      by simp
    then have "last (dec_str (unat bid)) = CHR '')''"
      by (metis append_is_Nil_conv dec_str_ne last_appendR last_snoc append.assoc)
    then show False using last_dec_str by blast
  qed
qed

lemma name_not_part: "name \<noteq> part_name name bid"
proof
  assume "name = part_name name bid"
  then have "length name = length (part_name name bid)" by simp
  then show False by (simp add: part_name_def)
qed

lemma path_join_not_dir: "plain_name n \<Longrightarrow> path_join d n \<noteq> d"
  by (auto simp: path_join_def plain_name_def take_Suc neq_Nil_conv)

lemma started_same_dest:
  assumes "plain_name safe" "\<not> fs_exists (fx_fs fx) (path_join dir (part_name safe bid))"
    and "f = (fx_fs (started dir (path_join dir (part_name safe bid)) fx))\<lparr>inodes := c\<rparr>"
  shows "unique_dest f dir safe = unique_dest (fx_fs fx) dir safe"
proof (rule unique_dest_cong)
  fix n assume n: "n = safe \<or> (\<exists>i. n = numbered safe i)"
  then have "plain_name n" using assms(1) numbered_plain by blast
  moreover have "n \<noteq> part_name safe bid" using n numbered_not_part name_not_part by metis
  ultimately have "path_join dir n \<noteq> path_join dir (part_name safe bid)" "path_join dir n \<noteq> dir"
    using path_join_inject part_name_plain[OF assms(1)] path_join_not_dir by blast+
  then show "fs_exists f (path_join dir n) = fs_exists (fx_fs fx) (path_join dir n)"
    using assms(2,3)
    by (auto simp: fs_exists_def started_def file_create_def create_dir_all_def split: option.splits)
qed

definition transfer_events ::
  "(bytes \<Rightarrow> bytes) \<Rightarrow> env \<Rightarrow> string \<Rightarrow> u64 \<Rightarrow> string \<Rightarrow> u64 \<Rightarrow> (env \<times> bytes) list \<Rightarrow> env \<Rightarrow> fx_event list" where
  "transfer_events sha env pid bid name sz cs env' =
     (env, pid, BlobStart bid name sz File) # chunk_events pid bid cs
     @ [(env', pid, BlobEnd bid (sha (concat (map snd cs))))]"

text \<open>What a transfer leaves in the file: everything, or less when the last flush failed.\<close>

definition stored :: "env \<Rightarrow> bytes \<Rightarrow> bytes" where
  "stored env data = (case e_flush env of None \<Rightarrow> data | Some k \<Rightarrow> take (length data - k) data)"

lemma transfer_stored:
  assumes "length (fx_incoming fx) < MAX_CONCURRENT_INCOMING" "safe_blob_name name = Some safe"
    and "env_ok env" "list_all (\<lambda>c. env_ok (fst c)) cs" "e_rename env' = None"
    and "dir = dest_dir env pid fx" "data = concat (map snd cs)"
    and "\<not> fs_exists (fx_fs fx) (path_join dir (part_name safe bid))"
    and "dest = unique_dest (fx_fs fx) dir safe" "\<not> fs_exists (fx_fs fx) dest"
    and "sz = 0 \<or> sz = of_nat (length data)"
    and "fx' = foldl (fx_step sha) fx (transfer_events sha env pid bid name sz cs env')"
  shows "(\<exists>n. plain_name n \<and> dest = path_join dir n)
    \<and> read_file (fx_fs fx') dest = Some (stored env' data)
    \<and> dirents (fx_fs fx') = (dirents (fx_fs fx))(dest \<mapsto> next_ino (fx_fs fx))
    \<and> fx_incoming fx' = AList.delete (pid, bid) (fx_incoming fx)
    \<and> fx_bus fx' = snd (send_to pid (BlobAck bid True safe) (fx_bus fx))"
proof -
  let ?tmp = "path_join dir (part_name safe bid)"
  let ?n = "next_ino (fx_fs fx)"
  let ?fx1 = "started dir ?tmp fx"
  have safe: "plain_name safe" using safe_blob_name_SomeD[OF assms(2)] by simp
  have t: "dirents (fx_fs fx) ?tmp = None" using assms(8) by (simp add: fs_exists_def)
  have ds: "dirents (fx_fs ?fx1) = (dirents (fx_fs fx))(?tmp \<mapsto> ?n)"
    using t by (simp add: started_def file_create_def create_dir_all_def)
  have "list_all (\<lambda>c. e_write (fst c) = None) cs"
    using assms(4) by (auto simp: list_all_iff env_ok_def)
  then have fx': "fx' = on_end sha env' pid bid (sha data) (receiving pid bid safe ?tmp dir sz ?n data ?fx1)"
    using assms(1-3,6-8) t on_start_receiving[of fx name safe env pid bid sz]
      chunks_receiving[of cs sha pid bid safe ?tmp dir sz ?n "[]" ?fx1]
    by (simp add: assms(12) transfer_events_def fx_step_def env_ok_def)
  define f where "f = flush_sink env' (SinkFile ?tmp dir \<lparr>h_ino = ?n, h_off = length data\<rparr>)
                 ((fx_fs ?fx1)\<lparr>inodes := (inodes (fx_fs ?fx1))(?n := data)\<rparr>)"
  have f: "f = (fx_fs ?fx1)\<lparr>inodes := (inodes (fx_fs ?fx1))(?n := stored env' data)\<rparr>"
    by (simp add: f_def flush_sink_def stored_def split: option.splits)
  have u: "unique_dest f dir safe = dest"
    using started_same_dest[OF safe assms(8) f] assms(9) by simp
  obtain m where m: "m = safe \<or> (\<exists>i. m = numbered safe i)" "dest = path_join dir m"
    using unique_dest_name assms(9) by blast
  then have pm: "plain_name m" "m \<noteq> part_name safe bid"
    using safe numbered_plain numbered_not_part name_not_part by metis+
  then have ne: "dest \<noteq> ?tmp"
    using m(2) path_join_inject part_name_plain[OF safe] by blast
  have tmp1: "dirents (fx_fs ?fx1) ?tmp = Some ?n" by (simp add: ds)
  obtain nt where fin: "fx' = ?fx1\<lparr>fx_incoming := AList.delete (pid, bid) (fx_incoming ?fx1),
         fx_fs := f\<lparr>dirents := (dirents (fx_fs ?fx1))(?tmp := None, dest \<mapsto> ?n)\<rparr>,
         fx_bus := snd (send_to pid (BlobAck bid True safe) (fx_bus ?fx1)),
         posted := posted ?fx1 @ [nt]\<rparr>"
    using on_end_receiving[OF assms(11,5) tmp1 f_def, of sha pid bid safe] fx' u by auto
  have "dirents (fx_fs fx') = (dirents (fx_fs fx))(dest \<mapsto> ?n)"
    using t ne by (auto simp: fin ds)
  moreover have "read_file (fx_fs fx') dest = Some (stored env' data)"
    by (simp add: fin read_file_def f)
  moreover have "fx_incoming ?fx1 = fx_incoming fx" "fx_bus ?fx1 = fx_bus fx"
    by (simp_all add: started_def)
  ultimately show ?thesis
    using m(2) pm(1) by (auto simp: fin)
qed

lemma confined_prefix:
  "confined d p \<Longrightarrow> d \<noteq> [] \<Longrightarrow> last d \<noteq> CHR ''/'' \<Longrightarrow> starts_with p (d @ ''/'')"
  by (auto simp: confined_def drop_dirs_def path_join_def starts_with_def plain_name_def
      neq_Nil_conv split: if_splits)

section \<open>Limits\<close>

definition fx_limits :: "filexfer \<Rightarrow> bool" where
  "fx_limits fx \<longleftrightarrow>
     length (fx_incoming fx) \<le> MAX_CONCURRENT_INCOMING
     \<and> list_all (\<lambda>(k, inc). case inc_sink inc of SinkMemory b \<Rightarrow> length b \<le> MAX_MEM_BLOB | _ \<Rightarrow> True)
         (fx_incoming fx)"

definition mem_ok :: "incoming \<Rightarrow> bool" where
  "mem_ok inc \<longleftrightarrow> (case inc_sink inc of SinkMemory b \<Rightarrow> length b \<le> MAX_MEM_BLOB | _ \<Rightarrow> True)"

lemma fx_limits_mem:
  "fx_limits fx \<longleftrightarrow> length (fx_incoming fx) \<le> MAX_CONCURRENT_INCOMING
     \<and> (\<forall>(k, inc)\<in>set (fx_incoming fx). mem_ok inc)"
  by (auto simp: fx_limits_def mem_ok_def list_all_iff)

lemma limits_delete:
  "fx_limits fx \<Longrightarrow> fx_incoming fx' = AList.delete k (fx_incoming fx) \<Longrightarrow> fx_limits fx'"
  using length_delete[of k "fx_incoming fx"] by (auto simp: fx_limits_mem dest: delete_mem)

lemma incoming_reject [simp]: "fx_incoming (reject pid bid t fx) = fx_incoming fx"
  by (simp add: reject_def)

lemma incoming_cleanup [simp]: "fx_incoming (cleanup env s fx) = fx_incoming fx"
  by (simp add: cleanup_def try_remove_def split: sink.splits)

lemma incoming_try_remove [simp]: "fx_incoming (try_remove env p fx) = fx_incoming fx"
  by (simp add: try_remove_def)

lemma incoming_accept [simp]:
  "fx_incoming (accept_file env pid bid inc tmp final fx) = fx_incoming fx"
  "fx_incoming (accept_memory pid bid b fx) = fx_incoming fx"
  by (simp_all add: accept_file_def accept_memory_def Let_def split: option.splits sum.splits)

lemma delete_no_key: "map_of al k = None \<Longrightarrow> AList.delete k al = al"
  by (induction al) (auto split: if_splits)

text \<open>The table with an entry of bounded memory stored under a key.\<close>

definition puts ::
  "(string \<times> u64) \<Rightarrow> ((string \<times> u64) \<times> incoming) list \<Rightarrow> ((string \<times> u64) \<times> incoming) list \<Rightarrow> bool" where
  "puts k al al' \<longleftrightarrow> (\<exists>inc. mem_ok inc \<and> al' = AList.update k inc al)"

lemma putsI: "mem_ok inc \<Longrightarrow> puts k al (AList.update k inc al)"
  by (auto simp: puts_def)

lemma on_end_incoming:
  "fx_incoming (on_end sha env pid bid h fx) = AList.delete (pid, bid) (fx_incoming fx)"
proof (cases "map_of (fx_incoming fx) (pid, bid)")
  case None
  then show ?thesis
    by (simp add: on_end_def delete_no_key)
next
  case (Some inc)
  then show ?thesis by (simp add: on_end_def Let_def split: sink.splits)
qed

lemma on_start_incoming:
  "fx_incoming (on_start env pid bid name sz purpose fx) = fx_incoming fx
   \<or> length (fx_incoming fx) < MAX_CONCURRENT_INCOMING
     \<and> puts (pid, bid) (fx_incoming fx) (fx_incoming (on_start env pid bid name sz purpose fx))"
  by (auto simp: on_start_def insert_incoming_def Let_def mem_ok_def intro!: putsI
      split: blob_purpose.splits option.splits prod.splits)

lemma on_chunk_incoming:
  "fx_incoming (on_chunk env pid bid data fx) = fx_incoming fx
   \<or> fx_incoming (on_chunk env pid bid data fx) = AList.delete (pid, bid) (fx_incoming fx)
   \<or> map_of (fx_incoming fx) (pid, bid) \<noteq> None
     \<and> puts (pid, bid) (fx_incoming fx) (fx_incoming (on_chunk env pid bid data fx))"
proof (cases "map_of (fx_incoming fx) (pid, bid)")
  case None
  then show ?thesis by (simp add: on_chunk_def)
next
  case (Some inc)
  then show ?thesis
    by (cases "inc_sink inc"; cases "e_write env")
      (auto simp: on_chunk_def Let_def mem_ok_def file_write_def intro!: putsI)
qed

lemma limits_update:
  assumes "fx_limits fx" "puts k (fx_incoming fx) (fx_incoming fx')"
    and "length (fx_incoming fx) < MAX_CONCURRENT_INCOMING \<or> map_of (fx_incoming fx) k \<noteq> None"
  shows "fx_limits fx'"
proof -
  from assms(2) obtain inc where inc: "mem_ok inc" "fx_incoming fx' = AList.update k inc (fx_incoming fx)"
    by (auto simp: puts_def)
  have "mem_ok v" if "(k', v) \<in> set (AList.update k inc (fx_incoming fx))" for k' v
    using update_mem[OF that] assms(1) inc(1) by (auto simp: fx_limits_mem)
  moreover have "length (AList.update k inc (fx_incoming fx)) \<le> MAX_CONCURRENT_INCOMING"
    using assms(1,3) length_update_le[of k inc "fx_incoming fx"]
      length_update_mem[of "fx_incoming fx" k inc] by (auto simp: fx_limits_mem)
  ultimately show ?thesis using inc(2) by (auto simp: fx_limits_mem)
qed

lemma handle_inbound_limits: "fx_limits fx \<Longrightarrow> fx_limits (handle_inbound sha env pid msg fx)"
proof (cases msg)
  case (BlobStart i n z p)
  assume "fx_limits fx"
  with on_start_incoming[of env pid i n z p fx] BlobStart show ?thesis
    by (metis fx_limits_mem handle_inbound.simps(1) limits_update)
next
  case (BlobChunk i c)
  assume "fx_limits fx"
  with on_chunk_incoming[of env pid i c fx] BlobChunk show ?thesis
    by (metis fx_limits_mem handle_inbound.simps(2) limits_update limits_delete)
next
  case (BlobEnd i h)
  assume "fx_limits fx"
  with on_end_incoming BlobEnd show ?thesis by (metis handle_inbound.simps(3) limits_delete)
qed (auto simp: fx_limits_mem split: option.splits)

interpretation fxl: event_system "fx_step sha" fx_limits
  for sha
  by unfold_locales (auto simp: fx_step_def handle_inbound_limits split: prod.splits)

end
