(* ===== verification/Filexfer_Props.thy ===== *)
theory Filexfer_Props
  imports Filexfer
begin

text \<open>
  Properties of the receiving half of \<open>filexfer.rs\<close>: confinement, exactness of accepted
  transfers, rejection of damaged ones, limits, and what the code leaves open.
\<close>

section \<open>An example state\<close>

definition ex_env :: env where
  "ex_env = \<lparr>e_reg = Inr [], e_mkdir = None, e_create = None, e_write = None, e_flush = None,
     e_rename = None, e_remove_fails = False\<rparr>"

definition ex_fx :: filexfer where
  "ex_fx = \<lparr>fx_bus = \<lparr>links = [(''a'', 0), (''b'', 1)], chans = (\<lambda>_. \<lparr>queue = [], cap = 64, closed = False\<rparr>)\<rparr>,
     download_dir = ''/dl'', confirm = Unlisted, next_id = 1, acks = (\<lambda>_. None), woken = [],
     fx_incoming = [], clip_sink = Some [],
     fx_fs = \<lparr>dirents = [''/etc/passwd'' \<mapsto> 0], inodes = (\<lambda>_. [1, 2]), dirs = [], next_ino = 1\<rparr>,
     posted = []\<rparr>"

definition ex_sha :: "bytes \<Rightarrow> bytes" where
  "ex_sha b = take 32 (b @ replicate 32 0)"

lemma ex_not_confined: "\<not> confined ''/dl'' ''/etc/passwd''"
  using confined_prefix[of "''/dl''" "''/etc/passwd''"] by (auto simp: starts_with_def)

lemma ex_sep: "fs_sep ''/dl'' (fx_fs ex_fx)"
  using ex_not_confined by (auto simp: fs_sep_def ex_fx_def split: if_splits)

section \<open>Properties\<close>

text \<open>
  Whatever sequence of messages the peers send, and whatever the system calls answer,
  every file outside the download directory and its subdirectory \<open>pending\<close> keeps its
  directory entry and its content (on a file system where no outside path is a hard link to
  a file inside).
\<close>

theorem transfers_stay_in_the_download_dir:
  assumes "fx_incoming fx = []" "fs_sep (download_dir fx) (fx_fs fx)" "\<not> confined (download_dir fx) q"
  shows "dirents (fx_fs (foldl (fx_step sha) fx evs)) q = dirents (fx_fs fx) q
    \<and> read_file (fx_fs (foldl (fx_step sha) fx evs)) q = read_file (fx_fs fx) q"
proof -
  have "fx_inv (download_dir fx) (fx_fs fx) fx"
    using assms by (simp add: fx_inv_def within_refl)
  then have "fx_inv (download_dir fx) (fx_fs fx) (foldl (fx_step sha) fx evs)"
    by (rule fxs.run_keeps)
  with assms(3) show ?thesis by (simp add: fx_inv_def within_def)
qed

theorem transfers_stay_in_the_download_dir_witness:
  "read_file (fx_fs (foldl (fx_step ex_sha) ex_fx [(ex_env, ''a'', BlobStart 1 ''../etc/passwd'' 3 File)]))
     ''/etc/passwd'' = Some [1, 2]"
proof -
  have i: "fx_incoming ex_fx = []" "download_dir ex_fx = ''/dl''" by (simp_all add: ex_fx_def)
  have "read_file (fx_fs ex_fx) ''/etc/passwd'' = Some [1, 2]" by (simp add: ex_fx_def read_file_def)
  then show ?thesis
    using transfers_stay_in_the_download_dir[of ex_fx "''/etc/passwd''" ex_sha
        "[(ex_env, ''a'', BlobStart 1 ''../etc/passwd'' 3 File)]"] ex_sep ex_not_confined
    unfolding i by simp
qed

text \<open>
  A received file is exact: when a peer's start, chunks and end arrive, the system calls
  succeed, the announced hash is that of the chunks and the announced size is zero or their
  length, then the file appears under a name that was free (unless ten thousand variants of
  it are taken), in the directory the confirmation policy asks for, with exactly the bytes
  sent; the temporary file and the table entry are gone, every other directory entry is as
  before, and the peer is sent a positive acknowledgement.
\<close>

theorem received_file_is_exact:
  assumes "length (fx_incoming fx) < MAX_CONCURRENT_INCOMING" "safe_blob_name name = Some safe"
    and "env_ok env" "list_all (\<lambda>c. env_ok (fst c)) cs" "env_ok env'"
    and "dir = dest_dir env pid fx" "data = concat (map snd cs)"
    and "\<not> fs_exists (fx_fs fx) (path_join dir (part_name safe bid))"
    and "dest = unique_dest (fx_fs fx) dir safe" "\<not> fs_exists (fx_fs fx) dest"
    and "sz = 0 \<or> sz = of_nat (length data)"
    and "fx' = foldl (fx_step sha) fx (transfer_events sha env pid bid name sz cs env')"
  shows "(\<exists>n. plain_name n \<and> dest = path_join dir n)
    \<and> read_file (fx_fs fx') dest = Some data
    \<and> dirents (fx_fs fx') = (dirents (fx_fs fx))(dest \<mapsto> next_ino (fx_fs fx))
    \<and> fx_incoming fx' = AList.delete (pid, bid) (fx_incoming fx)
    \<and> fx_bus fx' = snd (send_to pid (BlobAck bid True safe) (fx_bus fx))"
  using transfer_stored[OF assms(1-4) _ assms(6-12)] assms(5) by (simp add: env_ok_def stored_def)

lemma ex_safe: "safe_blob_name ''a.txt'' = Some ''a.txt''"
  by (rule safe_blob_name_complete) (simp_all add: plain_name_def trim_def chars_ascii ws_item_def is_whitespace_def)

theorem received_file_is_exact_witness:
  "read_file (fx_fs (foldl (fx_step ex_sha) ex_fx
     (transfer_events ex_sha ex_env ''a'' 1 ''a.txt'' 3 [(ex_env, [7, 8]), (ex_env, [9])] ex_env)))
     ''/dl/pending/a.txt'' = Some [7, 8, 9]"
proof -
  have d: "dest_dir ex_env ''a'' ex_fx = ''/dl/pending''"
    by (simp add: dest_dir_def ex_fx_def ex_env_def needs_confirm_def is_authorized_def find_by_id_def
        path_join_def)
  have u: "unique_dest (fx_fs ex_fx) ''/dl/pending'' ''a.txt'' = ''/dl/pending/a.txt''"
    by (simp add: unique_dest_def ex_fx_def fs_exists_def path_join_def)
  show ?thesis
    using received_file_is_exact[of ex_fx "''a.txt''" "''a.txt''" ex_env
        "[(ex_env, [7, 8]), (ex_env, [9])]" ex_env "''/dl/pending''" "''a''" "[7, 8, 9]" 1
        "''/dl/pending/a.txt''" 3] d u ex_safe
    by (simp add: env_ok_def ex_env_def ex_fx_def MAX_CONCURRENT_INCOMING_def fs_exists_def path_join_def
        part_name_def)
qed

text \<open>
  An error of the final flush is ignored: with everything else as above but the last
  \<open>k\<close> bytes lost by a failing \<open>flush\<close>, the truncated file is renamed into place and
  the peer is still sent a positive acknowledgement.
\<close>

theorem failed_flush_is_acknowledged:
  assumes "length (fx_incoming fx) < MAX_CONCURRENT_INCOMING" "safe_blob_name name = Some safe"
    and "env_ok env" "list_all (\<lambda>c. env_ok (fst c)) cs" "e_rename env' = None" "e_flush env' = Some k"
    and "dir = dest_dir env pid fx" "data = concat (map snd cs)"
    and "\<not> fs_exists (fx_fs fx) (path_join dir (part_name safe bid))"
    and "dest = unique_dest (fx_fs fx) dir safe" "\<not> fs_exists (fx_fs fx) dest"
    and "sz = 0 \<or> sz = of_nat (length data)"
    and "fx' = foldl (fx_step sha) fx (transfer_events sha env pid bid name sz cs env')"
  shows "read_file (fx_fs fx') dest = Some (take (length data - k) data)
    \<and> fx_bus fx' = snd (send_to pid (BlobAck bid True safe) (fx_bus fx))"
  using transfer_stored[OF assms(1-5,7-13)] assms(6) by (simp add: stored_def)

theorem failed_flush_is_acknowledged_witness:
  "read_file (fx_fs (foldl (fx_step ex_sha) ex_fx
     (transfer_events ex_sha ex_env ''a'' 1 ''a.txt'' 3 [(ex_env, [7, 8, 9])] (ex_env\<lparr>e_flush := Some 2\<rparr>))))
     ''/dl/pending/a.txt'' = Some [7]"
proof -
  have d: "dest_dir ex_env ''a'' ex_fx = ''/dl/pending''"
    by (simp add: dest_dir_def ex_fx_def ex_env_def needs_confirm_def is_authorized_def find_by_id_def
        path_join_def)
  have u: "unique_dest (fx_fs ex_fx) ''/dl/pending'' ''a.txt'' = ''/dl/pending/a.txt''"
    by (simp add: unique_dest_def ex_fx_def fs_exists_def path_join_def)
  show ?thesis
    using failed_flush_is_acknowledged[of ex_fx "''a.txt''" "''a.txt''" ex_env
        "[(ex_env, [7, 8, 9])]" "ex_env\<lparr>e_flush := Some 2\<rparr>" 2 "''/dl/pending''" "''a''" "[7, 8, 9]" 1
        "''/dl/pending/a.txt''" 3] d u ex_safe
    by (simp add: env_ok_def ex_env_def ex_fx_def MAX_CONCURRENT_INCOMING_def fs_exists_def path_join_def
        part_name_def)
qed

text \<open>
  The memory and the table of incoming transfers are bounded: whatever messages arrive,
  at most sixteen transfers are open and each clipboard image buffered is at most 64 MiB.
\<close>

theorem incoming_transfers_are_bounded:
  assumes "fx_incoming fx = []"
  shows "length (fx_incoming (foldl (fx_step sha) fx evs)) \<le> 16
    \<and> list_all (\<lambda>(k, inc). case inc_sink inc of SinkMemory b \<Rightarrow> length b \<le> 64 * 1024 * 1024 | _ \<Rightarrow> True)
        (fx_incoming (foldl (fx_step sha) fx evs))"
proof -
  have "fx_limits fx" using assms by (simp add: fx_limits_def)
  then have "fx_limits (foldl (fx_step sha) fx evs)" by (rule fxl.run_keeps)
  then show ?thesis
    unfolding fx_limits_def MAX_CONCURRENT_INCOMING_def MAX_MEM_BLOB_def .
qed

theorem incoming_transfers_are_bounded_witness:
  "length (fx_incoming (foldl (fx_step ex_sha) ex_fx
     (map (\<lambda>i. (ex_env, ''a'', BlobStart (of_nat i) ''img'' 3 ClipboardImage)) [0..<40]))) \<le> 16"
  using incoming_transfers_are_bounded[of ex_fx ex_sha
      "map (\<lambda>i. (ex_env, ''a'', BlobStart (of_nat i) ''img'' 3 ClipboardImage)) [0..<40]"]
  by (simp add: ex_fx_def)

text \<open>
  C16. A damaged transfer leaves nothing behind: if the hash announced at the end is not that
  of the bytes received, or a nonzero announced size is not their number, then the
  temporary file is unlinked (when the system lets it), no other directory entry and no
  clipboard image appears, the table entry is gone and the peer is told.
\<close>

theorem damaged_transfer_is_refused:
  assumes "map_of (fx_incoming fx) (pid, bid) = Some inc" "\<not> e_remove_fails env"
    and "sha (inc_hasher inc) \<noteq> h \<or> inc_declared inc \<noteq> 0 \<and> inc_written inc \<noteq> inc_declared inc"
  shows "\<exists>why. fx_bus (on_end sha env pid bid h fx) = snd (send_to pid (BlobAck bid False why) (fx_bus fx))
    \<and> fx_incoming (on_end sha env pid bid h fx) = AList.delete (pid, bid) (fx_incoming fx)
    \<and> clip_sink (on_end sha env pid bid h fx) = clip_sink fx
    \<and> dirents (fx_fs (on_end sha env pid bid h fx))
      = (case inc_sink inc of
           SinkFile tmp _ _ \<Rightarrow> (dirents (fx_fs fx))(tmp := None)
         | SinkMemory _ \<Rightarrow> dirents (fx_fs fx))"
proof -
  have "dirents (flush_sink env s f) = dirents f" for s f
    by (simp add: flush_sink_def split: sink.splits option.splits)
  then show ?thesis
    using assms
    by (cases "sha (inc_hasher inc) = h"; cases "inc_sink inc")
      (auto simp: on_end_def Let_def reject_def cleanup_def try_remove_def remove_file_def)
qed

theorem damaged_transfer_is_refused_witness:
  "clip_sink (on_end ex_sha ex_env ''a'' 1 [0]
      (ex_fx\<lparr>fx_incoming := [((''a'', 1), \<lparr>inc_name = ''clipboard-image'', inc_sink = SinkMemory [5],
         inc_hasher = [5], inc_written = 1, inc_declared = 1, inc_peer = ''a''\<rparr>)]\<rparr>)) = Some []"
  using damaged_transfer_is_refused[of "ex_fx\<lparr>fx_incoming := [((''a'', 1), \<lparr>inc_name = ''clipboard-image'',
      inc_sink = SinkMemory [5], inc_hasher = [5], inc_written = 1, inc_declared = 1, inc_peer = ''a''\<rparr>)]\<rparr>"
      "''a''" 1 _ ex_env ex_sha "[0]"]
  by (auto simp: ex_sha_def ex_env_def ex_fx_def)

text \<open>
  A file already in the directory is never overwritten, unless it and all of its 9999
  numbered variants exist; then the original name is reused.
\<close>

theorem unique_dest_is_free:
  "fs_exists f (unique_dest f dir name) \<longleftrightarrow>
     fs_exists f (path_join dir name)
     \<and> list_all (\<lambda>i. fs_exists f (path_join dir (numbered name i))) [1..<10000]"
  by (rule unique_dest_exists)

text \<open>
  Slots of abandoned transfers are never reclaimed: once sixteen transfers of one peer
  are open, nothing any other peer sends changes the table, so every start from them is
  refused, for as long as the first peer sends nothing more, even after it disconnects.
\<close>

theorem abandoned_transfers_block_everyone:
  assumes "length (fx_incoming fx) = MAX_CONCURRENT_INCOMING"
    and "list_all (\<lambda>e. fst (fst e) = p) (fx_incoming fx)"
    and "list_all (\<lambda>(env, pid, msg). pid \<noteq> p) evs"
  shows "fx_incoming (foldl (fx_step sha) fx evs) = fx_incoming fx
    \<and> (q \<noteq> p \<longrightarrow> on_start env q bid name sz purpose (foldl (fx_step sha) fx evs)
         = reject q bid ''too many concurrent transfers'' (foldl (fx_step sha) fx evs))"
proof -
  have step: "fx_incoming (handle_inbound sha env pid msg g) = fx_incoming g"
    if "fx_incoming g = fx_incoming fx" "pid \<noteq> p" for env pid msg g
  proof -
    have n: "(pid, i) \<notin> fst ` set (fx_incoming fx)" for i
      using that assms(2) by (auto simp: list_all_iff)
    then have m: "map_of (fx_incoming fx) (pid, i) = None" for i
      by (simp add: map_of_eq_None_iff)
    show ?thesis
      using that assms(1)
      by (cases msg)
        (auto simp: on_start_def on_chunk_def on_end_def m split: option.splits)
  qed
  have "fx_incoming (foldl (fx_step sha) fx evs) = fx_incoming fx"
    using assms(3)
  proof (induction evs rule: rev_induct)
    case (snoc e es)
    then show ?case by (cases e) (simp add: fx_step_def step)
  qed simp
  then show ?thesis using assms(1) by (simp add: on_start_def)
qed

definition ex_entry :: "nat \<Rightarrow> (string \<times> u64) \<times> incoming" where
  "ex_entry i = ((''a'', of_nat i), \<lparr>inc_name = ''clipboard-image'', inc_sink = SinkMemory [],
     inc_hasher = [], inc_written = 0, inc_declared = 1, inc_peer = ''a''\<rparr>)"

theorem abandoned_transfers_block_everyone_witness:
  "on_start ex_env ''b'' 1 ''a.txt'' 3 File (ex_fx\<lparr>fx_incoming := map ex_entry [0..<16]\<rparr>)
   = reject ''b'' 1 ''too many concurrent transfers'' (ex_fx\<lparr>fx_incoming := map ex_entry [0..<16]\<rparr>)"
  using abandoned_transfers_block_everyone[of "ex_fx\<lparr>fx_incoming := map ex_entry [0..<16]\<rparr>" "''a''" "[]"
      ex_sha "''b''" ex_env 1 "''a.txt''" 3 File]
  by (simp add: MAX_CONCURRENT_INCOMING_def list_all_iff ex_entry_def)

definition mixed_events :: "(bytes \<Rightarrow> bytes) \<Rightarrow> fx_event list" where
  "mixed_events sha =
     [(ex_env, ''a'', BlobStart 1 ''a.txt'' 4 File), (ex_env, ''b'', BlobStart 1 ''a.txt'' 2 File),
      (ex_env, ''a'', BlobChunk 1 [1, 1, 1, 1]), (ex_env, ''b'', BlobChunk 1 [2, 2]),
      (ex_env, ''a'', BlobEnd 1 (sha [1, 1, 1, 1]))]"

text \<open>
  Transfers of two peers can share a temporary file, because its name holds the
  sender's transfer id and not the sender: when two peers send a file of the same name
  under the same id at the same time, the first to finish is acknowledged although the file
  kept is a mixture of the two.
\<close>

theorem same_id_transfers_mix:
  "let fx' = foldl (fx_step sha) (ex_fx\<lparr>confirm := Never\<rparr>) (mixed_events sha)
   in read_file (fx_fs fx') ''/dl/a.txt'' = Some [2, 2, 1, 1]
      \<and> queue (chans (fx_bus fx') 0) = [BlobAck 1 True ''a.txt'']"
proof -
  have "char_of (49 :: nat) = CHR ''1''" by code_simp
  then have one: "dec_str 1 = ''1''" by (subst dec_str.simps) (simp add: digit_char_def)
  show ?thesis
    by (simp add: mixed_events_def fx_step_def on_start_def on_chunk_def on_end_def ex_fx_def ex_env_def
        ex_safe needs_confirm_def MAX_CONCURRENT_INCOMING_def create_dir_all_def file_create_def
        insert_incoming_def file_write_def overlay_def flush_sink_def accept_file_def unique_dest_def
        fs_exists_def rename_file_def path_join_def part_name_def one read_file_def send_to_def
        sender_def try_send_def Let_def numeral_eq_Suc)
qed

end
