(* ===== verification/Filesend.thy ===== *)
theory Filesend
  imports Filexfer_Props
begin

text \<open>
  The sending half of \<open>filexfer.rs\<close>: streaming a file or an image as messages, waiting for
  the acknowledgement, retrying, and fanning out to peers. What the outside world does
  during a send is an argument: how long the connection lives, what the file reads return,
  whether and how the peer acknowledges.
\<close>

section \<open>The connection and the source\<close>

text \<open>
  A clone of a peer's outbound sender, used with backpressure: the messages it accepted and
  how many it will still accept before the connection closes (\<open>None\<close>: it stays open).
\<close>

record conn =
  c_sent :: "message list"
  c_room :: "nat option"

definition chan_send :: "message \<Rightarrow> conn \<Rightarrow> bool \<times> conn" where
  "chan_send m c =
    (case c_room c of
       Some 0 \<Rightarrow> (False, c)
     | Some (Suc n) \<Rightarrow> (True, c\<lparr>c_sent := c_sent c @ [m], c_room := Some n\<rparr>)
     | None \<Rightarrow> (True, c\<lparr>c_sent := c_sent c @ [m]\<rparr>))"

datatype source = SourceFile string | SourceMem bytes

text \<open>\<open>slice::chunks\<close>, for a positive chunk size.\<close>

function chunks :: "nat \<Rightarrow> 'a list \<Rightarrow> 'a list list" where
  "chunks n xs = (if xs = [] \<or> n = 0 then [] else take n xs # chunks n (drop n xs))"
  by pat_completeness auto
termination
  by (relation "measure (length \<circ> snd)") auto

declare chunks.simps [simp del]

text \<open>
  The read loop over a file: each read returns an error or some bytes, none at the end of
  the file. Both loops return the bytes hashed.
\<close>

fun stream_reads :: "u64 \<Rightarrow> (string, bytes) res list \<Rightarrow> bytes \<Rightarrow> conn \<Rightarrow> (string, bytes) res \<times> conn" where
  "stream_reads bid [] hashed c = (Inr hashed, c)"
| "stream_reads bid (Inl e # rs) hashed c = (Inl e, c)"
| "stream_reads bid (Inr buf # rs) hashed c =
     (if buf = [] then (Inr hashed, c)
      else (case chan_send (BlobChunk bid buf) c of
         (False, c) \<Rightarrow> (Inl ''connection closed mid-transfer'', c)
       | (True, c) \<Rightarrow> stream_reads bid rs (hashed @ buf) c))"

fun stream_mem :: "u64 \<Rightarrow> bytes list \<Rightarrow> bytes \<Rightarrow> conn \<Rightarrow> (string, bytes) res \<times> conn" where
  "stream_mem bid [] hashed c = (Inr hashed, c)"
| "stream_mem bid (chunk # cs) hashed c =
     (case chan_send (BlobChunk bid chunk) c of
        (False, c) \<Rightarrow> (Inl ''connection closed mid-transfer'', c)
      | (True, c) \<Rightarrow> stream_mem bid cs (hashed @ chunk) c)"

text \<open>What the wait for the acknowledgement ends with.\<close>

datatype ack = Acked bool string | AckDropped | AckTimeout

text \<open>Opening a file gives an error or the results of the reads to come.\<close>

type_synonym opener = "string \<Rightarrow> (string, (string, bytes) res list) res"

definition stream_blob ::
  "(bytes \<Rightarrow> bytes) \<Rightarrow> opener \<Rightarrow> conn \<Rightarrow> u64 \<Rightarrow> string \<Rightarrow> u64 \<Rightarrow> blob_purpose \<Rightarrow> source \<Rightarrow> ack
     \<Rightarrow> (string, string) res \<times> conn" where
  "stream_blob sha opn c bid name sz purpose src ack =
    (case chan_send (BlobStart bid name sz purpose) c of
       (False, c) \<Rightarrow> (Inl ''connection closed'', c)
     | (True, c) \<Rightarrow>
         (case (case src of
                  SourceFile p \<Rightarrow> (case opn p of Inl e \<Rightarrow> (Inl e, c) | Inr rs \<Rightarrow> stream_reads bid rs [] c)
                | SourceMem b \<Rightarrow> stream_mem bid (chunks BLOB_CHUNK b) [] c) of
            (Inl e, c) \<Rightarrow> (Inl e, c)
          | (Inr hashed, c) \<Rightarrow>
              (case chan_send (BlobEnd bid (sha hashed)) c of
                 (False, c) \<Rightarrow> (Inl ''connection closed'', c)
               | (True, c) \<Rightarrow>
                   (case ack of
                      Acked True detail \<Rightarrow> (Inr detail, c)
                    | Acked False detail \<Rightarrow> (Inl (''peer rejected: '' @ detail), c)
                    | AckDropped \<Rightarrow> (Inl ''ack channel dropped'', c)
                    | AckTimeout \<Rightarrow> (Inl ''timed out waiting for peer ack'', c)))))"

section \<open>Sending a file\<close>

text \<open>
  One attempt: the bus when it starts, what \<open>stat\<close> says (regular file, length), the
  opener, the life of the connection, the acknowledgement, and the bus once the code has
  waited for the peer to come back.
\<close>

record attempt =
  at_bus :: bus
  at_stat :: "(string, bool \<times> u64) res"
  at_open :: opener
  at_room :: "nat option"
  at_ack :: ack
  at_bus_later :: bus

definition to_str :: "string \<Rightarrow> string option" where
  "to_str s = (if utf8_ok s then Some s else None)"

definition send_one ::
  "(bytes \<Rightarrow> bytes) \<Rightarrow> attempt \<Rightarrow> string \<Rightarrow> string \<Rightarrow> filexfer \<Rightarrow> (string, string) res \<times> message list \<times> filexfer" where
  "send_one sha a peer path fx =
    (let fx = fx\<lparr>fx_bus := at_bus a\<rparr> in
     case sender (fx_bus fx) peer of
       None \<Rightarrow> (Inl ''peer is not connected'', [], fx)
     | Some _ \<Rightarrow>
         (case at_stat a of
            Inl e \<Rightarrow> (Inl (''stat '' @ path @ '': '' @ e), [], fx)
          | Inr (is_file, sz) \<Rightarrow>
              if \<not> is_file then (Inl (path @ '' is not a regular file''), [], fx)
              else (case Option.bind (file_name path) to_str of
                 None \<Rightarrow> (Inl ''path has no filename'', [], fx)
               | Some name \<Rightarrow>
                   let bid = next_id fx;
                       fx = fx\<lparr>next_id := next_id fx + 1\<rparr>;
                       fx = fx\<lparr>acks := (acks fx)(bid \<mapsto> unat bid)\<rparr>;
                       (r, c) = stream_blob sha (at_open a) \<lparr>c_sent = [], c_room = at_room a\<rparr>
                                  bid name sz File (SourceFile path) (at_ack a)
                   in (r, c_sent c, fx\<lparr>acks := (acks fx)(bid := None)\<rparr>))))"

record send_outcome =
  so_name :: string
  so_peer :: string
  so_ok :: bool
  so_detail :: string

fun send_attempts ::
  "(bytes \<Rightarrow> bytes) \<Rightarrow> attempt list \<Rightarrow> string \<Rightarrow> string \<Rightarrow> string \<Rightarrow> filexfer
     \<Rightarrow> (string, string) res \<times> message list \<times> filexfer" where
  "send_attempts sha [] peer path last_err fx = (Inl last_err, [], fx)"
| "send_attempts sha (a # as) peer path last_err fx =
     (case send_one sha a peer path fx of
        (Inr detail, ms, fx) \<Rightarrow> (Inr detail, ms, fx)
      | (Inl e, ms, fx) \<Rightarrow>
          if sender (at_bus_later a) peer = None then (Inl e, ms, fx)
          else (case send_attempts sha as peer path e fx of (r, ms', fx) \<Rightarrow> (r, ms @ ms', fx)))"

definition send_one_with_retry ::
  "(bytes \<Rightarrow> bytes) \<Rightarrow> (load_error, peers) res \<Rightarrow> (nat \<Rightarrow> attempt) \<Rightarrow> string \<Rightarrow> string \<Rightarrow> filexfer
     \<Rightarrow> send_outcome \<times> message list \<times> filexfer" where
  "send_one_with_retry sha reg at peer path fx =
    (let name = (case Option.bind (file_name path) to_str of Some n \<Rightarrow> n | None \<Rightarrow> ''file'')
     in (case send_attempts sha (map at [1..<Suc SEND_ATTEMPTS]) peer path [] fx of
           (Inr detail, ms, fx) \<Rightarrow>
             (\<lparr>so_name = name, so_peer = peer_label reg peer, so_ok = True, so_detail = detail\<rparr>, ms, fx)
         | (Inl e, ms, fx) \<Rightarrow>
             (\<lparr>so_name = name, so_peer = peer_label reg peer, so_ok = False, so_detail = e\<rparr>, ms, fx)))"

text \<open>
  \<open>send\<close>: the peers to send to, then one task per peer over all paths. The tasks run
  concurrently and share the id counter; here they run one after the other, and \<open>Sends\<close> shows
  that interleaving makes no difference to an attempt.
\<close>

definition send_targets :: "(load_error, peers) res \<Rightarrow> string option \<Rightarrow> bus \<Rightarrow> (send_outcome, string list) res" where
  "send_targets reg dst b =
    (case (case dst of
             Some name \<Rightarrow>
               if sender b name \<noteq> None then Inr [name]
               else (case resolve_peer reg name of
                  Some d \<Rightarrow> Inr [d]
                | None \<Rightarrow> Inl \<lparr>so_name = [], so_peer = name, so_ok = False, so_detail = ''no such paired peer''\<rparr>)
           | None \<Rightarrow> Inr (connected_ids b)) of
       Inl o1 \<Rightarrow> Inl o1
     | Inr ps \<Rightarrow>
         if ps = [] then Inl \<lparr>so_name = [], so_peer = (case dst of Some n \<Rightarrow> n | None \<Rightarrow> []), so_ok = False,
                              so_detail = ''no connected peers''\<rparr>
         else Inr ps)"

fun send_paths ::
  "(bytes \<Rightarrow> bytes) \<Rightarrow> (load_error, peers) res \<Rightarrow> (string \<Rightarrow> string \<Rightarrow> nat \<Rightarrow> attempt) \<Rightarrow> string \<Rightarrow> string list
     \<Rightarrow> filexfer \<Rightarrow> send_outcome list \<times> filexfer" where
  "send_paths sha reg at peer [] fx = ([], fx)"
| "send_paths sha reg at peer (p # ps) fx =
     (case send_one_with_retry sha reg (at peer p) peer p fx of
        (out, _, fx) \<Rightarrow> (case send_paths sha reg at peer ps fx of (outs, fx) \<Rightarrow> (out # outs, fx)))"

fun send_peers ::
  "(bytes \<Rightarrow> bytes) \<Rightarrow> (load_error, peers) res \<Rightarrow> (string \<Rightarrow> string \<Rightarrow> nat \<Rightarrow> attempt) \<Rightarrow> string list \<Rightarrow> string list
     \<Rightarrow> filexfer \<Rightarrow> send_outcome list \<times> filexfer" where
  "send_peers sha reg at [] paths fx = ([], fx)"
| "send_peers sha reg at (d # ds) paths fx =
     (case send_paths sha reg at d paths fx of
        (outs, fx) \<Rightarrow> (case send_peers sha reg at ds paths fx of (outs', fx) \<Rightarrow> (outs @ outs', fx)))"

definition send ::
  "(bytes \<Rightarrow> bytes) \<Rightarrow> (load_error, peers) res \<Rightarrow> (string \<Rightarrow> string \<Rightarrow> nat \<Rightarrow> attempt) \<Rightarrow> string list \<Rightarrow> string option
     \<Rightarrow> filexfer \<Rightarrow> send_outcome list \<times> filexfer" where
  "send sha reg at paths dst fx =
    (case send_targets reg dst (fx_bus fx) of
       Inl out \<Rightarrow> ([out], fx)
     | Inr ps \<Rightarrow> send_peers sha reg at ps paths fx)"

text \<open>A clipboard image goes to every connected peer, one after the other.\<close>

fun send_clip_image_to ::
  "(bytes \<Rightarrow> bytes) \<Rightarrow> (string \<Rightarrow> nat option \<times> ack) \<Rightarrow> bytes \<Rightarrow> string list \<Rightarrow> filexfer
     \<Rightarrow> (string \<times> message list) list \<times> filexfer" where
  "send_clip_image_to sha w png [] fx = ([], fx)"
| "send_clip_image_to sha w png (d # ds) fx =
     (case sender (fx_bus fx) d of
        None \<Rightarrow> send_clip_image_to sha w png ds fx
      | Some _ \<Rightarrow>
          let bid = next_id fx;
              fx = fx\<lparr>next_id := next_id fx + 1\<rparr>;
              fx = fx\<lparr>acks := (acks fx)(bid \<mapsto> unat bid)\<rparr>;
              (r, c) = stream_blob sha (\<lambda>_. Inl []) \<lparr>c_sent = [], c_room = fst (w d)\<rparr> bid ''clipboard.png''
                         (of_nat (length png)) ClipboardImage (SourceMem png) (snd (w d));
              fx = fx\<lparr>acks := (acks fx)(bid := None)\<rparr>;
              (rest, fx) = send_clip_image_to sha w png ds fx
          in ((d, c_sent c) # rest, fx))"

definition send_clip_image ::
  "(bytes \<Rightarrow> bytes) \<Rightarrow> (string \<Rightarrow> nat option \<times> ack) \<Rightarrow> bytes \<Rightarrow> filexfer
     \<Rightarrow> (string \<times> message list) list \<times> filexfer" where
  "send_clip_image sha w png fx = send_clip_image_to sha w png (connected_ids (fx_bus fx)) fx"

section \<open>Lemmas\<close>

lemma concat_chunks: "0 < n \<Longrightarrow> concat (chunks n xs) = xs"
  by (induction n xs rule: chunks.induct) (subst chunks.simps, auto)

lemma chunk_bounds: "d \<in> set (chunks n xs) \<Longrightarrow> d \<noteq> [] \<and> length d \<le> n"
proof (induction n xs rule: chunks.induct)
  case (1 n xs)
  show ?case
  proof (cases "xs = [] \<or> n = 0")
    case True
    with "1.prems" show ?thesis by (subst (asm) chunks.simps) auto
  next
    case False
    with "1.prems" have "d = take n xs \<or> d \<in> set (chunks n (drop n xs))"
      by (subst (asm) chunks.simps) auto
    with False "1.IH" show ?thesis by auto
  qed
qed

lemma stream_reads_open:
  "c_room c = None \<Longrightarrow> [] \<notin> set ds \<Longrightarrow>
     stream_reads bid (map Inr ds) hashed c
     = (Inr (hashed @ concat ds), c\<lparr>c_sent := c_sent c @ map (BlobChunk bid) ds\<rparr>)"
  by (induction ds arbitrary: hashed c) (auto simp: chan_send_def)

lemma stream_mem_open:
  "c_room c = None \<Longrightarrow>
     stream_mem bid ds hashed c
     = (Inr (hashed @ concat ds), c\<lparr>c_sent := c_sent c @ map (BlobChunk bid) ds\<rparr>)"
  by (induction ds arbitrary: hashed c) (auto simp: chan_send_def)

text \<open>The messages of a whole transfer.\<close>

definition blob_messages ::
  "(bytes \<Rightarrow> bytes) \<Rightarrow> u64 \<Rightarrow> string \<Rightarrow> u64 \<Rightarrow> blob_purpose \<Rightarrow> bytes list \<Rightarrow> message list" where
  "blob_messages sha bid name sz purpose ds =
     BlobStart bid name sz purpose # map (BlobChunk bid) ds @ [BlobEnd bid (sha (concat ds))]"

lemma stream_file_open:
  assumes "opn p = Inr (map Inr ds)" "[] \<notin> set ds"
  shows "c_sent (snd (stream_blob sha opn \<lparr>c_sent = [], c_room = None\<rparr> bid name sz purpose (SourceFile p) ack))
      = blob_messages sha bid name sz purpose ds
    \<and> (\<forall>t. ack = Acked True t \<longrightarrow>
         fst (stream_blob sha opn \<lparr>c_sent = [], c_room = None\<rparr> bid name sz purpose (SourceFile p) ack) = Inr t)"
  using assms
  by (auto simp: stream_blob_def chan_send_def stream_reads_open blob_messages_def
      split: ack.splits bool.splits)

lemma stream_mem_messages:
  "c_sent (snd (stream_blob sha opn \<lparr>c_sent = [], c_room = None\<rparr> bid name sz purpose (SourceMem b) ack))
      = blob_messages sha bid name sz purpose (chunks BLOB_CHUNK b)"
  by (auto simp: stream_blob_def chan_send_def stream_mem_open blob_messages_def
      split: ack.splits bool.splits)

lemma transfer_events_messages:
  "map (\<lambda>m. (env, pid, m)) (blob_messages sha bid name sz File ds)
   = transfer_events sha env pid bid name sz (map (\<lambda>d. (env, d)) ds) env"
  by (simp add: blob_messages_def transfer_events_def chunk_events_def comp_def)

lemma send_one_messages:
  assumes "sender (at_bus a) peer \<noteq> None" "at_stat a = Inr (True, sz)"
    and "file_name path = Some name" "utf8_ok name"
    and "at_open a path = Inr (map Inr ds)" "[] \<notin> set ds" "at_room a = None"
  shows "fst (snd (send_one sha a peer path fx)) = blob_messages sha (next_id fx) name sz File ds
    \<and> (\<forall>t. at_ack a = Acked True t \<longrightarrow> fst (send_one sha a peer path fx) = Inr t)"
  using assms stream_file_open[of "at_open a" path ds sha "next_id fx" name sz File "at_ack a"]
  by (auto simp: send_one_def Let_def to_str_def case_prod_beta)

lemma send_one_acks:
  "acks fx (next_id fx) = None \<Longrightarrow> acks (snd (snd (send_one sha a peer path fx))) = acks fx"
  by (auto simp: send_one_def Let_def case_prod_beta split: option.splits sum.splits)

section \<open>Properties\<close>

text \<open>
  C11. A file sent is the file received: when one daemon sends a regular file over a
  connection that stays open, and the messages it queues reach the other daemon's handler
  with its system calls succeeding, the receiver stores exactly the content of the file
  under a free name in the directory its policy asks for and acknowledges this transfer,
  and that acknowledgement makes the sender report success.
\<close>

theorem file_roundtrip:
  assumes "sender (at_bus a) peer \<noteq> None" "at_stat a = Inr (True, of_nat (length content))"
    and "file_name path = Some name" "utf8_ok name" "at_room a = None"
    and "at_open a path = Inr (map Inr ds)" "[] \<notin> set ds" "concat ds = content"
    and "send_one sha a peer path fxa = (result, msgs, fxa')"
    and "length (fx_incoming fxb) < MAX_CONCURRENT_INCOMING" "safe_blob_name name = Some safe"
    and "env_ok env" "dir = dest_dir env me fxb"
    and "\<not> fs_exists (fx_fs fxb) (path_join dir (part_name safe (next_id fxa)))"
    and "dest = unique_dest (fx_fs fxb) dir safe" "\<not> fs_exists (fx_fs fxb) dest"
    and "fxb' = foldl (fx_step sha) fxb (map (\<lambda>m. (env, me, m)) msgs)"
  shows "read_file (fx_fs fxb') dest = Some content
    \<and> dirents (fx_fs fxb') = (dirents (fx_fs fxb))(dest \<mapsto> next_ino (fx_fs fxb))
    \<and> fx_bus fxb' = snd (send_to me (BlobAck (next_id fxa) True safe) (fx_bus fxb))
    \<and> (at_ack a = Acked True safe \<longrightarrow> result = Inr safe)"
proof -
  let ?cs = "map (\<lambda>d. (env, d)) ds"
  have m: "msgs = blob_messages sha (next_id fxa) name (of_nat (length content)) File ds"
    and r: "at_ack a = Acked True safe \<longrightarrow> result = Inr safe"
    using send_one_messages[OF assms(1-4) assms(6,7,5), of sha fxa] assms(9) by auto
  have ev: "fxb' = foldl (fx_step sha) fxb
      (transfer_events sha env me (next_id fxa) name (of_nat (length content)) ?cs env)"
    by (simp only: assms(17) m transfer_events_messages)
  have "list_all (\<lambda>c. env_ok (fst c)) ?cs" "e_rename env = None" "concat (map snd ?cs) = content"
    using assms(8,12) by (simp_all add: list_all_iff env_ok_def comp_def)
  moreover have "stored env content = content"
    using assms(12) by (simp add: stored_def env_ok_def)
  ultimately show ?thesis
    using transfer_stored[OF assms(10,11,12) _ _ assms(13) refl assms(14,15,16) _ ev] r by simp
qed

theorem file_roundtrip_witness:
  "read_file (fx_fs (foldl (fx_step ex_sha) ex_fx (map (\<lambda>m. (ex_env, ''a'', m))
      (fst (snd (send_one ex_sha
        \<lparr>at_bus = fx_bus ex_fx, at_stat = Inr (True, 3), at_open = (\<lambda>_. Inr [Inr [7, 8], Inr [9]]),
         at_room = None, at_ack = Acked True ''a.txt'', at_bus_later = fx_bus ex_fx\<rparr>
        ''b'' ''/tmp/a.txt'' ex_fx))))))
     ''/dl/pending/a.txt'' = Some [7, 8, 9]"
proof -
  let ?a = "\<lparr>at_bus = fx_bus ex_fx, at_stat = Inr (True, 3), at_open = (\<lambda>_. Inr [Inr [7, 8], Inr [9]]),
         at_room = None, at_ack = Acked True ''a.txt'', at_bus_later = fx_bus ex_fx\<rparr>"
  have d: "dest_dir ex_env ''a'' ex_fx = ''/dl/pending''"
    by (simp add: dest_dir_def ex_fx_def ex_env_def needs_confirm_def is_authorized_def find_by_id_def
        path_join_def)
  have u: "unique_dest (fx_fs ex_fx) ''/dl/pending'' ''a.txt'' = ''/dl/pending/a.txt''"
    by (simp add: unique_dest_def ex_fx_def fs_exists_def path_join_def)
  have n: "file_name ''/tmp/a.txt'' = Some ''a.txt''"
    by (simp add: file_name_def path_components_def map_filter_def path_component_def)
  have s: "sender (at_bus ?a) ''b'' \<noteq> None" by (simp add: ex_fx_def sender_def)
  obtain r ms fxa' where so: "send_one ex_sha ?a ''b'' ''/tmp/a.txt'' ex_fx = (r, ms, fxa')"
    by (metis prod_cases3)
  have ok: "utf8_ok ''a.txt''" by (rule utf8_ok_ascii) simp
  have "length (fx_incoming ex_fx) < MAX_CONCURRENT_INCOMING" "env_ok ex_env"
    "\<not> fs_exists (fx_fs ex_fx) (path_join ''/dl/pending'' (part_name ''a.txt'' (next_id ex_fx)))"
    "\<not> fs_exists (fx_fs ex_fx) ''/dl/pending/a.txt''"
    by (simp_all add: env_ok_def ex_env_def ex_fx_def MAX_CONCURRENT_INCOMING_def fs_exists_def path_join_def
        part_name_def)
  from file_roundtrip[OF s _ n ok _ _ _ _ so this(1) ex_safe this(2) d[symmetric] this(3) u[symmetric] this(4) refl,
      of "[7, 8, 9]" "[[7, 8], [9]]"] so
  show ?thesis by simp
qed

definition tries :: "(bytes \<Rightarrow> bytes) \<Rightarrow> attempt list \<Rightarrow> string \<Rightarrow> string \<Rightarrow> filexfer \<Rightarrow> filexfer" where
  "tries sha as peer path fx = foldl (\<lambda>fx a. snd (snd (send_one sha a peer path fx))) fx as"

lemma send_attempts_Inr:
  "fst (send_attempts sha as peer path e fx) = Inr t \<longleftrightarrow>
     (\<exists>k<length as. fst (send_one sha (as ! k) peer path (tries sha (take k as) peer path fx)) = Inr t
        \<and> (\<forall>j<k. sender (at_bus_later (as ! j)) peer \<noteq> None
             \<and> (\<exists>e'. fst (send_one sha (as ! j) peer path (tries sha (take j as) peer path fx)) = Inl e')))"
proof (induction as arbitrary: e fx)
  case Nil
  then show ?case by simp
next
  case (Cons a as)
  obtain r ms fx1 where so: "send_one sha a peer path fx = (r, ms, fx1)" by (metis prod_cases3)
  show ?case
  proof (cases r)
    case (Inr u)
    then show ?thesis
      using so by (simp add: tries_def Ex_less_Suc2 All_less_Suc2)
  next
    case (Inl e1)
    show ?thesis
      using so Inl Cons.IH[of e1 fx1]
      by (cases "sender (at_bus_later a) peer")
        (simp_all add: tries_def case_prod_beta All_less_Suc2 Ex_less_Suc2)
  qed
qed

lemma attempts_list: "map at [1..<Suc SEND_ATTEMPTS] = [at 1, at 2, at 3]"
  by (simp add: SEND_ATTEMPTS_def upt_rec numeral_eq_Suc)

lemma first_success_cong:
  fixes n :: nat
  assumes "\<And>k. k < n \<Longrightarrow> P k = P' k" "\<And>k. k < n \<Longrightarrow> Q k = Q' k"
  shows "(\<exists>k<n. P k \<and> (\<forall>j<k. Q j)) = (\<exists>k<n. P' k \<and> (\<forall>j<k. Q' j))"
  using assms by (meson order.strict_trans)

text \<open>
  A send is tried at most three times and reports success exactly when one of the
  attempts ended with a positive acknowledgement, after attempts that failed and were each
  followed by the peer being connected again; a later attempt starts from the beginning
  under a fresh id.
\<close>

theorem send_retries_at_most_three_times:
  "so_ok (fst (send_one_with_retry sha reg at peer path fx)) \<longleftrightarrow>
     (\<exists>k<3. (\<exists>t. fst (send_one sha (at (Suc k)) peer path (tries sha (map at [1..<Suc k]) peer path fx)) = Inr t)
        \<and> list_all (\<lambda>j. sender (at_bus_later (at (Suc j))) peer \<noteq> None
             \<and> (\<exists>e. fst (send_one sha (at (Suc j)) peer path (tries sha (map at [1..<Suc j]) peer path fx)) = Inl e))
            [0..<k])"
proof -
  let ?as = "[at 1, at 2, at 3]"
  have len: "length ?as = 3" by simp
  have nth: "?as ! k = at (Suc k)" "take k ?as = map at [1..<Suc k]" if "k < 3" for k
    using that by (auto simp: less_Suc_eq numeral_eq_Suc upt_rec)
  have "so_ok (fst (send_one_with_retry sha reg at peer path fx)) \<longleftrightarrow>
      (\<exists>t. fst (send_attempts sha ?as peer path [] fx) = Inr t)"
    unfolding send_one_with_retry_def attempts_list Let_def by (auto split: prod.splits sum.splits)
  also have "\<dots> \<longleftrightarrow> (\<exists>k<3. (\<exists>t. fst (send_one sha (?as ! k) peer path (tries sha (take k ?as) peer path fx)) = Inr t)
        \<and> (\<forall>j<k. sender (at_bus_later (?as ! j)) peer \<noteq> None
             \<and> (\<exists>e'. fst (send_one sha (?as ! j) peer path (tries sha (take j ?as) peer path fx)) = Inl e')))"
    unfolding send_attempts_Inr len by blast
  also have "\<dots> \<longleftrightarrow> (\<exists>k<3. (\<exists>t. fst (send_one sha (at (Suc k)) peer path (tries sha (map at [1..<Suc k]) peer path fx)) = Inr t)
        \<and> (\<forall>j<k. sender (at_bus_later (at (Suc j))) peer \<noteq> None
             \<and> (\<exists>e. fst (send_one sha (at (Suc j)) peer path (tries sha (map at [1..<Suc j]) peer path fx)) = Inl e)))"
    by (rule first_success_cong) (simp_all only: nth)
  finally show ?thesis by (simp add: list_all_iff Ball_def)
qed

text \<open>
  A clipboard image handed to \<open>send_clip_image\<close> travels whole: over a connection that
  stays open, the chunks of the messages sent are nonempty, of at most 64 KiB, put together
  they are the image, and the hash announced is that of the image.
\<close>

theorem clip_image_chunks_reassemble:
  "\<exists>ds. c_sent (snd (stream_blob sha opn \<lparr>c_sent = [], c_room = None\<rparr> bid name sz ClipboardImage
          (SourceMem png) ack))
        = BlobStart bid name sz ClipboardImage # map (BlobChunk bid) ds @ [BlobEnd bid (sha png)]
     \<and> concat ds = png \<and> list_all (\<lambda>d. d \<noteq> [] \<and> length d \<le> BLOB_CHUNK) ds"
proof -
  have "concat (chunks BLOB_CHUNK png) = png" by (rule concat_chunks) (simp add: BLOB_CHUNK_def)
  then show ?thesis
    by (intro exI[of _ "chunks BLOB_CHUNK png"])
      (auto simp: stream_mem_messages blob_messages_def list_all_iff dest: chunk_bounds)
qed

section \<open>When a file counts as delivered\<close>

text \<open>
  What the reads of a file gave, if none failed; and whether a connection takes \<open>n\<close> more
  messages.
\<close>

fun reads_all :: "(string, bytes) res list \<Rightarrow> bytes list option" where
  "reads_all [] = Some []"
| "reads_all (Inl e # rs) = None"
| "reads_all (Inr buf # rs) = (if buf = [] then Some [] else map_option (Cons buf) (reads_all rs))"

definition has_room :: "nat \<Rightarrow> nat option \<Rightarrow> bool" where
  "has_room n room \<longleftrightarrow> (case room of None \<Rightarrow> True | Some k \<Rightarrow> n \<le> k)"

text \<open>
  An attempt that delivered the file as far as the sender can know: the peer was connected, the
  path is a regular file with a readable name, every read succeeded, the connection took the
  announcement, every chunk and the end, and a positive acknowledgement of the transfer came.
\<close>

definition delivered :: "attempt \<Rightarrow> string \<Rightarrow> string \<Rightarrow> bool" where
  "delivered a peer path \<longleftrightarrow>
     sender (at_bus a) peer \<noteq> None
     \<and> (\<exists>sz. at_stat a = Inr (True, sz)) \<and> (\<exists>name. file_name path = Some name \<and> utf8_ok name)
     \<and> (\<exists>rs ds. at_open a path = Inr rs \<and> reads_all rs = Some ds \<and> has_room (length ds + 2) (at_room a))
     \<and> (\<exists>detail. at_ack a = Acked True detail)"

lemma chan_send_room:
  "fst (chan_send m c) \<longleftrightarrow> has_room 1 (c_room c)"
  "fst (chan_send m c) \<Longrightarrow> has_room n (c_room (snd (chan_send m c))) \<longleftrightarrow> has_room (Suc n) (c_room c)"
  by (auto simp: chan_send_def has_room_def split: option.splits nat.splits)

lemma no_room: "\<not> has_room 1 room \<Longrightarrow> \<not> has_room (Suc n) room"
  by (auto simp: has_room_def split: option.splits)

lemma stream_reads_iff:
  "(\<exists>x c'. stream_reads bid rs h c = (Inr x, c') \<and> has_room n (c_room c'))
     \<longleftrightarrow> (\<exists>ds. reads_all rs = Some ds \<and> has_room (length ds + n) (c_room c))"
proof (induction rs arbitrary: h c rule: reads_all.induct)
  case (3 buf rs)
  show ?case
  proof (cases "buf = []")
    case False
    obtain ok c1 where s: "chan_send (BlobChunk bid buf) c = (ok, c1)" by fastforce
    show ?thesis
    proof (cases ok)
      case True
      have "has_room k (c_room c1) \<longleftrightarrow> has_room (Suc k) (c_room c)" for k
        using chan_send_room(2)[of "BlobChunk bid buf" c k] s True by simp
      with False True s "3.IH"[OF False, of "h @ buf" c1] show ?thesis by auto
    next
      case no: False
      then have "\<not> has_room 1 (c_room c)" using chan_send_room(1)[of "BlobChunk bid buf" c] s by simp
      with False no s no_room[of "c_room c"] show ?thesis by auto
    qed
  qed auto
qed auto

lemma stream_file_iff:
  "(\<exists>t c'. stream_blob sha opn c bid name sz purpose (SourceFile p) ack = (Inr t, c'))
     \<longleftrightarrow> (\<exists>rs ds. opn p = Inr rs \<and> reads_all rs = Some ds \<and> has_room (length ds + 2) (c_room c)) \<and> (\<exists>t. ack = Acked True t)"
proof -
  obtain ok c1 where s: "chan_send (BlobStart bid name sz purpose) c = (ok, c1)" by fastforce
  show ?thesis
  proof (cases ok)
    case True
    have r: "has_room k (c_room c1) \<longleftrightarrow> has_room (Suc k) (c_room c)" for k
      using chan_send_room(2)[of "BlobStart bid name sz purpose" c k] s True by simp
    have last: "(\<exists>t c'. (case chan_send (BlobEnd bid (sha x)) c2 of
                 (False, c) \<Rightarrow> (Inl ''connection closed'', c)
               | (True, c) \<Rightarrow>
                   (case ack of
                      Acked True detail \<Rightarrow> (Inr detail, c)
                    | Acked False detail \<Rightarrow> (Inl (''peer rejected: '' @ detail), c)
                    | AckDropped \<Rightarrow> (Inl ''ack channel dropped'', c)
                    | AckTimeout \<Rightarrow> (Inl ''timed out waiting for peer ack'', c))) = (Inr t :: (string, string) res, c'))
       \<longleftrightarrow> has_room 1 (c_room c2) \<and> (\<exists>t. ack = Acked True t)" for x c2
      using chan_send_room(1)[of "BlobEnd bid (sha x)" c2] by (auto split: prod.splits bool.splits ack.splits)
    show ?thesis
    proof (cases "opn p")
      case (Inr rs)
      obtain y c2 where y: "stream_reads bid rs [] c1 = (y, c2)" by fastforce
      show ?thesis
        using stream_reads_iff[of bid rs "[]" c1 1] y s True Inr last
        by (cases y) (auto simp: stream_blob_def r)
    qed (use s True in \<open>simp add: stream_blob_def\<close>)
  next
    case False
    then have "\<not> has_room 1 (c_room c)" using chan_send_room(1)[of "BlobStart bid name sz purpose" c] s by simp
    with False s no_room[of "c_room c"] show ?thesis by (auto simp: stream_blob_def)
  qed
qed

lemma send_one_delivers: "(\<exists>t. fst (send_one sha a peer path fx) = Inr t) \<longleftrightarrow> delivered a peer path"
proof (cases "Option.bind (file_name path) to_str")
  case None
  then have "\<not> (\<exists>name. file_name path = Some name \<and> utf8_ok name)" by (auto simp: to_str_def)
  with None show ?thesis by (auto simp: send_one_def delivered_def Let_def split: option.splits sum.splits)
next
  case (Some name)
  then have n: "\<exists>name. file_name path = Some name \<and> utf8_ok name"
    by (auto simp: to_str_def split: if_splits bind_splits)
  have "(\<exists>t. fst (stream_blob sha (at_open a) \<lparr>c_sent = [], c_room = at_room a\<rparr> bid name sz File (SourceFile path) (at_ack a)) = Inr t)
      \<longleftrightarrow> (\<exists>rs ds. at_open a path = Inr rs \<and> reads_all rs = Some ds \<and> has_room (length ds + 2) (at_room a)) \<and> (\<exists>t. at_ack a = Acked True t)"
    for bid sz
    using stream_file_iff[of sha "at_open a" "\<lparr>c_sent = [], c_room = at_room a\<rparr>" bid name sz File path "at_ack a"]
    by (auto simp: fst_def split: prod.splits)
  with Some n show ?thesis
    by (auto simp: send_one_def delivered_def Let_def case_prod_beta split: option.splits sum.splits)
qed

text \<open>Of three attempts one delivered, each before it being followed by a reconnection.\<close>

definition sent_in_time :: "(nat \<Rightarrow> attempt) \<Rightarrow> string \<Rightarrow> string \<Rightarrow> bool" where
  "sent_in_time at peer path \<longleftrightarrow>
     (\<exists>k\<in>{1..3}. delivered (at k) peer path
        \<and> (\<forall>j\<in>{1..<k}. \<not> delivered (at j) peer path \<and> sender (at_bus_later (at j)) peer \<noteq> None))"

lemma send_attempts_delivers:
  "(\<exists>t. fst (send_attempts sha as peer path e fx) = Inr t) \<longleftrightarrow>
     (\<exists>k<length as. delivered (as ! k) peer path
        \<and> (\<forall>j<k. \<not> delivered (as ! j) peer path \<and> sender (at_bus_later (as ! j)) peer \<noteq> None))"
proof (induction as arbitrary: e fx)
  case (Cons a as)
  obtain r ms fx1 where so: "send_one sha a peer path fx = (r, ms, fx1)" by (metis prod_cases3)
  then have d: "delivered a peer path \<longleftrightarrow> (\<exists>t. r = Inr t)" using send_one_delivers[of sha a peer path fx] by simp
  show ?case
  proof (cases r)
    case (Inl e1)
    then show ?thesis
      using so d Cons.IH[of e1 fx1]
      by (cases "sender (at_bus_later a) peer") (simp_all add: case_prod_beta All_less_Suc2 Ex_less_Suc2)
  qed (use so d in \<open>simp add: Ex_less_Suc2\<close>)
qed simp

lemma retry_delivers:
  "so_ok (fst (send_one_with_retry sha reg at peer path fx)) \<longleftrightarrow> sent_in_time at peer path"
proof -
  have e: "{1..3::nat} = {1, 2, 3}" by auto
  have "so_ok (fst (send_one_with_retry sha reg at peer path fx)) \<longleftrightarrow>
      (\<exists>t. fst (send_attempts sha [at 1, at 2, at 3] peer path [] fx) = Inr t)"
    unfolding send_one_with_retry_def attempts_list Let_def by (auto split: prod.splits sum.splits)
  then show ?thesis
    unfolding send_attempts_delivers sent_in_time_def e
    by (simp add: Ex_less_Suc2 All_less_Suc2 numeral_eq_Suc atLeastLessThanSuc) blast
qed

text \<open>One outcome for each peer and path, in this order.\<close>

definition outcome_matches ::
  "(load_error, peers) res \<Rightarrow> (string \<Rightarrow> string \<Rightarrow> nat \<Rightarrow> attempt) \<Rightarrow> string \<times> string \<Rightarrow> send_outcome \<Rightarrow> bool" where
  "outcome_matches reg at pq out \<longleftrightarrow> (case pq of (peer, path) \<Rightarrow>
     so_peer out = peer_label reg peer
     \<and> so_name out = (case Option.bind (file_name path) to_str of Some n \<Rightarrow> n | None \<Rightarrow> ''file'')
     \<and> (so_ok out \<longleftrightarrow> sent_in_time (at peer path) peer path))"

lemma retry_matches: "outcome_matches reg at (peer, path) (fst (send_one_with_retry sha reg (at peer path) peer path fx))"
proof -
  have "so_peer (fst (send_one_with_retry sha reg (at peer path) peer path fx)) = peer_label reg peer"
    "so_name (fst (send_one_with_retry sha reg (at peer path) peer path fx))
       = (case Option.bind (file_name path) to_str of Some n \<Rightarrow> n | None \<Rightarrow> ''file'')"
    by (auto simp: send_one_with_retry_def Let_def split: prod.splits sum.splits)
  then show ?thesis by (simp add: outcome_matches_def retry_delivers)
qed

lemma send_paths_matches:
  "list_all2 (outcome_matches reg at) (map (Pair peer) ps) (fst (send_paths sha reg at peer ps fx))"
proof (induction ps arbitrary: fx)
  case (Cons p ps)
  then show ?case using retry_matches[of reg at peer p sha fx] by (simp add: case_prod_beta)
qed simp

lemma send_peers_matches:
  "list_all2 (outcome_matches reg at) (List.product ds ps) (fst (send_peers sha reg at ds ps fx))"
proof (induction ds arbitrary: fx)
  case (Cons d ds)
  then show ?case using send_paths_matches[of reg at d ps sha fx] by (simp add: case_prod_beta list_all2_appendI)
qed simp

lemma list_all2_all:
  assumes "list_all2 (\<lambda>x y. Q y \<longleftrightarrow> P x) xs ys"
  shows "list_all Q ys \<longleftrightarrow> list_all P xs"
  using assms by (induction rule: list_all2_induct) auto

lemma all_sent_iff:
  "list_all so_ok (fst (send_peers sha reg at ds ps fx)) \<longleftrightarrow> (\<forall>d\<in>set ds. \<forall>p\<in>set ps. sent_in_time (at d p) d p)"
proof -
  have "list_all2 (\<lambda>pq out. so_ok out \<longleftrightarrow> (\<lambda>(d, p). sent_in_time (at d p) d p) pq) (List.product ds ps) (fst (send_peers sha reg at ds ps fx))"
    by (rule list_all2_mono[OF send_peers_matches]) (auto simp: outcome_matches_def)
  from list_all2_all[OF this] show ?thesis by (auto simp: list_all_iff)
qed

end
