(* ===== verification/Auth.thy ===== *)
theory Auth
  imports Filexfer
begin

text \<open>
  \<open>crates/qdropd/src/auth.rs\<close>, \<open>crates/qdropd/src/weblink.rs\<close> and the soft MAC check of
  \<open>crates/qdrop-core/src/sysinfo.rs\<close>: authorising a paired peer to send unattended, and
  links pushed to a browser. The registry file is part of the state; whether saving it
  works, what the peer replies and whether the launcher starts are arguments.
\<close>

section \<open>Authorisation\<close>

definition em_dash :: string where
  "em_dash = [CHR 0xE2, CHR 0x80, CHR 0x94]"

definition macs_still_match :: "string list \<Rightarrow> string list \<Rightarrow> bool" where
  "macs_still_match recorded observed \<longleftrightarrow>
     recorded = [] \<or> list_ex (\<lambda>m. List.member observed m) recorded"

datatype record_error = RegUnreadable load_error | PeerNotFound | SaveFailed

definition record_auth ::
  "bool \<Rightarrow> (load_error, peers) res \<Rightarrow> string \<Rightarrow> device_info \<Rightarrow> bool \<Rightarrow> (record_error, peers) res" where
  "record_auth save_ok reg d info flag =
    (case reg of
       Inl e \<Rightarrow> Inl (RegUnreadable e)
     | Inr ps \<Rightarrow>
         (case update_any d (\<lambda>p. p\<lparr>authorized := flag, hostname := Some (di_hostname info),
                                    macs := di_macs info\<rparr>) ps of
            None \<Rightarrow> Inl PeerNotFound
          | Some ps' \<Rightarrow> if save_ok then Inr ps' else Inl SaveFailed))"

text \<open>The component, with the registry file \<open>peers.toml\<close> it edits.\<close>

record auth_mgr =
  au_bus :: bus
  au_pending :: "string \<Rightarrow> nat option"
  au_woken :: "(nat \<times> device_info) list"
  au_reg :: "(load_error, peers) res"
  au_posted :: "(string \<times> string) list"

text \<open>What the machine reports of itself, and whether a save succeeds.\<close>

record auth_env =
  ae_local :: device_info
  ae_save_ok :: bool

definition store_auth :: "auth_env \<Rightarrow> string \<Rightarrow> device_info \<Rightarrow> auth_mgr \<Rightarrow> (record_error, unit) res \<times> auth_mgr" where
  "store_auth ev d info st =
    (case record_auth (ae_save_ok ev) (au_reg st) d info True of
       Inl e \<Rightarrow> (Inl e, st)
     | Inr ps \<Rightarrow> (Inr (), st\<lparr>au_reg := Inr ps\<rparr>))"

fun auth_handle_inbound :: "auth_env \<Rightarrow> string \<Rightarrow> message \<Rightarrow> auth_mgr \<Rightarrow> auth_mgr" where
  "auth_handle_inbound ev pid (AuthRequest mutual info) st =
     (let st = st\<lparr>au_bus := snd (send_to pid (AuthReply True (ae_local ev)) (au_bus st))\<rparr>
      in if \<not> mutual then st
         else (case store_auth ev pid info st of
            (Inl _, st) \<Rightarrow> st
          | (Inr _, st) \<Rightarrow> st\<lparr>au_posted := au_posted st @
               [(''Device authorized'', di_hostname info @ '' can now send here unattended'')]\<rparr>))"
| "auth_handle_inbound ev pid (AuthReply _ info) st =
     (case au_pending st pid of
        None \<Rightarrow> st
      | Some w \<Rightarrow> st\<lparr>au_pending := (au_pending st)(pid := None), au_woken := au_woken st @ [(w, info)]\<rparr>)"
| "auth_handle_inbound ev pid _ st = st"

text \<open>How the wait for a reply ends.\<close>

datatype auth_reply = Replied device_info | ReplyDropped | ReplyTimeout

definition exchange ::
  "auth_env \<Rightarrow> auth_reply \<Rightarrow> string \<Rightarrow> bool \<Rightarrow> auth_mgr \<Rightarrow> (string, device_info) res \<times> auth_mgr" where
  "exchange ev reply pid mutual st =
    (let st = st\<lparr>au_pending := (au_pending st)(pid \<mapsto> 0)\<rparr>;
         (queued, b) = send_to pid (AuthRequest mutual (ae_local ev)) (au_bus st);
         st = st\<lparr>au_bus := b\<rparr>
     in if \<not> queued then (Inl ''peer is not connected'', st\<lparr>au_pending := (au_pending st)(pid := None)\<rparr>)
        else (let st = st\<lparr>au_pending := (au_pending st)(pid := None)\<rparr> in
          case reply of
            Replied info \<Rightarrow> (Inr info, st)
          | ReplyDropped \<Rightarrow> (Inl ''authorization channel closed'', st)
          | ReplyTimeout \<Rightarrow> (Inl ''peer did not reply (it may be running an older qdrop)'', st)))"

datatype authorize_error = ExchangeError string | RecordError record_error

definition authorize ::
  "auth_env \<Rightarrow> auth_reply \<Rightarrow> string \<Rightarrow> bool \<Rightarrow> auth_mgr \<Rightarrow> (authorize_error, string) res \<times> auth_mgr" where
  "authorize ev reply pid mutual st =
    (if sender (au_bus st) pid = None
     then (Inl (ExchangeError (''peer is not connected '' @ em_dash @ '' start both daemons and try again'')), st)
     else (case exchange ev reply pid mutual st of
        (Inl e, st) \<Rightarrow> (Inl (ExchangeError e), st)
      | (Inr info, st) \<Rightarrow>
          (case store_auth ev pid info st of
             (Inl e, st) \<Rightarrow> (Inl (RecordError e), st)
           | (Inr _, st) \<Rightarrow> (Inr (di_hostname info), st))))"

definition refresh :: "auth_env \<Rightarrow> auth_reply \<Rightarrow> string \<Rightarrow> auth_mgr \<Rightarrow> auth_mgr" where
  "refresh ev reply pid st =
    (case (case au_reg st of
             Inl _ \<Rightarrow> None
           | Inr ps \<Rightarrow> (case find_by_id ps pid of
                Some p \<Rightarrow> if authorized p then Some (macs p) else None
              | None \<Rightarrow> None)) of
       None \<Rightarrow> st
     | Some recorded \<Rightarrow>
         (case exchange ev reply pid False st of
            (Inl _, st) \<Rightarrow> st
          | (Inr info, st) \<Rightarrow>
              let st = (if \<not> macs_still_match recorded (di_macs info)
                        then st\<lparr>au_posted := au_posted st @ [(''Authorized device on a new network'',
                               di_hostname info @ '' '' @ em_dash @ '' still trusted (its key is pinned)'')]\<rparr>
                        else st)
              in snd (store_auth ev pid info st)))"

section \<open>Links\<close>

text \<open>What a link from a peer does: programs started, notifications posted.\<close>

record effects =
  launched :: "string list"
  shown :: "(string \<times> string) list"

definition weblink_handle_inbound ::
  "(load_error, peers) res \<Rightarrow> bool \<Rightarrow> string \<Rightarrow> string \<Rightarrow> confirm_policy \<Rightarrow> effects" where
  "weblink_handle_inbound reg spawn_ok pid url policy =
    (if \<not> is_allowed_url url then \<lparr>launched = [], shown = []\<rparr>
     else if needs_confirm reg policy pid
     then \<lparr>launched = [], shown = [(''Link from a device'', peer_label reg pid @ '' wants to open: '' @ url)]\<rparr>
     else if spawn_ok
     then \<lparr>launched = [url], shown = [(''Opened a link'', ''From '' @ peer_label reg pid @ '': '' @ url)]\<rparr>
     else \<lparr>launched = [], shown = []\<rparr>)"

fun send_url :: "string \<Rightarrow> string list \<Rightarrow> bus \<Rightarrow> nat \<times> bus" where
  "send_url url [] b = (0, b)"
| "send_url url (d # ds) b =
     (let (ok, b) = send_to d (OpenUrl url) b; (n, b) = send_url url ds b
      in ((if ok then 1 else 0) + n, b))"

definition weblink_dispatch ::
  "(load_error, peers) res \<Rightarrow> string \<Rightarrow> string option \<Rightarrow> bus \<Rightarrow> (string, nat) res \<times> bus" where
  "weblink_dispatch reg url dst b =
    (if \<not> is_allowed_url url
     then (Inl ''URL scheme not allowed (permitted: http, https, mailto)'', b)
     else (case (case dst of
             Some name \<Rightarrow>
               if sender b name \<noteq> None then Inr [name]
               else (case resolve_peer reg name of
                  Some d \<Rightarrow> Inr [d]
                | None \<Rightarrow> Inl (''no such paired peer: '' @ name))
           | None \<Rightarrow> Inr (connected_ids b)) of
        Inl e \<Rightarrow> (Inl e, b)
      | Inr targets \<Rightarrow>
          if targets = [] then (Inl ''no connected peers'', b)
          else (case send_url url targets b of (n, b) \<Rightarrow> (Inr n, b))))"

section \<open>Lemmas\<close>

text \<open>The identity part of an entry, which authorising never touches.\<close>

definition pinned :: "peer \<Rightarrow> string \<times> string \<times> string \<times> string option" where
  "pinned p = (peer_name p, peer_id p, public_key p, address p)"

definition pinned_of :: "(load_error, peers) res \<Rightarrow> (load_error, (string \<times> string \<times> string \<times> string option) list) res" where
  "pinned_of reg = (case reg of Inl e \<Rightarrow> Inl e | Inr ps \<Rightarrow> Inr (map pinned ps))"

lemma update_any_pinned:
  "(\<And>p. pinned (f p) = pinned p) \<Longrightarrow> update_any k f ps = Some ps' \<Longrightarrow> map pinned ps' = map pinned ps"
  by (induction ps arbitrary: ps') (auto split: if_splits)

lemma record_auth_pinned:
  "record_auth ok reg d info flag = Inr ps' \<Longrightarrow> pinned_of (Inr ps') = pinned_of reg"
  by (auto simp: record_auth_def pinned_of_def pinned_def[abs_def] split: sum.splits option.splits if_splits
      dest!: update_any_pinned[rotated] dest: spec)

lemma store_auth_pinned: "pinned_of (au_reg (snd (store_auth ev d info st))) = pinned_of (au_reg st)"
  using record_auth_pinned[of "ae_save_ok ev" "au_reg st" d info True]
  by (auto simp: store_auth_def split: sum.splits)

lemma exchange_reg [simp]: "au_reg (snd (exchange ev reply pid mutual st)) = au_reg st"
  by (auto simp: exchange_def Let_def case_prod_beta split: auth_reply.splits)

lemma inbound_pinned [step_inv]:
  "pinned_of (au_reg (auth_handle_inbound ev pid msg st)) = pinned_of (au_reg st)"
proof (cases msg)
  case (AuthRequest mutual info)
  let ?st = "st\<lparr>au_bus := snd (send_to pid (AuthReply True (ae_local ev)) (au_bus st))\<rparr>"
  obtain r st' where "store_auth ev pid info ?st = (r, st')" by fastforce
  with store_auth_pinned[of ev pid info ?st] AuthRequest show ?thesis
    by (auto simp: Let_def split: sum.splits)
qed (auto split: option.splits)

text \<open>One event of the router for this component.\<close>

definition auth_step :: "auth_mgr \<Rightarrow> auth_env \<times> string \<times> message \<Rightarrow> auth_mgr" where
  "auth_step st e = (case e of (ev, pid, msg) \<Rightarrow> auth_handle_inbound ev pid msg st)"

interpretation aus: event_system auth_step "\<lambda>st. pinned_of (au_reg st) = k" for k
  by unfold_locales (auto simp: auth_step_def inbound_pinned split: prod.splits)

lemma update_any_find:
  assumes "\<And>p. peer_id (f p) = peer_id p" "find_by_id ps d = Some p"
    and "\<forall>q\<in>set ps. peer_name q = d \<longrightarrow> peer_id q = d"
  shows "\<exists>ps'. update_any d f ps = Some ps' \<and> find_by_id ps' d = Some (f p)"
  using assms
proof (induction ps)
  case (Cons q ps)
  then show ?case
    by (cases "peer_id q = d") (auto simp: find_by_id_def)
qed (simp add: find_by_id_def)

lemma store_auth_authorizes:
  assumes "ae_save_ok ev" "au_reg st = Inr ps" "find_by_id ps d = Some p"
    and "\<forall>q\<in>set ps. peer_name q = d \<longrightarrow> peer_id q = d"
  shows "\<exists>ps'. store_auth ev d info st = (Inr (), st\<lparr>au_reg := Inr ps'\<rparr>) \<and> is_authorized ps' d"
proof -
  let ?f = "\<lambda>p. p\<lparr>authorized := True, hostname := Some (di_hostname info), macs := di_macs info\<rparr>"
  obtain ps' where "update_any d ?f ps = Some ps'" "find_by_id ps' d = Some (?f p)"
    using update_any_find[of ?f ps d p] assms(3,4) by auto
  then show ?thesis
    using assms(1,2) by (intro exI[of _ ps']) (simp add: store_auth_def record_auth_def is_authorized_def)
qed

lemma send_url_count:
  "fst (send_url url ds b) \<le> length ds \<and> links (snd (send_url url ds b)) = links b"
proof (induction ds arbitrary: b)
  case (Cons d ds)
  obtain ok b1 where s: "send_to d (OpenUrl url) b = (ok, b1)" by fastforce
  have "links b1 = links b" using links_send_to[of d "OpenUrl url" b] s by simp
  with Cons[of b1] s show ?case by (auto simp: case_prod_beta)
qed simp

section \<open>Properties\<close>

text \<open>
  Nothing an authorisation message does can change who is paired: after any sequence of
  inbound messages, from whatever peers and with whatever content, the registry holds the
  same devices with the same names, addresses and pinned keys.
\<close>

theorem auth_messages_keep_the_pinned_keys:
  "pinned_of (au_reg (foldl auth_step st evs)) = pinned_of (au_reg st)"
  by (rule aus.run_keeps) simp

text \<open>
  A paired peer can authorise itself: one \<open>AuthRequest\<close> with the mutual flag, which no
  one on this side confirms, makes the registry list the peer as authorised, so that under
  the policy \<open>Unlisted\<close> its files and links are no longer held back.
\<close>

theorem mutual_request_authorizes_its_sender:
  assumes "au_reg st = Inr ps" "find_by_id ps pid = Some p" "ae_save_ok ev"
    and "list_all (\<lambda>q. peer_name q = pid \<longrightarrow> peer_id q = pid) ps"
  shows "\<exists>ps'. au_reg (auth_handle_inbound ev pid (AuthRequest True info) st) = Inr ps'
    \<and> is_authorized ps' pid \<and> \<not> needs_confirm (Inr ps') Unlisted pid"
proof -
  let ?st = "st\<lparr>au_bus := snd (send_to pid (AuthReply True (ae_local ev)) (au_bus st))\<rparr>"
  have "au_reg ?st = Inr ps" using assms(1) by simp
  with store_auth_authorizes[of ev ?st ps pid p info] assms
  obtain ps' where "store_auth ev pid info ?st = (Inr (), ?st\<lparr>au_reg := Inr ps'\<rparr>)" "is_authorized ps' pid"
    by (auto simp: list_all_iff)
  then show ?thesis by (auto simp: needs_confirm_def)
qed

definition ex_info :: device_info where
  "ex_info = \<lparr>di_hostname = ''h'', di_macs = [''aa''], di_os = ''linux''\<rparr>"

definition ex_auth :: "peers \<Rightarrow> auth_mgr" where
  "ex_auth ps = \<lparr>au_bus = \<lparr>links = [], chans = (\<lambda>_. \<lparr>queue = [], cap = 64, closed = False\<rparr>)\<rparr>,
     au_pending = (\<lambda>_. None), au_woken = [], au_reg = Inr ps, au_posted = []\<rparr>"

theorem mutual_request_authorizes_its_sender_witness:
  "\<not> needs_confirm (au_reg (auth_handle_inbound \<lparr>ae_local = ex_info, ae_save_ok = True\<rparr> ''id-a''
        (AuthRequest True ex_info) (ex_auth [peer_ex ''a'' ''id-a'']))) Unlisted ''id-a''
   \<and> needs_confirm (au_reg (ex_auth [peer_ex ''a'' ''id-a''])) Unlisted ''id-a''"
  using mutual_request_authorizes_its_sender[of "ex_auth [peer_ex ''a'' ''id-a'']" "[peer_ex ''a'' ''id-a'']"
      "''id-a''" "peer_ex ''a'' ''id-a''" "\<lparr>ae_local = ex_info, ae_save_ok = True\<rparr>" ex_info]
  by (auto simp: ex_auth_def peer_ex_def peer_new_def find_by_id_def needs_confirm_def is_authorized_def)

text \<open>
  The authorisation lands on the wrong device when one peer is named like another's
  device id: the lookup takes names and ids alike, so a request from the device \<open>id-b\<close>
  authorises the peer called \<open>id-b\<close> and leaves the requester unauthorised.
\<close>

theorem authorization_confused_by_name:
  "\<exists>ps'. au_reg (auth_handle_inbound \<lparr>ae_local = ex_info, ae_save_ok = True\<rparr> ''id-b'' (AuthRequest True ex_info)
      (ex_auth [peer_ex ''id-b'' ''id-a'', peer_ex ''b'' ''id-b'']))
   = Inr ps' \<and> is_authorized ps' ''id-a'' \<and> \<not> is_authorized ps' ''id-b''"
  by (auto simp: ex_auth_def ex_info_def peer_ex_def peer_new_def find_by_id_def is_authorized_def
      store_auth_def record_auth_def Let_def)

text \<open>
  Refreshing on reconnect never revokes and never grants: a device that is authorised
  stays so, and if the device is not authorised the registry is untouched.
\<close>

theorem refresh_never_revokes:
  assumes "au_reg st = Inr ps" "list_all (\<lambda>q. peer_name q = pid \<longrightarrow> peer_id q = pid) ps"
  shows "\<exists>ps'. au_reg (refresh ev reply pid st) = Inr ps' \<and> map pinned ps' = map pinned ps
    \<and> is_authorized ps' pid = is_authorized ps pid
    \<and> (\<not> is_authorized ps pid \<longrightarrow> ps' = ps)"
proof (cases "is_authorized ps pid")
  case False
  then show ?thesis
    using assms(1) by (auto simp: refresh_def is_authorized_def split: option.splits)
next
  case True
  then obtain p where p: "find_by_id ps pid = Some p" "authorized p"
    by (auto simp: is_authorized_def split: option.splits)
  obtain r st1 where x: "exchange ev reply pid False st = (r, st1)" by fastforce
  have reg1: "au_reg st1 = Inr ps" using exchange_reg[of ev reply pid False st] x assms(1) by simp
  show ?thesis
  proof (cases r)
    case (Inl e)
    then show ?thesis using x p assms(1) reg1 True by (simp add: refresh_def)
  next
    case (Inr info)
    have fin: "\<exists>ps'. au_reg (snd (store_auth ev pid info st2)) = Inr ps' \<and> map pinned ps' = map pinned ps
        \<and> is_authorized ps' pid" if reg2: "au_reg st2 = Inr ps" for st2
    proof (cases "ae_save_ok ev")
      case True
      from store_auth_authorizes[OF True reg2 p(1), of info] assms(2) show ?thesis
        using store_auth_pinned[of ev pid info st2] reg2
        by (auto simp: list_all_iff pinned_of_def)
    next
      case False
      then show ?thesis
        using reg2 \<open>is_authorized ps pid\<close>
        by (auto simp: store_auth_def record_auth_def split: option.splits)
    qed
    define st2 where "st2 = (if \<not> macs_still_match (macs p) (di_macs info)
        then st1\<lparr>au_posted := au_posted st1 @ [(''Authorized device on a new network'',
               di_hostname info @ '' '' @ em_dash @ '' still trusted (its key is pinned)'')]\<rparr> else st1)"
    have "au_reg st2 = Inr ps" "refresh ev reply pid st = snd (store_auth ev pid info st2)"
      using x p assms(1) reg1 Inr by (simp_all add: refresh_def Let_def st2_def)
    with fin[of st2] True show ?thesis by auto
  qed
qed

theorem refresh_never_revokes_witness:
  "\<exists>ps'. au_reg (refresh \<lparr>ae_local = ex_info, ae_save_ok = True\<rparr> (Replied ex_info) ''id-a''
        (ex_auth [peer_ex ''a'' ''id-a''])) = Inr ps' \<and> \<not> is_authorized ps' ''id-a''"
  using refresh_never_revokes[of "ex_auth [peer_ex ''a'' ''id-a'']" "[peer_ex ''a'' ''id-a'']" "''id-a''"
      "\<lparr>ae_local = ex_info, ae_save_ok = True\<rparr>" "Replied ex_info"]
  by (auto simp: ex_auth_def peer_ex_def peer_new_def find_by_id_def is_authorized_def)

text \<open>
  A link from a peer starts the launcher exactly when it passes the URL filter and the
  policy does not hold it back, once and with that very string as its only argument; a held
  link starts nothing and is shown instead.
\<close>

theorem link_launched_iff_allowed:
  "launched (weblink_handle_inbound reg spawn_ok pid url policy)
     = (if is_allowed_url url \<and> \<not> needs_confirm reg policy pid \<and> spawn_ok then [url] else [])
   \<and> (shown (weblink_handle_inbound reg True pid url policy) = [] \<longleftrightarrow> \<not> is_allowed_url url)"
  by (simp add: weblink_handle_inbound_def)

text \<open>
  The filter judges the trimmed link, the launcher gets the raw one: a link that begins
  with a line feed and ends with blanks is launched with them.
\<close>

theorem link_launched_untrimmed:
  "launched (weblink_handle_inbound reg True pid (CHR 0x0A # ''https://x.org  '') Never)
     = [CHR 0x0A # ''https://x.org  '']"
proof -
  have t: "trim (CHR 0x0A # ''https://x.org  '') = ''https://x.org''"
    by (simp add: trim_def chars_ascii ws_item_def is_whitespace_def)
  have "is_allowed_url (CHR 0x0A # ''https://x.org  '')"
    unfolding is_allowed_url_def t
    by (simp add: chars_ascii url_bad_char_def is_control_def is_whitespace_def URL_SCHEME_ALLOWLIST_def
        eq_ignore_ascii_case_def to_ascii_lowercase_def ascii_lower_def starts_with_def)
  then show ?thesis by (simp add: weblink_handle_inbound_def needs_confirm_def)
qed

end
