(* ===== verification/Connection.thy ===== *)
theory Connection
  imports Frame
begin

text \<open>
  \<open>crates/qdropd/src/connection.rs\<close>: the \<open>Hello\<close> handshake and the loop of a live
  connection. The loop is a step function on the events its \<open>select!\<close> can see, each with
  the time at which it fires and the outcome of the writes it leads to; the reader task is a
  function of the incoming stream. Times are milliseconds.
\<close>

section \<open>Handshake\<close>

record keep_alive =
  ka_interval :: nat
  idle_timeout :: nat
  handshake_timeout :: nat

definition keep_alive_default :: keep_alive where
  "keep_alive_default = \<lparr>ka_interval = 15000, idle_timeout = 45000, handshake_timeout = 10000\<rparr>"

datatype disconnect_reason = PeerClosed | IdleTimeout | WriteError | ProtocolError string

record handshake_ok =
  hs_peer :: hello
  hs_caps :: caps

datatype handshake_error =
    HsTimeout
  | VersionMismatch u32 u32
  | IdentityMismatch
  | HsIo io_kind
  | HsNotHello message
  | HsFrame frame_error

text \<open>\<open>late\<close> says that the time limit passes before the exchange is over.\<close>

definition handshake ::
  "(message \<Rightarrow> bytes option) \<Rightarrow> (bytes \<Rightarrow> message option) \<Rightarrow> bool \<Rightarrow> hello \<Rightarrow> string option
     \<Rightarrow> stream \<Rightarrow> writer \<Rightarrow> (handshake_error, handshake_ok) res \<times> stream \<times> writer" where
  "handshake enc dec late local expect_id r w =
    (if late then (Inl HsTimeout, r, w)
     else (case write_message enc w (Hello local) of
        (Inl e, w) \<Rightarrow> (Inl (HsIo e), r, w)
      | (Inr _, w) \<Rightarrow>
          (case read_message dec r of
             (Inl e, r) \<Rightarrow> (Inl (HsFrame e), r, w)
           | (Inr (Hello peer), r) \<Rightarrow>
               if protocol_version peer \<noteq> PROTOCOL_VERSION
               then (Inl (VersionMismatch PROTOCOL_VERSION (protocol_version peer)), r, w)
               else if (case expect_id of Some d \<Rightarrow> hello_id peer \<noteq> d | None \<Rightarrow> False)
               then (Inl IdentityMismatch, r, w)
               else (Inr \<lparr>hs_peer = peer, hs_caps = intersect (hello_caps local) (hello_caps peer)\<rparr>, r, w)
           | (Inr other, r) \<Rightarrow> (Inl (HsNotHello other), r, w))))"

section \<open>The reader task\<close>

text \<open>
  The text of a frame error; \<open>os\<close> and \<open>codec\<close> are the texts the system and the
  decoder give their own errors.
\<close>

fun frame_error_text :: "(io_kind \<Rightarrow> string) \<Rightarrow> string \<Rightarrow> frame_error \<Rightarrow> string" where
  "frame_error_text os codec Closed = ''connection closed''"
| "frame_error_text os codec (TooLarge n) =
     ''frame of '' @ dec_str n @ '' bytes exceeds the '' @ dec_str MAX_FRAME_LEN @ ''-byte limit''"
| "frame_error_text os codec Decode = ''malformed frame: '' @ codec"
| "frame_error_text os codec (FrameIo k) = os k"

lemma read_message_shrinks:
  "read_message dec s = (Inr m, s') \<Longrightarrow> length (s_data s') < length (s_data s)"
  by (drule read_message_Inr) auto

function reader ::
  "(io_kind \<Rightarrow> string) \<Rightarrow> string \<Rightarrow> (bytes \<Rightarrow> message option) \<Rightarrow> stream \<Rightarrow> (string, message) res list" where
  "reader os codec dec s =
    (case read_message dec s of
       (Inr msg, s') \<Rightarrow> Inr msg # reader os codec dec s'
     | (Inl e, s') \<Rightarrow> if is_disconnect e then [Inl []] else [Inl (frame_error_text os codec e)])"
  by pat_completeness auto
termination
  by (relation "measure (\<lambda>(_, _, _, s). length (s_data s))") (auto dest: read_message_shrinks[OF sym])

declare reader.simps [simp del]

section \<open>The connection loop\<close>

record conn_state =
  cn_seq :: u64
  cn_deadline :: nat
  cn_written :: "message list"
  cn_inbound :: "(string \<times> message) list"
  cn_done :: "disconnect_reason option"

definition conn_start :: "keep_alive \<Rightarrow> nat \<Rightarrow> conn_state" where
  "conn_start ka now =
    \<lparr>cn_seq = 0, cn_deadline = now + idle_timeout ka, cn_written = [], cn_inbound = [], cn_done = None\<rparr>"

text \<open>
  What wakes the loop: a keepalive tick, something (or the end) of the outbound channel, a
  result (or the end) of the reader.
\<close>

datatype conn_event =
    PingTick
  | OutboundRecv "message option"
  | FrameRecv "(string, message) res option"
  | IdleSleep

definition conn_write :: "bool \<Rightarrow> message \<Rightarrow> conn_state \<Rightarrow> conn_state" where
  "conn_write ok m st =
    (if ok then st\<lparr>cn_written := cn_written st @ [m]\<rparr> else st\<lparr>cn_done := Some WriteError\<rparr>)"

fun on_frame :: "string \<Rightarrow> bool \<Rightarrow> bool \<Rightarrow> message \<Rightarrow> conn_state \<Rightarrow> conn_state" where
  "on_frame pid write_ok hub_ok (Ping n) st = conn_write write_ok (Pong n) st"
| "on_frame pid write_ok hub_ok (Pong n) st = st"
| "on_frame pid write_ok hub_ok (Hello h) st = st"
| "on_frame pid write_ok hub_ok other st =
     (if hub_ok then st\<lparr>cn_inbound := cn_inbound st @ [(pid, other)]\<rparr>
      else st\<lparr>cn_done := Some PeerClosed\<rparr>)"

text \<open>
  One turn; \<open>biased\<close> makes the idle deadline win over everything else that is ready.
  \<open>write_ok\<close> and \<open>hub_ok\<close> are the outcomes of writing to the peer and of handing a
  frame to the router.
\<close>

definition conn_step ::
  "keep_alive \<Rightarrow> string \<Rightarrow> conn_state \<Rightarrow> nat \<times> bool \<times> bool \<times> conn_event \<Rightarrow> conn_state" where
  "conn_step ka pid st e =
    (case e of (now, write_ok, hub_ok, ev) \<Rightarrow>
      if cn_done st \<noteq> None then st
      else if cn_deadline st \<le> now then st\<lparr>cn_done := Some IdleTimeout\<rparr>
      else (case ev of
         IdleSleep \<Rightarrow> st
       | PingTick \<Rightarrow>
           let st = st\<lparr>cn_seq := cn_seq st + 1\<rparr> in conn_write write_ok (Ping (cn_seq st)) st
       | OutboundRecv (Some m) \<Rightarrow> conn_write write_ok m st
       | OutboundRecv None \<Rightarrow> st\<lparr>cn_done := Some PeerClosed\<rparr>
       | FrameRecv None \<Rightarrow> st\<lparr>cn_done := Some PeerClosed\<rparr>
       | FrameRecv (Some (Inl t)) \<Rightarrow>
           st\<lparr>cn_done := Some (if t = [] then PeerClosed else ProtocolError t)\<rparr>
       | FrameRecv (Some (Inr m)) \<Rightarrow>
           on_frame pid write_ok hub_ok m (st\<lparr>cn_deadline := now + idle_timeout ka\<rparr>)))"

section \<open>Lemmas\<close>

fun is_app :: "message \<Rightarrow> bool" where
  "is_app (Ping _) = False"
| "is_app (Pong _) = False"
| "is_app (Hello _) = False"
| "is_app _ = True"

lemma on_frame_app: "is_app m \<Longrightarrow> on_frame pid w True m st = st\<lparr>cn_inbound := cn_inbound st @ [(pid, m)]\<rparr>"
  by (cases m) simp_all

lemma on_frame_inbound:
  "cn_inbound (on_frame pid True True m st) = cn_inbound st @ (if is_app m then [(pid, m)] else [])
   \<and> cn_done (on_frame pid True True m st) = cn_done st
   \<and> cn_deadline (on_frame pid True True m st) = cn_deadline st"
  by (cases m) (simp_all add: conn_write_def)

lemma reader_frames:
  "list_all (frame_ok enc dec) ms \<Longrightarrow>
     reader os codec dec (s\<lparr>s_data := concat (map (frame_bytes enc) ms) @ rest\<rparr>)
     = map Inr ms @ reader os codec dec (s\<lparr>s_data := rest\<rparr>)"
proof (induction ms)
  case (Cons m ms)
  then have "read_message dec (s\<lparr>s_data := frame_bytes enc m @ (concat (map (frame_bytes enc) ms) @ rest)\<rparr>)
      = (Inr m, s\<lparr>s_data := concat (map (frame_bytes enc) ms) @ rest\<rparr>)"
    by (intro fr.rd_wr) simp
  with Cons show ?case by (subst reader.simps) (simp add: append_assoc)
qed simp

lemma reader_eof: "reader os codec dec \<lparr>s_data = [], s_fail = None\<rparr> = [Inl []]"
  by (subst reader.simps) (simp add: read_message_def read_exact_def)

text \<open>The results of the reader that a run of the loop has taken.\<close>

fun received :: "(nat \<times> bool \<times> bool \<times> conn_event) list \<Rightarrow> (string, message) res list" where
  "received [] = []"
| "received ((_, _, _, FrameRecv (Some r)) # es) = r # received es"
| "received (_ # es) = received es"

lemma received_snoc:
  "received (es @ [e]) = received es @ (case e of (_, _, _, FrameRecv (Some r)) \<Rightarrow> [r] | _ \<Rightarrow> [])"
  by (induction es rule: received.induct) (auto split: conn_event.splits option.splits prod.splits)

lemma on_frame_handed:
  "cn_done st = None \<Longrightarrow> cn_done (on_frame pid w h m st) = None \<Longrightarrow>
     cn_inbound (on_frame pid w h m st) = cn_inbound st @ (if is_app m then [(pid, m)] else [])"
  "cn_done st = None \<Longrightarrow> cn_done (on_frame pid w h m st) \<noteq> None \<Longrightarrow> cn_inbound (on_frame pid w h m st) = cn_inbound st"
  by (cases m; auto simp: conn_write_def split: if_splits)+

text \<open>Whatever happens in a turn, an application frame is handed on if the connection survives it, and nothing else is.\<close>

lemma turn_handed:
  assumes "cn_done st = None" "st' = conn_step ka pid st (now, w, h, ev)"
  shows "cn_inbound st' = cn_inbound st \<and> cn_done st' \<noteq> None
    \<or> cn_inbound st' = cn_inbound st @ (case ev of FrameRecv (Some (Inr m)) \<Rightarrow> if is_app m then [(pid, m)] else [] | _ \<Rightarrow> [])
      \<and> cn_done st' = None \<and> (\<forall>t. ev \<noteq> FrameRecv (Some (Inl t)))"
proof (cases "cn_deadline st \<le> now")
  case True
  then show ?thesis using assms by (simp add: conn_step_def)
next
  case False
  show ?thesis
  proof (cases "\<exists>m. ev = FrameRecv (Some (Inr m))")
    case True
    then obtain m where ev: "ev = FrameRecv (Some (Inr m))" by blast
    let ?q = "st\<lparr>cn_deadline := now + idle_timeout ka\<rparr>"
    have "st' = on_frame pid w h m ?q" using assms False by (simp add: conn_step_def ev)
    then show ?thesis using on_frame_handed[of ?q pid w h m] assms(1) by (cases "cn_done st'") (auto simp: ev)
  next
    case False
    then show ?thesis using assms \<open>\<not> cn_deadline st \<le> now\<close>
      by (auto simp: conn_step_def conn_write_def Let_def split: conn_event.splits option.splits sum.splits)
  qed
qed

lemma next_received:
  assumes "n \<le> length ms" "prefix (map Inr (take n ms) @ [Inr m]) (map Inr ms @ [Inl t])"
  shows "n < length ms \<and> ms ! n = m"
proof -
  have "map Inr ms @ [Inl t] = map Inr (take n ms) @ map Inr (drop n ms) @ [Inl t]"
    by (metis append.assoc append_take_drop_id map_append)
  then have "prefix [Inr m] (map Inr (drop n ms) @ [Inl t])" using assms(2) by simp
  then have "drop n ms \<noteq> [] \<and> hd (drop n ms) = m" by (cases "drop n ms") auto
  then show ?thesis using hd_drop_conv_nth[of n ms] by auto
qed

lemma run_handed:
  assumes "prefix (received es) (map Inr ms @ [Inl []])" "st = foldl (conn_step ka pid) (conn_start ka t0) es"
  shows "prefix (cn_inbound st) (map (Pair pid) (filter is_app ms))
    \<and> (cn_done st = None \<longrightarrow> (\<exists>n\<le>length ms. received es = map Inr (take n ms) \<and> cn_inbound st = map (Pair pid) (filter is_app (take n ms))))"
  using assms
proof (induction es arbitrary: st rule: rev_induct)
  case Nil
  then show ?case by (simp add: conn_start_def exI[of _ 0])
next
  case (snoc e es)
  define q where "q = foldl (conn_step ka pid) (conn_start ka t0) es"
  obtain now w h ev where e: "e = (now, w, h, ev)" by (metis prod_cases4)
  have st: "st = conn_step ka pid q (now, w, h, ev)" using snoc.prems(2) by (simp add: q_def e)
  have pre: "prefix (received es) (map Inr ms @ [Inl []])"
    using snoc.prems(1) unfolding received_snoc by (meson prefix_order.trans prefixI)
  note IH = snoc.IH[OF pre q_def]
  show ?case
  proof (cases "cn_done q")
    case (Some r)
    then have "st = q" by (simp add: st conn_step_def)
    with IH Some show ?thesis by simp
  next
    case None
    with IH obtain n where n: "n \<le> length ms" "received es = map Inr (take n ms)"
      "cn_inbound q = map (Pair pid) (filter is_app (take n ms))" by blast
    from turn_handed[OF None st] show ?thesis
    proof
      assume a: "cn_inbound st = cn_inbound q \<and> cn_done st \<noteq> None"
      then show ?thesis using IH by auto
    next
      assume a: "cn_inbound st = cn_inbound q @ (case ev of FrameRecv (Some (Inr m)) \<Rightarrow> if is_app m then [(pid, m)] else [] | _ \<Rightarrow> [])
        \<and> cn_done st = None \<and> (\<forall>t. ev \<noteq> FrameRecv (Some (Inl t)))"
      show ?thesis
      proof (cases "\<exists>m. ev = FrameRecv (Some (Inr m))")
        case True
        then obtain m where ev: "ev = FrameRecv (Some (Inr m))" by blast
        have "prefix (map Inr (take n ms) @ [Inr m]) (map Inr ms @ [Inl ([] :: string)])"
          using snoc.prems(1) n(2) by (simp add: received_snoc e ev)
        then have "n < length ms \<and> ms ! n = m" by (rule next_received[OF n(1)])
        then have t: "take (Suc n) ms = take n ms @ [m]" "Suc n \<le> length ms" by (auto simp: take_Suc_conv_app_nth)
        have i: "cn_inbound st = map (Pair pid) (filter is_app (take (Suc n) ms))" using a n(3) by (simp add: ev t(1))
        have "prefix (filter is_app (take (Suc n) ms)) (filter is_app ms)"
          by (metis append_take_drop_id filter_append prefixI)
        then have "prefix (cn_inbound st) (map (Pair pid) (filter is_app ms))" unfolding i by (rule map_mono_prefix)
        moreover have "received (es @ [e]) = map Inr (take (Suc n) ms)" using n(2) t(1) by (simp add: received_snoc e ev)
        ultimately show ?thesis using i t(2) by blast
      next
        case False
        then have "cn_inbound st = cn_inbound q" "received (es @ [e]) = received es"
          using a by (auto simp: received_snoc e split: conn_event.splits option.splits sum.splits)
        then show ?thesis using IH n by auto
      qed
    qed
  qed
qed

text \<open>
  A run in which nothing ends the connection: every turn before the deadline, no write or hand-over
  that fails, no end of a channel, no error of the reader.
\<close>

fun undisturbed :: "keep_alive \<Rightarrow> nat \<Rightarrow> (nat \<times> bool \<times> bool \<times> conn_event) list \<Rightarrow> bool" where
  "undisturbed ka t0 [] \<longleftrightarrow> True"
| "undisturbed ka t0 ((now, write_ok, hub_ok, ev) # es) \<longleftrightarrow>
     now < t0 + idle_timeout ka \<and> write_ok \<and> hub_ok
     \<and> (case ev of
          FrameRecv (Some (Inr m)) \<Rightarrow> undisturbed ka now es
        | FrameRecv _ \<Rightarrow> False
        | OutboundRecv None \<Rightarrow> False
        | _ \<Rightarrow> undisturbed ka t0 es)"

lemma undisturbed_stays_up:
  "undisturbed ka t0 es \<Longrightarrow> cn_done st = None \<Longrightarrow> cn_deadline st = t0 + idle_timeout ka \<Longrightarrow>
     cn_done (foldl (conn_step ka pid) st es) = None"
proof (induction es arbitrary: t0 st)
  case (Cons e es)
  obtain now w h ev where e: "e = (now, w, h, ev)" by (metis prod_cases4)
  let ?q = "conn_step ka pid st (now, w, h, ev)"
  have up: "\<not> cn_deadline st \<le> now" "w" "h" using Cons.prems e by auto
  show ?case
  proof (cases "\<exists>m. ev = FrameRecv (Some (Inr m))")
    case True
    then obtain m where ev: "ev = FrameRecv (Some (Inr m))" by blast
    have "cn_done ?q = None \<and> cn_deadline ?q = now + idle_timeout ka"
      using up Cons.prems(2) on_frame_inbound[of pid m "st\<lparr>cn_deadline := now + idle_timeout ka\<rparr>"] by (simp add: conn_step_def ev)
    with Cons.IH[of now ?q] Cons.prems(1) show ?thesis by (simp add: e ev)
  next
    case False
    then have "undisturbed ka t0 es \<and> cn_done ?q = None \<and> cn_deadline ?q = t0 + idle_timeout ka"
      using up Cons.prems unfolding e
      by (auto simp: conn_step_def conn_write_def Let_def split: conn_event.splits option.splits sum.splits)
    with Cons.IH[of t0 ?q] show ?thesis by (simp add: e)
  qed
qed simp

lemma write_message_ok:
  assumes "frame_ok enc dec m" "w_fail w = None"
  shows "fst (write_message enc w m) = Inr ()"
proof -
  obtain body where "enc m = Some body" "length body \<le> MAX_FRAME_LEN"
    using assms(1) by (auto simp: frame_ok_def split: option.splits)
  then show ?thesis using write_message_out[OF assms(2), of enc m body] by (simp add: MAX_FRAME_LEN_def)
qed

text \<open>One side: what it writes, and what it makes of the \<open>Hello\<close> it reads.\<close>

lemma handshake_one:
  assumes "frame_ok enc dec (Hello l)" "frame_ok enc dec (Hello p)" "w_fail w = None"
    and "handshake enc dec False l e \<lparr>s_data = frame_bytes enc (Hello p) @ r, s_fail = f\<rparr> w = (res, s', w')"
  shows "res = (if protocol_version p \<noteq> PROTOCOL_VERSION then Inl (VersionMismatch PROTOCOL_VERSION (protocol_version p))
      else if e \<noteq> None \<and> e \<noteq> Some (hello_id p) then Inl IdentityMismatch
      else Inr \<lparr>hs_peer = p, hs_caps = intersect (hello_caps l) (hello_caps p)\<rparr>)"
proof -
  have "read_message dec \<lparr>s_data = frame_bytes enc (Hello p) @ r, s_fail = f\<rparr> = (Inr (Hello p), \<lparr>s_data = r, s_fail = f\<rparr>)"
    using fr.rd_wr[OF assms(2), where s = "\<lparr>s_data = [], s_fail = f\<rparr>" and rest = r] by simp
  with write_message_ok[OF assms(1,3)] assms(4) show ?thesis
    by (cases e) (auto simp: handshake_def case_prod_beta split: sum.splits if_splits)
qed

lemma write_message_frame:
  assumes "frame_ok enc dec m" "w_fail w = None"
  shows "w_out (snd (write_message enc w m)) = w_out w @ frame_bytes enc m"
proof -
  obtain b where b: "enc m = Some b" "length b \<le> MAX_FRAME_LEN" using assms(1) by (auto simp: frame_ok_def split: option.splits)
  then show ?thesis using write_message_out[of w enc m b] frame_bytes_eq[of enc m b] assms(2) by (simp add: MAX_FRAME_LEN_def)
qed

lemma handshake_writes:
  assumes "frame_ok enc dec (Hello l)" "w_fail w = None" "handshake enc dec False l e s w = (res, s', w')"
  shows "w_out w' = w_out w @ frame_bytes enc (Hello l)"
  using assms(3) write_message_ok[OF assms(1,2)] write_message_frame[OF assms(1,2)]
  by (auto simp: handshake_def case_prod_beta split: sum.splits if_splits message.splits)

section \<open>Properties\<close>

text \<open>
  C20. The handshake agrees: let each side read what the other wrote in its own handshake, within the
  time limit. Then a side succeeds exactly if the other speaks this protocol version and is the
  expected device (if one is expected); a wrong version and a wrong device are reported as such;
  and where both succeed, each has learnt the other's \<open>Hello\<close> and both hold the same
  capabilities, each of which is on exactly if both sides offered it.
\<close>

theorem handshake_agrees:
  assumes "frame_ok enc dec (Hello a)" "frame_ok enc dec (Hello b)"
    and "handshake enc dec False a ea \<lparr>s_data = w_out wb, s_fail = None\<rparr> empty_writer = (ha, ra, wa)"
    and "handshake enc dec False b eb \<lparr>s_data = w_out wa, s_fail = None\<rparr> empty_writer = (hb, rb, wb)"
  shows "((\<exists>x. ha = Inr x) \<longleftrightarrow> protocol_version b = PROTOCOL_VERSION \<and> (ea = None \<or> ea = Some (hello_id b)))
    \<and> ((\<exists>y. hb = Inr y) \<longleftrightarrow> protocol_version a = PROTOCOL_VERSION \<and> (eb = None \<or> eb = Some (hello_id a)))
    \<and> (protocol_version b \<noteq> PROTOCOL_VERSION \<longrightarrow> ha = Inl (VersionMismatch PROTOCOL_VERSION (protocol_version b)))
    \<and> (protocol_version b = PROTOCOL_VERSION \<and> ea \<noteq> None \<and> ea \<noteq> Some (hello_id b) \<longrightarrow> ha = Inl IdentityMismatch)
    \<and> (\<forall>x y. ha = Inr x \<and> hb = Inr y \<longrightarrow> hs_peer x = b \<and> hs_peer y = a \<and> hs_caps x = hs_caps y
         \<and> list_all (\<lambda>c. c (hs_caps x) \<longleftrightarrow> c (hello_caps a) \<and> c (hello_caps b))
             [clipboard_text, clipboard_images, file_send, open_url, auth])"
proof -
  have w: "w_fail empty_writer = None" "w_out empty_writer = []" by (simp_all add: empty_writer_def)
  have "w_out wa = frame_bytes enc (Hello a)" "w_out wb = frame_bytes enc (Hello b)"
    using handshake_writes[OF assms(1) w(1) assms(3)] handshake_writes[OF assms(2) w(1) assms(4)] w(2) by simp_all
  then have "ha = (if protocol_version b \<noteq> PROTOCOL_VERSION then Inl (VersionMismatch PROTOCOL_VERSION (protocol_version b))
      else if ea \<noteq> None \<and> ea \<noteq> Some (hello_id b) then Inl IdentityMismatch
      else Inr \<lparr>hs_peer = b, hs_caps = intersect (hello_caps a) (hello_caps b)\<rparr>)"
    "hb = (if protocol_version a \<noteq> PROTOCOL_VERSION then Inl (VersionMismatch PROTOCOL_VERSION (protocol_version a))
      else if eb \<noteq> None \<and> eb \<noteq> Some (hello_id a) then Inl IdentityMismatch
      else Inr \<lparr>hs_peer = a, hs_caps = intersect (hello_caps a) (hello_caps b)\<rparr>)"
    using handshake_one[OF assms(1,2) w(1), of ea "[]" None ha ra wa] handshake_one[OF assms(2,1) w(1), of eb "[]" None hb rb wb] assms(3,4)
    by (simp_all add: intersect_comm[of "hello_caps b"])
  then show ?thesis by (auto simp: intersect_def)
qed

definition hello_enc :: "message \<Rightarrow> bytes option" where
  "hello_enc m = (case m of Hello h \<Rightarrow> Some (str_bytes (hello_id h)) | _ \<Rightarrow> None)"

definition hello_dec :: "bytes \<Rightarrow> message option" where
  "hello_dec b = Some (Hello \<lparr>protocol_version = 1, hello_id = bytes_str b, hello_name = [], hello_caps = caps_ALL\<rparr>)"

definition ex_hello :: "string \<Rightarrow> hello" where
  "ex_hello d = \<lparr>protocol_version = 1, hello_id = d, hello_name = [], hello_caps = caps_ALL\<rparr>"

lemma ex_hello_ok: "length d \<le> 100 \<Longrightarrow> frame_ok hello_enc hello_dec (Hello (ex_hello d))"
  by (simp add: frame_ok_def hello_enc_def hello_dec_def ex_hello_def MAX_FRAME_LEN_def)

theorem handshake_agrees_witness:
  "\<exists>x. fst (handshake hello_enc hello_dec False (ex_hello ''a'') (Some ''b'')
      \<lparr>s_data = frame_bytes hello_enc (Hello (ex_hello ''b'')), s_fail = None\<rparr> empty_writer) = Inr x"
proof -
  let ?run = "\<lambda>l e p. handshake hello_enc hello_dec False (ex_hello l) e \<lparr>s_data = frame_bytes hello_enc (Hello (ex_hello p)), s_fail = None\<rparr> empty_writer"
  have ok: "frame_ok hello_enc hello_dec (Hello (ex_hello ''a''))" "frame_ok hello_enc hello_dec (Hello (ex_hello ''b''))"
    by (simp_all add: ex_hello_ok)
  obtain ha ra wa hb rb wb where r: "?run ''a'' (Some ''b'') ''b'' = (ha, ra, wa)" "?run ''b'' None ''a'' = (hb, rb, wb)"
    by (metis prod_cases3)
  have w: "w_out wa = frame_bytes hello_enc (Hello (ex_hello ''a''))" "w_out wb = frame_bytes hello_enc (Hello (ex_hello ''b''))"
    using handshake_writes[OF ok(1) _ r(1)] handshake_writes[OF ok(2) _ r(2)] by (simp_all add: empty_writer_def)
  have "\<exists>x. ha = Inr x"
    using handshake_agrees[OF ok, of "Some ''b''" wb ha ra wa None hb rb] r unfolding w by (simp add: ex_hello_def PROTOCOL_VERSION_def)
  then show ?thesis using r(1) by simp
qed

text \<open>
  A handshake that succeeds has checked its peer: the version is ours, the device id is
  the expected one if one was expected, and no capability is on that we did not offer.
\<close>

theorem handshake_checks_the_peer:
  assumes "fst (handshake enc dec late local (Some d) r w) = Inr hs"
  shows "protocol_version (hs_peer hs) = PROTOCOL_VERSION \<and> hello_id (hs_peer hs) = d
    \<and> hs_caps hs = intersect (hello_caps local) (hello_caps (hs_peer hs))"
  using assms
  by (auto simp: handshake_def split: if_splits prod.splits sum.splits message.splits)

theorem handshake_checks_the_peer_witness:
  "hello_id (hs_peer \<lparr>hs_peer = ex_hello ''b'', hs_caps = caps_ALL\<rparr>) = ''b''"
proof -
  have b: "char_of (98 :: nat) = CHR ''b''" by code_simp
  have "fst (handshake hello_enc hello_dec False (ex_hello ''a'') (Some ''b'')
      \<lparr>s_data = [0, 0, 0, 1, 98], s_fail = None\<rparr> empty_writer)
    = Inr \<lparr>hs_peer = ex_hello ''b'', hs_caps = caps_ALL\<rparr>"
    by (simp add: handshake_def write_message_def write_all_def flush_def empty_writer_def hello_enc_def
        read_message_def read_exact_def be_val_def MAX_FRAME_LEN_def hello_dec_def ex_hello_def
        PROTOCOL_VERSION_def bytes_str_def b)
  from handshake_checks_the_peer[OF this] show ?thesis by simp
qed

text \<open>
  C21. What the peer sends is handed on, in order: let the peer write a sequence of messages and
  close, and let the loop take what the reader makes of it among keepalive ticks, messages to
  the peer and waiting, in any order, with any of its writes and hand-overs failing. What
  reaches the router is then always a beginning of the application frames among the messages,
  in their order and under the peer's id, and no control frame; while the connection is up it is
  every application frame read so far, so that frames are lost only with the connection; and
  the connection stays up as long as each turn is within the idle timeout of the last frame and
  neither a write nor a hand-over fails nor a channel or the stream ends; such a run that has
  taken every frame has handed on every application frame, and the end of the stream, taken in
  time, ends the connection as closed by the peer.
\<close>

theorem peer_frames_reach_the_router:
  assumes "list_all (frame_ok enc dec) ms"
    and "rs = reader os codec dec \<lparr>s_data = concat (map (frame_bytes enc) ms), s_fail = None\<rparr>"
    and "prefix (received es) rs" "st = foldl (conn_step ka pid) (conn_start ka t0) es"
  shows "prefix (cn_inbound st) (map (Pair pid) (filter is_app ms))
    \<and> (cn_done st = None \<longrightarrow> (\<exists>n\<le>length ms. received es = map Inr (take n ms) \<and> cn_inbound st = map (Pair pid) (filter is_app (take n ms))))
    \<and> (undisturbed ka t0 es \<longrightarrow> cn_done st = None
         \<and> (received es = map Inr ms \<and> now < cn_deadline st \<longrightarrow>
              (let st' = conn_step ka pid st (now, w, h, FrameRecv (Some (last rs)))
               in cn_inbound st' = map (Pair pid) (filter is_app ms) \<and> cn_done st' = Some PeerClosed)))"
proof -
  have rs: "rs = map Inr ms @ [Inl []]"
    using reader_frames[OF assms(1), where s = "\<lparr>s_data = [], s_fail = None\<rparr>" and rest = "[]" and os = os and codec = codec]
      reader_eof[of os codec dec] by (simp add: assms(2))
  with assms(3) have "prefix (received es) (map Inr ms @ [Inl []])" by simp
  note run = run_handed[OF this assms(4)]
  have up: "undisturbed ka t0 es \<longrightarrow> cn_done st = None"
    using undisturbed_stays_up[of ka t0 es "conn_start ka t0" pid] by (simp add: assms(4) conn_start_def)
  have "cn_inbound st = map (Pair pid) (filter is_app ms)" if "undisturbed ka t0 es" "received es = map Inr ms"
  proof -
    from run up that obtain n where n: "map Inr ms = (map Inr (take n ms) :: (string, message) res list)"
      "cn_inbound st = map (Pair pid) (filter is_app (take n ms))" by auto
    then have "take n ms = ms" by (metis inj_map_eq_map inj_Inr)
    with n(2) show ?thesis by simp
  qed
  then have "undisturbed ka t0 es \<and> received es = map Inr ms \<and> now < cn_deadline st \<longrightarrow>
     cn_inbound (conn_step ka pid st (now, w, h, FrameRecv (Some (last rs)))) = map (Pair pid) (filter is_app ms)
   \<and> cn_done (conn_step ka pid st (now, w, h, FrameRecv (Some (last rs)))) = Some PeerClosed"
    using up by (auto simp: conn_step_def rs)
  with run up show ?thesis unfolding Let_def by blast
qed

text \<open>Two frames among a tick and a message of our own.\<close>

definition ping_run :: "(nat \<times> bool \<times> bool \<times> conn_event) list" where
  "ping_run = [(15000, True, True, PingTick), (20000, True, True, FrameRecv (Some (Inr (Ping 7)))),
     (30000, True, True, OutboundRecv (Some (OpenUrl []))), (60000, True, True, FrameRecv (Some (Inr (Pong 7))))]"

theorem peer_frames_reach_the_router_witness:
  "cn_done (foldl (conn_step keep_alive_default ''b'') (conn_start keep_alive_default 0) ping_run) = None"
proof -
  have a: "list_all (frame_ok ping_enc ping_dec) [Ping 7, Pong 7]"
    by (simp add: frame_ok_def ping_enc_def ping_dec_def MAX_FRAME_LEN_def)
  let ?s = "\<lparr>s_data = concat (map (frame_bytes ping_enc) [Ping 7, Pong 7]), s_fail = None\<rparr>"
  have "reader (\<lambda>_. []) [] ping_dec ?s = [Inr (Ping 7), Inr (Pong 7)] @ [Inl []]"
    using reader_frames[OF a, where s = "\<lparr>s_data = [], s_fail = None\<rparr>" and rest = "[]" and os = "\<lambda>_. []" and codec = "[]"]
      reader_eof[of "\<lambda>_. []" "[]" ping_dec] by simp
  then have "prefix (received ping_run) (reader (\<lambda>_. []) [] ping_dec ?s)" by (simp add: ping_run_def)
  from peer_frames_reach_the_router[OF a refl this refl, of keep_alive_default "''b''" 0] show ?thesis
    by (simp add: ping_run_def keep_alive_default_def)
qed

fun last_frame :: "nat \<Rightarrow> (nat \<times> bool \<times> bool \<times> conn_event) list \<Rightarrow> nat" where
  "last_frame t0 [] = t0"
| "last_frame t0 ((now, _, _, FrameRecv (Some (Inr _))) # es) = last_frame now es"
| "last_frame t0 (_ # es) = last_frame t0 es"

lemma last_frame_snoc:
  "last_frame t0 (es @ [e]) =
     (case e of (now, _, _, FrameRecv (Some (Inr _))) \<Rightarrow> now | _ \<Rightarrow> last_frame t0 es)"
  by (induction t0 es rule: last_frame.induct)
    (auto split: conn_event.splits option.splits sum.splits prod.splits)

lemma on_frame_deadline: "cn_deadline (on_frame pid w h m st) = cn_deadline st"
  by (cases m) (auto simp: conn_write_def)

lemma conn_deadline:
  "cn_done (foldl (conn_step ka pid) (conn_start ka t0) es) = None \<Longrightarrow>
     cn_deadline (foldl (conn_step ka pid) (conn_start ka t0) es) = last_frame t0 es + idle_timeout ka"
proof (induction es rule: rev_induct)
  case (snoc e es)
  let ?st = "foldl (conn_step ka pid) (conn_start ka t0) es"
  obtain now w h ev where e: "e = (now, w, h, ev)" by (metis prod_cases4)
  define q where "q = ?st"
  have st: "foldl (conn_step ka pid) (conn_start ka t0) (es @ [e]) = conn_step ka pid q (now, w, h, ev)"
    by (simp add: q_def e)
  have up: "cn_done q = None" using snoc.prems unfolding st by (auto simp: conn_step_def split: if_splits)
  with snoc have dl: "cn_deadline q = last_frame t0 es + idle_timeout ka" by (simp add: q_def)
  have "\<not> cn_deadline q \<le> now"
    using snoc.prems up unfolding st by (auto simp: conn_step_def split: if_splits)
  with snoc.prems up dl show ?case
    unfolding st
    by (cases ev) (auto simp: e conn_step_def last_frame_snoc conn_write_def on_frame_deadline Let_def
        split: option.splits sum.splits if_splits)
qed (simp add: conn_start_def)

text \<open>
  C22. A silent peer is dropped in time: as long as the connection is up, every turn of the
  loop happens before the last frame received (or the start) plus the idle timeout; what we
  send ourselves, pings included, never moves that deadline.
\<close>

theorem silent_peer_is_dropped:
  assumes "now \<ge> last_frame t0 es + idle_timeout ka"
    and "st = foldl (conn_step ka pid) (conn_start ka t0) (es @ [(now, w, h, ev)])"
  shows "cn_done st \<noteq> None"
proof
  assume up: "cn_done st = None"
  define q where "q = foldl (conn_step ka pid) (conn_start ka t0) es"
  have "st = conn_step ka pid q (now, w, h, ev)" by (simp add: assms(2) q_def)
  with up have "cn_done q = None" "\<not> cn_deadline q \<le> now"
    by (auto simp: conn_step_def split: if_splits)
  with conn_deadline[of ka pid t0 es] assms(1) show False by (simp add: q_def)
qed

theorem silent_peer_is_dropped_witness:
  "cn_done (foldl (conn_step keep_alive_default ''b'') (conn_start keep_alive_default 0)
     ([(15000, True, True, PingTick), (30000, True, True, PingTick)] @ [(45000, True, True, PingTick)])) \<noteq> None"
  by (rule silent_peer_is_dropped[OF _ refl]) (simp add: keep_alive_default_def)

end
