(* ===== verification/Roster.thy ===== *)
theory Roster
  imports Peers
begin

text \<open>
  \<open>crates/qdrop-core/src/roster.rs\<close>: the set of currently trusted peers, indexed by key
  and by device id, rebuilt from the registry. The lock around it is not modelled: every
  access is one call on the current value.
\<close>

section \<open>State and operations\<close>

record roster_peer =
  rp_id :: string
  rp_name :: string
  rp_key :: bytes
  rp_addrs :: "socket_addr list"

record roster =
  by_key :: "bytes \<rightharpoonup> roster_peer"
  by_id :: "string \<rightharpoonup> bytes"

definition roster_empty :: roster where
  "roster_empty = \<lparr>by_key = Map.empty, by_id = Map.empty\<rparr>"

definition is_trusted_key :: "roster \<Rightarrow> bytes \<Rightarrow> bool" where
  "is_trusted_key r k \<longleftrightarrow> by_key r k \<noteq> None"

definition is_trusted_id :: "roster \<Rightarrow> string \<Rightarrow> bool" where
  "is_trusted_id r d \<longleftrightarrow> by_id r d \<noteq> None"

definition key_for_id :: "roster \<Rightarrow> string \<Rightarrow> bytes option" where
  "key_for_id r d = by_id r d"

definition peer_for_key :: "roster \<Rightarrow> bytes \<Rightarrow> roster_peer option" where
  "peer_for_key r k = by_key r k"

definition static_addrs_for :: "roster \<Rightarrow> string \<Rightarrow> socket_addr list" where
  "static_addrs_for r d =
     (case Option.bind (by_id r d) (by_key r) of Some p \<Rightarrow> rp_addrs p | None \<Rightarrow> [])"

definition roster_insert :: "roster \<Rightarrow> roster_peer \<Rightarrow> roster" where
  "roster_insert r p =
     r\<lparr>by_id := (by_id r)(rp_id p \<mapsto> rp_key p), by_key := (by_key r)(rp_key p \<mapsto> p)\<rparr>"

definition roster_replace :: "roster \<Rightarrow> roster_peer list \<Rightarrow> roster" where
  "roster_replace r ps =
     foldl roster_insert (r\<lparr>by_key := Map.empty, by_id := Map.empty\<rparr>) ps"

text \<open>The parameters of loading: the base64 decoder and the name resolver.\<close>

definition roster_entry ::
  "(string \<Rightarrow> bytes option) \<Rightarrow> (string \<Rightarrow> socket_addr list option) \<Rightarrow> peer \<Rightarrow> roster_peer option" where
  "roster_entry unb64 resolve p =
     (case key_bytes unb64 p of
        Inr key \<Rightarrow> Some \<lparr>rp_id = peer_id p, rp_name = peer_name p, rp_key = key,
                         rp_addrs = static_addrs resolve p\<rparr>
      | Inl _ \<Rightarrow> None)"

definition roster_load ::
  "(string \<Rightarrow> bytes option) \<Rightarrow> (string \<Rightarrow> socket_addr list option) \<Rightarrow> roster \<Rightarrow> peers \<Rightarrow> roster" where
  "roster_load unb64 resolve r ps =
     roster_replace r (List.map_filter (roster_entry unb64 resolve) ps)"

definition roster_from_peers ::
  "(string \<Rightarrow> bytes option) \<Rightarrow> (string \<Rightarrow> socket_addr list option) \<Rightarrow> peers \<Rightarrow> roster" where
  "roster_from_peers unb64 resolve ps = roster_load unb64 resolve roster_empty ps"

section \<open>Lemmas\<close>

lemma roster_replace_from_empty: "roster_replace r ps = foldl roster_insert roster_empty ps"
  by (cases r) (simp add: roster_replace_def roster_empty_def)

lemma foldl_insert_by_key:
  "by_key (foldl roster_insert r ps) k =
     (case find (\<lambda>p. rp_key p = k) (rev ps) of Some p \<Rightarrow> Some p | None \<Rightarrow> by_key r k)"
  by (induction ps arbitrary: r) (auto simp: roster_insert_def find_append split: option.splits)

lemma foldl_insert_by_id:
  "by_id (foldl roster_insert r ps) d =
     (case find (\<lambda>p. rp_id p = d) (rev ps) of Some p \<Rightarrow> Some (rp_key p) | None \<Rightarrow> by_id r d)"
  by (induction ps arbitrary: r) (auto simp: roster_insert_def find_append split: option.splits)

lemmas replace_simps =
  roster_replace_from_empty foldl_insert_by_key foldl_insert_by_id roster_empty_def

lemma roster_entry_SomeD:
  "roster_entry unb64 resolve p = Some q \<Longrightarrow>
     key_bytes unb64 p = Inr (rp_key q) \<and> rp_id q = peer_id p \<and> rp_name q = peer_name p
     \<and> rp_addrs q = static_addrs resolve p"
  by (auto simp: roster_entry_def split: sum.splits)

lemma roster_entry_Some:
  "key_bytes unb64 p = Inr k \<Longrightarrow> \<exists>q. roster_entry unb64 resolve p = Some q \<and> rp_key q = k"
  by (auto simp: roster_entry_def)

lemma set_entries:
  "q \<in> set (List.map_filter (roster_entry unb64 resolve) ps) \<longleftrightarrow>
     (\<exists>p\<in>set ps. roster_entry unb64 resolve p = Some q)"
  by (auto simp: map_filter_def image_iff)

lemma load_by_key:
  "by_key (roster_load unb64 resolve r ps) k =
     find (\<lambda>q. rp_key q = k) (rev (List.map_filter (roster_entry unb64 resolve) ps))"
  by (simp add: roster_load_def replace_simps split: option.splits)

lemma load_by_id:
  "by_id (roster_load unb64 resolve r ps) d =
     map_option rp_key (find (\<lambda>q. rp_id q = d) (rev (List.map_filter (roster_entry unb64 resolve) ps)))"
  by (simp add: roster_load_def replace_simps split: option.splits)

lemma load_trusted_key:
  "is_trusted_key (roster_load unb64 resolve r ps) k \<longleftrightarrow> (\<exists>p\<in>set ps. key_bytes unb64 p = Inr k)"
proof -
  have "is_trusted_key (roster_load unb64 resolve r ps) k \<longleftrightarrow>
      (\<exists>q\<in>set (List.map_filter (roster_entry unb64 resolve) ps). rp_key q = k)"
    by (simp add: is_trusted_key_def load_by_key find_None_iff_all)
  also have "\<dots> \<longleftrightarrow> (\<exists>p\<in>set ps. key_bytes unb64 p = Inr k)"
    using set_entries roster_entry_SomeD roster_entry_Some by metis
  finally show ?thesis .
qed

lemma load_trusted_id:
  "is_trusted_id (roster_load unb64 resolve r ps) d \<longleftrightarrow>
     (\<exists>p\<in>set ps. peer_id p = d \<and> (\<exists>k. key_bytes unb64 p = Inr k))"
proof -
  have "is_trusted_id (roster_load unb64 resolve r ps) d \<longleftrightarrow>
      (\<exists>q\<in>set (List.map_filter (roster_entry unb64 resolve) ps). rp_id q = d)"
    by (simp add: is_trusted_id_def load_by_id find_None_iff_all)
  also have "\<dots> \<longleftrightarrow> (\<exists>p\<in>set ps. peer_id p = d \<and> (\<exists>k. key_bytes unb64 p = Inr k))"
    using set_entries roster_entry_SomeD roster_entry_Some by metis
  finally show ?thesis .
qed

lemma load_peer_for_key:
  assumes "peer_for_key (roster_load unb64 resolve r ps) k = Some q"
  shows "\<exists>p\<in>set ps. roster_entry unb64 resolve p = Some q \<and> rp_key q = k"
proof -
  have "q \<in> set (List.map_filter (roster_entry unb64 resolve) ps) \<and> rp_key q = k"
    using assms
    by (auto simp: peer_for_key_def load_by_key dest!: find_SomeD)
  then show ?thesis using set_entries by metis
qed

lemma load_key_for_id:
  assumes "key_for_id (roster_load unb64 resolve r ps) d = Some k"
  shows "\<exists>p\<in>set ps. peer_id p = d \<and> key_bytes unb64 p = Inr k"
proof -
  have "\<exists>q\<in>set (List.map_filter (roster_entry unb64 resolve) ps). rp_id q = d \<and> rp_key q = k"
    using assms
    by (auto simp: key_for_id_def load_by_id dest!: find_SomeD)
  then show ?thesis using set_entries roster_entry_SomeD by metis
qed

lemma load_key_for_wf_id:
  assumes "peers_wf ps" "p \<in> set ps" "key_bytes unb64 p = Inr k"
  shows "key_for_id (roster_load unb64 resolve r ps) (peer_id p) = Some k"
proof -
  have "is_trusted_id (roster_load unb64 resolve r ps) (peer_id p)"
    using assms(2,3) by (auto simp: load_trusted_id)
  then obtain k' where k': "key_for_id (roster_load unb64 resolve r ps) (peer_id p) = Some k'"
    by (auto simp: is_trusted_id_def key_for_id_def)
  from load_key_for_id[OF k'] obtain p' where "p' \<in> set ps" "peer_id p' = peer_id p"
    "key_bytes unb64 p' = Inr k'" by blast
  moreover have "p' = p"
    using calculation assms(1,2) find_by_id_mem by (metis option.inject)
  ultimately show ?thesis using k' assms(3) by simp
qed

section \<open>The interface of the trust store\<close>

text \<open>
  What the TLS verifiers and the connection manager rely on: a key the store attributes to
  a device is a trusted key, and the device it names is trusted.
\<close>

locale trust_store =
  fixes trusted_key :: "'r \<Rightarrow> bytes \<Rightarrow> bool"
    and trusted_id :: "'r \<Rightarrow> string \<Rightarrow> bool"
    and key_of :: "'r \<Rightarrow> string \<Rightarrow> bytes option"
    and owner :: "'r \<Rightarrow> bytes \<Rightarrow> string option"
    and wf :: "'r \<Rightarrow> bool"
  assumes key_of_trusted: "wf r \<Longrightarrow> key_of r d = Some k \<Longrightarrow> trusted_key r k"
    and key_of_total: "trusted_id r d \<longleftrightarrow> key_of r d \<noteq> None"
    and owner_total: "trusted_key r k \<longleftrightarrow> owner r k \<noteq> None"
    and owner_key: "wf r \<Longrightarrow> owner r k = Some d \<Longrightarrow> key_of r d = Some k"
begin

lemma owner_trusted: "wf r \<Longrightarrow> owner r k = Some d \<Longrightarrow> trusted_id r d \<and> trusted_key r k"
  using owner_key key_of_total owner_total by fastforce

lemma owner_unique: "wf r \<Longrightarrow> owner r k = Some d \<Longrightarrow> owner r k' = Some d \<Longrightarrow> k = k'"
  by (metis option.inject owner_key)

end

definition roster_wf :: "roster \<Rightarrow> bool" where
  "roster_wf r \<longleftrightarrow>
     (\<forall>d k. by_id r d = Some k \<longrightarrow> by_key r k \<noteq> None)
     \<and> (\<forall>k q. by_key r k = Some q \<longrightarrow> rp_key q = k \<and> by_id r (rp_id q) = Some k)"

interpretation ros: trust_store is_trusted_key is_trusted_id key_for_id
  "\<lambda>r k. map_option rp_id (peer_for_key r k)" roster_wf
  by unfold_locales
    (auto simp: is_trusted_key_def is_trusted_id_def key_for_id_def peer_for_key_def roster_wf_def)

lemma load_wf [step_inv]:
  assumes "peers_wf ps"
  shows "roster_wf (roster_load unb64 resolve r ps)"
proof -
  let ?r = "roster_load unb64 resolve r ps"
  have "by_key ?r k \<noteq> None" if "by_id ?r d = Some k" for d k
    using load_key_for_id[of unb64 resolve r ps d k] that load_trusted_key[of unb64 resolve r ps k]
    by (auto simp: key_for_id_def is_trusted_key_def)
  moreover have "rp_key q = k \<and> by_id ?r (rp_id q) = Some k" if k: "by_key ?r k = Some q" for k q
  proof -
    from load_peer_for_key[of unb64 resolve r ps k q] k obtain p
      where "p \<in> set ps" "roster_entry unb64 resolve p = Some q" "rp_key q = k"
      by (auto simp: peer_for_key_def)
    then show ?thesis
      using load_key_for_wf_id[OF assms] roster_entry_SomeD by (metis key_for_id_def)
  qed
  ultimately show ?thesis by (simp add: roster_wf_def)
qed

section \<open>Properties\<close>

text \<open>
  Loading the registry trusts exactly its usable keys: a key is trusted afterwards iff
  some entry decodes to it, whatever was trusted before.
\<close>

theorem load_trusts_exactly_the_registry:
  "is_trusted_key (roster_load unb64 resolve r ps) k \<longleftrightarrow> Inr k \<in> key_bytes unb64 ` set ps"
  unfolding load_trusted_key by (auto simp: image_iff) metis

text \<open>
  In a roster loaded from a registry with one entry per device, the two indexes agree:
  the device a key belongs to is trusted and is the one whose pinned key that is, and no
  two keys belong to the same device.
\<close>

theorem loaded_roster_indexes_agree:
  assumes "peers_wf ps"
    and "peer_for_key (roster_load unb64 resolve r ps) k = Some q"
  shows "key_for_id (roster_load unb64 resolve r ps) (rp_id q) = Some k
    \<and> is_trusted_id (roster_load unb64 resolve r ps) (rp_id q)
    \<and> (peer_for_key (roster_load unb64 resolve r ps) k' = Some q' \<and> rp_id q' = rp_id q \<longrightarrow> k' = k)"
  using ros.owner_key[OF load_wf[OF assms(1)]] ros.owner_trusted[OF load_wf[OF assms(1)]]
    ros.owner_unique[OF load_wf[OF assms(1)]] assms(2) by fastforce

definition ex_unb64 :: "string \<Rightarrow> bytes option" where
  "ex_unb64 s = (if length s = 32 then Some (str_bytes s) else None)"

definition ex_key :: "char \<Rightarrow> string" where
  "ex_key c = replicate 32 c"

definition ex_peer :: "string \<Rightarrow> string \<Rightarrow> char \<Rightarrow> peer" where
  "ex_peer n d c = (peer_new (\<lambda>k. []) n d [])\<lparr>public_key := ex_key c\<rparr>"

lemma ex_key_bytes: "is_ascii_digit c \<Longrightarrow> key_bytes ex_unb64 (ex_peer n d c) = Inr (str_bytes (ex_key c))"
proof -
  assume c: "is_ascii_digit c"
  then have "trim (ex_key c) = ex_key c"
    by (intro trim_ascii) (auto simp: ex_key_def list_all_iff is_whitespace_def is_ascii_digit_def Let_def)
  then show ?thesis
    by (simp add: key_bytes_def ex_peer_def ex_unb64_def) (simp add: ex_key_def)
qed

lemma ex_roster_lookup:
  "is_ascii_digit c \<Longrightarrow>
     by_key (roster_load ex_unb64 (\<lambda>_. None) r [ex_peer n d c]) (str_bytes (ex_key c))
     = Some \<lparr>rp_id = d, rp_name = n, rp_key = str_bytes (ex_key c), rp_addrs = []\<rparr>"
  by (simp add: load_by_key roster_entry_def ex_key_bytes map_filter_def)
    (simp add: ex_peer_def peer_new_def static_addrs_def)

theorem loaded_roster_indexes_agree_witness:
  "key_for_id (roster_load ex_unb64 (\<lambda>_. None) roster_empty [ex_peer ''a'' ''id-a'' (CHR ''1'')]) ''id-a''
   = Some (str_bytes (ex_key (CHR ''1'')))"
proof -
  have "peer_for_key (roster_load ex_unb64 (\<lambda>_. None) roster_empty [ex_peer ''a'' ''id-a'' (CHR ''1'')])
      (str_bytes (ex_key (CHR ''1'')))
    = Some \<lparr>rp_id = ''id-a'', rp_name = ''a'', rp_key = str_bytes (ex_key (CHR ''1'')), rp_addrs = []\<rparr>"
    unfolding peer_for_key_def by (rule ex_roster_lookup) (simp add: is_ascii_digit_def)
  from loaded_roster_indexes_agree[OF _ this] show ?thesis
    by (simp add: peers_wf_def)
qed

text \<open>
  Unpairing revokes: after the peers of a name are removed and the registry is
  reloaded, a key that no remaining entry carries is not trusted, and a device that has no
  remaining entry is not trusted.
\<close>

theorem unpair_revokes_trust:
  assumes "p \<in> set ps" "peer_name p = name" "key_bytes unb64 p = Inr k"
    and "list_all (\<lambda>q. peer_name q \<noteq> name \<longrightarrow> key_bytes unb64 q \<noteq> Inr k \<and> peer_id q \<noteq> peer_id p) ps"
  shows "fst (remove_by_name ps name)
    \<and> \<not> is_trusted_key (roster_load unb64 resolve r (snd (remove_by_name ps name))) k
    \<and> \<not> is_trusted_id (roster_load unb64 resolve r (snd (remove_by_name ps name))) (peer_id p)"
  using assms
  by (auto simp: load_trusted_key load_trusted_id remove_by_name_def Let_def list_all_iff
      length_filter_neq)

theorem unpair_revokes_trust_witness:
  "\<not> is_trusted_id (roster_load ex_unb64 (\<lambda>_. None) roster_empty
        (snd (remove_by_name [ex_peer ''a'' ''id-a'' (CHR ''1'')] ''a''))) ''id-a''"
  using unpair_revokes_trust[of "ex_peer ''a'' ''id-a'' (CHR ''1'')" "[ex_peer ''a'' ''id-a'' (CHR ''1'')]"
      "''a''" ex_unb64 "str_bytes (ex_key (CHR ''1''))" "\<lambda>_. None" roster_empty]
    ex_key_bytes[of "CHR ''1''" "''a''" "''id-a''"]
  by (simp add: is_ascii_digit_def) (simp add: ex_peer_def peer_new_def)

end
