(* ===== verification/Backoff.thy ===== *)
theory Backoff
  imports Prelude
begin

text \<open>
  \<open>crates/qdropd/src/backoff.rs\<close>: exponential backoff with full jitter. A \<open>Duration\<close> is
  its number of nanoseconds; multiplying one past \<open>Duration::MAX\<close> panics, which is the
  result \<open>None\<close>. \<open>fastrand::u64(0..=m)\<close> is the parameter \<open>rand\<close>.
\<close>

section \<open>State and operations\<close>

definition DURATION_MAX :: nat where
  "DURATION_MAX = (2 ^ 64 - 1) * 1000000000 + 999999999"

record backoff =
  base :: nat
  bmax :: nat
  current :: nat

definition backoff_new :: "nat \<Rightarrow> nat \<Rightarrow> backoff" where
  "backoff_new b m = \<lparr>base = b, bmax = m, current = b\<rparr>"

definition reset :: "backoff \<Rightarrow> backoff" where
  "reset b = b\<lparr>current := base b\<rparr>"

definition next_delay :: "(nat \<Rightarrow> nat) \<Rightarrow> backoff \<Rightarrow> (nat \<times> backoff) option" where
  "next_delay rand b =
    (let ceiling = current b;
         millis = (max (ceiling div 1000000) 1) mod 2 ^ 64;
         jittered = rand millis * 1000000
     in if current b * 2 > DURATION_MAX then None
        else Some (jittered, b\<lparr>current := min (current b * 2) (bmax b)\<rparr>))"

fun delays :: "(nat \<Rightarrow> nat) list \<Rightarrow> backoff \<Rightarrow> (nat list \<times> backoff) option" where
  "delays [] b = Some ([], b)"
| "delays (r # rs) b =
     (case next_delay r b of
        None \<Rightarrow> None
      | Some (d, b') \<Rightarrow> (case delays rs b' of None \<Rightarrow> None | Some (ds, b'') \<Rightarrow> Some (d # ds, b'')))"

section \<open>Lemmas\<close>

definition backoff_ok :: "backoff \<Rightarrow> bool" where
  "backoff_ok b \<longleftrightarrow> current b \<le> bmax b \<and> base b \<le> bmax b \<and> bmax b * 2 \<le> DURATION_MAX"

lemma next_delay_ok:
  assumes "backoff_ok b" "\<And>m. rand m \<le> m"
  shows "\<exists>d b'. next_delay rand b = Some (d, b') \<and> backoff_ok b' \<and> d \<le> max (bmax b) 1000000
      \<and> base b' = base b \<and> bmax b' = bmax b \<and> current b' = min (current b * 2) (bmax b)"
proof -
  let ?m = "(max (current b div 1000000) 1) mod 2 ^ 64"
  have "current b * 2 \<le> DURATION_MAX"
    using assms(1) unfolding backoff_ok_def by (meson le_trans mult_le_mono1)
  moreover have "rand ?m * 1000000 \<le> max (bmax b) 1000000"
  proof -
    have "rand ?m \<le> max (current b div 1000000) 1"
      using assms(2)[of ?m] mod_less_eq_dividend le_trans by blast
    also have "\<dots> * 1000000 \<le> max (bmax b) 1000000"
      using assms(1) by (auto simp: backoff_ok_def max_def)
    finally show ?thesis by simp
  qed
  ultimately show ?thesis
    using assms(1) by (auto simp: next_delay_def Let_def backoff_ok_def)
qed

lemma delays_ok:
  assumes "backoff_ok b" "\<And>r m. r \<in> set rs \<Longrightarrow> r m \<le> m"
  shows "\<exists>ds b'. delays rs b = Some (ds, b') \<and> length ds = length rs
      \<and> (\<forall>d\<in>set ds. d \<le> max (bmax b) 1000000) \<and> base b' = base b \<and> bmax b' = bmax b
      \<and> current b' = min (current b * 2 ^ length rs) (bmax b)"
  using assms
proof (induction rs arbitrary: b)
  case Nil
  then show ?case by (auto simp: backoff_ok_def)
next
  case (Cons r rs)
  obtain d b' where s: "next_delay r b = Some (d, b')" "backoff_ok b'"
    "d \<le> max (bmax b) 1000000" "base b' = base b" "bmax b' = bmax b"
    "current b' = min (current b * 2) (bmax b)"
    using next_delay_ok[of b r] Cons.prems by (metis list.set_intros(1))
  obtain ds b'' where t: "delays rs b' = Some (ds, b'')" "length ds = length rs"
    "\<forall>d\<in>set ds. d \<le> max (bmax b') 1000000" "base b'' = base b'" "bmax b'' = bmax b'"
    "current b'' = min (current b' * 2 ^ length rs) (bmax b')"
    using Cons.IH[OF s(2)] Cons.prems(2) by auto
  have "min (min (c * 2) m * 2 ^ n) m = min (c * 2 ^ Suc n) m" for c m n :: nat
  proof (cases "c * 2 \<le> m")
    case False
    have m: "x \<le> x * 2 ^ n" for x :: nat by simp
    from False have "m \<le> c * 2 * 2 ^ n" using m[of "c * 2"] by linarith
    moreover have "min (c * 2) m = m" using False by simp
    ultimately show ?thesis using m[of m] by (simp only: power_Suc mult.assoc[symmetric] min.absorb2)
  qed (simp add: mult.assoc)
  with s t show ?case by (auto simp: max_def)
qed

section \<open>Properties\<close>

text \<open>
  C33. The backoff schedule: with a base within the maximum (and a maximum that does not
  overflow a \<open>Duration\<close> when doubled) \<open>n\<close> delays never panic, each is at most the
  maximum (or one millisecond), and the ceiling afterwards is \<open>base * 2 ^ n\<close> capped at
  the maximum; a reset starts the schedule again.
\<close>

theorem backoff_schedule:
  assumes "b \<le> m" "m * 2 \<le> DURATION_MAX" "\<And>r n. r \<in> set rs \<Longrightarrow> r n \<le> n"
  shows "\<exists>ds bo. delays rs (backoff_new b m) = Some (ds, bo) \<and> length ds = length rs
    \<and> list_all (\<lambda>d. d \<le> max m 1000000) ds
    \<and> current bo = min (b * 2 ^ length rs) m \<and> reset bo = backoff_new b m"
proof -
  have ok: "backoff_ok (backoff_new b m)" using assms(1,2) by (simp add: backoff_ok_def backoff_new_def)
  from delays_ok[of "backoff_new b m" rs] ok assms(3) obtain ds bo where
    "delays rs (backoff_new b m) = Some (ds, bo)" "length ds = length rs"
    "\<forall>d\<in>set ds. d \<le> max m 1000000" "base bo = b" "bmax bo = m"
    "current bo = min (b * 2 ^ length rs) m"
    by (auto simp: backoff_new_def)
  then show ?thesis
    by (cases bo) (auto simp: list_all_iff reset_def backoff_new_def)
qed

theorem backoff_schedule_witness:
  "\<exists>ds bo. delays (replicate 10 (\<lambda>n. n)) (backoff_new 1000000000 8000000000) = Some (ds, bo)
    \<and> length ds = 10 \<and> list_all (\<lambda>d. d \<le> 8000000000) ds \<and> current bo = 8000000000"
  using backoff_schedule[of 1000000000 8000000000 "replicate 10 (\<lambda>n. n)"]
  by (auto simp: DURATION_MAX_def)

end
