(* ===== verification/Transport.thy ===== *)
theory Transport
  imports Connection Roster Bus Backoff "HOL-Library.AList"
begin

text \<open>
  \<open>crates/qdropd/src/transport.rs\<close>: the connection manager. Its loop takes one internal
  message at a time; the tasks it spawns are recorded as alive until they end or are
  aborted. Hash maps are association lists; where the code iterates over the roster, the
  iteration order is an argument.
\<close>

section \<open>State\<close>

datatype role = Dialer | Acceptor

definition role_for :: "string \<Rightarrow> string \<Rightarrow> role" where
  "role_for own peer = (if own < peer then Dialer else Acceptor)"

record discovered_peer =
  dp_id :: string
  dp_name :: string
  dp_fingerprint :: string
  dp_addrs :: "socket_addr list"

datatype transport_event =
    PeerConnected string string caps "string option"
  | PeerDisconnected string string

fun reason_text :: "disconnect_reason \<Rightarrow> string" where
  "reason_text PeerClosed = ''peer closed the connection''"
| "reason_text IdleTimeout = ''idle timeout''"
| "reason_text WriteError = ''write error''"
| "reason_text (ProtocolError e) = ''protocol error: '' @ e"

record peer_entry =
  pe_role :: role
  pe_name :: string
  pe_connected :: bool
  pe_addrs :: "socket_addr list option"
  pe_task :: "nat option"

definition entry_new :: "role \<Rightarrow> peer_entry" where
  "entry_new r = \<lparr>pe_role = r, pe_name = [], pe_connected = False, pe_addrs = None, pe_task = None\<rparr>"

text \<open>The dial loop of a peer, or the task of an accepted connection.\<close>

datatype task = DialTask string | ConnTask string

record mgr =
  m_own :: string
  m_roster :: roster
  m_peers :: "(string \<times> peer_entry) list"
  m_discovered :: "(string \<times> discovered_peer) list"
  m_bus :: bus
  m_next :: nat
  m_live :: "(nat \<times> task) list"
  m_events :: "transport_event list"

text \<open>
  What the loop receives; \<open>RosterChanged\<close> carries the order in which the roster's hash
  map is iterated, \<open>ConnUp\<close> the channel of the new connection.
\<close>

datatype internal =
    Found discovered_peer
  | Lost string
  | RosterChanged "bytes list"
  | InboundReady hello caps
  | ConnUp string string caps "string option" nat
  | ConnDown string disconnect_reason

section \<open>Operations\<close>

definition peers_with_static_addrs :: "roster \<Rightarrow> bytes list \<Rightarrow> (string \<times> string \<times> socket_addr list) list" where
  "peers_with_static_addrs r ks =
     List.map_filter (\<lambda>k. case by_key r k of
        Some p \<Rightarrow> if rp_addrs p \<noteq> [] then Some (rp_id p, rp_name p, rp_addrs p) else None
      | None \<Rightarrow> None) ks"

definition static_peers :: "roster \<Rightarrow> bytes list \<Rightarrow> discovered_peer list" where
  "static_peers r ks =
     map (\<lambda>(d, n, as). \<lparr>dp_id = d, dp_name = n, dp_fingerprint = [], dp_addrs = as\<rparr>)
       (peers_with_static_addrs r ks)"

definition spawn :: "task \<Rightarrow> mgr \<Rightarrow> nat \<times> mgr" where
  "spawn t m = (m_next m, m\<lparr>m_next := Suc (m_next m), m_live := (m_next m, t) # m_live m\<rparr>)"

definition abort :: "nat option \<Rightarrow> mgr \<Rightarrow> mgr" where
  "abort t m =
     (case t of Some n \<Rightarrow> m\<lparr>m_live := filter (\<lambda>l. fst l \<noteq> n) (m_live m)\<rparr> | None \<Rightarrow> m)"

definition emit :: "transport_event \<Rightarrow> mgr \<Rightarrow> mgr" where
  "emit e m = m\<lparr>m_events := m_events m @ [e]\<rparr>"

definition put_entry :: "string \<Rightarrow> peer_entry \<Rightarrow> mgr \<Rightarrow> mgr" where
  "put_entry d e m = m\<lparr>m_peers := AList.update d e (m_peers m)\<rparr>"

definition entry_or :: "role \<Rightarrow> string \<Rightarrow> mgr \<Rightarrow> peer_entry" where
  "entry_or r d m = (case map_of (m_peers m) d of Some e \<Rightarrow> e | None \<Rightarrow> entry_new r)"

definition dial_addrs :: "roster \<Rightarrow> discovered_peer \<Rightarrow> socket_addr list" where
  "dial_addrs r p =
     foldl (\<lambda>as sa. if sa \<in> set as then as else as @ [sa]) (dp_addrs p) (static_addrs_for r (dp_id p))"

definition ensure_peer :: "discovered_peer \<Rightarrow> mgr \<Rightarrow> mgr" where
  "ensure_peer p m =
    (let role = role_for (m_own m) (dp_id p);
         entry = (entry_or role (dp_id p) m)\<lparr>pe_name := dp_name p\<rparr>
     in case role of
          Dialer \<Rightarrow>
            let addrs = dial_addrs (m_roster m) p
            in (case pe_addrs entry of
                  Some _ \<Rightarrow> put_entry (dp_id p) (entry\<lparr>pe_addrs := Some addrs\<rparr>) m
                | None \<Rightarrow>
                    let (n, m) = spawn (DialTask (dp_id p)) m
                    in put_entry (dp_id p) (entry\<lparr>pe_addrs := Some addrs, pe_task := Some n\<rparr>) m)
        | Acceptor \<Rightarrow> put_entry (dp_id p) entry m)"

definition ensure_trusted :: "mgr \<Rightarrow> discovered_peer \<Rightarrow> mgr" where
  "ensure_trusted m p = (if is_trusted_id (m_roster m) (dp_id p) then ensure_peer p m else m)"

text \<open>Dropping a peer that is no longer trusted.\<close>

definition drop_peer :: "mgr \<Rightarrow> string \<Rightarrow> mgr" where
  "drop_peer m d =
    (let m = m\<lparr>m_bus := bus_remove d (m_bus m)\<rparr> in
     case map_of (m_peers m) d of
       None \<Rightarrow> m
     | Some entry \<Rightarrow>
         let m = m\<lparr>m_peers := AList.delete d (m_peers m)\<rparr>;
             m = abort (pe_task entry) m
         in if pe_connected entry then emit (PeerDisconnected d ''peer unpaired'') m else m)"

text \<open>The records to dial after a change: what mDNS reported, then static addresses.\<close>

definition seed :: "(string \<times> discovered_peer) list \<Rightarrow> discovered_peer list \<Rightarrow> discovered_peer list" where
  "seed disc statics =
     map snd (foldl (\<lambda>al p. if map_of al (dp_id p) = None then al @ [(dp_id p, p)] else al) disc statics)"

definition roster_changed :: "bytes list \<Rightarrow> mgr \<Rightarrow> mgr" where
  "roster_changed ks m =
    (let dropped = filter (\<lambda>d. \<not> is_trusted_id (m_roster m) d) (map fst (m_peers m));
         m = foldl drop_peer m dropped
     in foldl ensure_trusted m (seed (m_discovered m) (static_peers (m_roster m) ks)))"

definition inbound_ready :: "hello \<Rightarrow> caps \<Rightarrow> mgr \<Rightarrow> mgr" where
  "inbound_ready peer cs m =
    (let d = hello_id peer in
     if role_for (m_own m) d = Dialer then m
     else (let entry = (entry_or Acceptor d m)\<lparr>pe_name := hello_name peer\<rparr>;
               (entry, m) = (case pe_task entry of
                  None \<Rightarrow> (entry, m)
                | Some old \<Rightarrow>
                    let m = abort (Some old) m;
                        entry = entry\<lparr>pe_task := None\<rparr>
                    in if pe_connected entry
                       then (entry\<lparr>pe_connected := False\<rparr>,
                             emit (PeerDisconnected d ''replaced by a newer inbound connection'') m)
                       else (entry, m));
               (n, m) = spawn (ConnTask d) m
           in put_entry d (entry\<lparr>pe_task := Some n\<rparr>) m))"

definition conn_up :: "string \<Rightarrow> string \<Rightarrow> caps \<Rightarrow> string option \<Rightarrow> nat \<Rightarrow> mgr \<Rightarrow> mgr" where
  "conn_up d name cs addr ch m =
    (let m = (case map_of (m_peers m) d of
           Some entry \<Rightarrow> put_entry d (entry\<lparr>pe_connected := True, pe_name := name\<rparr>) m
         | None \<Rightarrow> m);
         m = m\<lparr>m_bus := bus_insert d ch (m_bus m)\<rparr>
     in emit (PeerConnected d name cs addr) m)"

definition conn_down :: "string \<Rightarrow> disconnect_reason \<Rightarrow> mgr \<Rightarrow> mgr" where
  "conn_down d reason m =
    (let m = m\<lparr>m_bus := bus_remove d (m_bus m)\<rparr>;
         m = (case map_of (m_peers m) d of
           Some entry \<Rightarrow>
             put_entry d (let entry = entry\<lparr>pe_connected := False\<rparr>
                          in if pe_role entry = Acceptor then entry\<lparr>pe_task := None\<rparr> else entry) m
         | None \<Rightarrow> m)
     in emit (PeerDisconnected d (reason_text reason)) m)"

fun manager_step :: "mgr \<Rightarrow> internal \<Rightarrow> mgr" where
  "manager_step m (Found p) =
     (let m = m\<lparr>m_discovered := AList.update (dp_id p) p (m_discovered m)\<rparr> in ensure_trusted m p)"
| "manager_step m (Lost d) =
     (let m = m\<lparr>m_discovered := AList.delete d (m_discovered m)\<rparr> in
      case map_of (m_peers m) d of
        Some entry \<Rightarrow>
          (case pe_addrs entry of
             Some _ \<Rightarrow> put_entry d (entry\<lparr>pe_addrs := Some (static_addrs_for (m_roster m) d)\<rparr>) m
           | None \<Rightarrow> m)
      | None \<Rightarrow> m)"
| "manager_step m (RosterChanged ks) = roster_changed ks m"
| "manager_step m (InboundReady peer cs) = inbound_ready peer cs m"
| "manager_step m (ConnUp d name cs addr ch) = conn_up d name cs addr ch m"
| "manager_step m (ConnDown d reason) = conn_down d reason m"

text \<open>
  Around the loop: the roster is reloaded behind it (before \<open>RosterChanged\<close> is sent) and
  tasks end.
\<close>

datatype world = Loop internal | ReloadRoster roster | TaskEnds nat

definition world_step :: "mgr \<Rightarrow> world \<Rightarrow> mgr" where
  "world_step m e =
    (case e of
       Loop i \<Rightarrow> manager_step m i
     | ReloadRoster r \<Rightarrow> m\<lparr>m_roster := r\<rparr>
     | TaskEnds n \<Rightarrow> abort (Some n) m)"

definition mgr_start :: "string \<Rightarrow> roster \<Rightarrow> bytes list \<Rightarrow> bus \<Rightarrow> mgr" where
  "mgr_start own r ks b =
     foldl ensure_trusted
       \<lparr>m_own = own, m_roster = r, m_peers = [], m_discovered = [], m_bus = b, m_next = 0, m_live = [],
        m_events = []\<rparr>
       (static_peers r ks)"

section \<open>The invariant of the manager\<close>

definition entry_ok :: "mgr \<Rightarrow> string \<Rightarrow> peer_entry \<Rightarrow> bool" where
  "entry_ok m d e \<longleftrightarrow>
     pe_role e = role_for (m_own m) d \<and> (\<forall>n. pe_task e = Some n \<longrightarrow> n < m_next m)
     \<and> (pe_role e = Dialer \<longrightarrow> (pe_task e = None \<longleftrightarrow> pe_addrs e = None))"

text \<open>Every live dial loop is the task of its peer's entry.\<close>

definition live_ok :: "mgr \<Rightarrow> nat \<Rightarrow> task \<Rightarrow> bool" where
  "live_ok m n t \<longleftrightarrow>
     n < m_next m
     \<and> (case t of
          DialTask d \<Rightarrow> (\<exists>e. map_of (m_peers m) d = Some e \<and> pe_task e = Some n \<and> pe_role e = Dialer)
        | ConnTask d \<Rightarrow> role_for (m_own m) d = Acceptor)"

definition mgr_wf :: "mgr \<Rightarrow> bool" where
  "mgr_wf m \<longleftrightarrow>
     distinct (map fst (m_live m))
     \<and> (\<forall>d e. map_of (m_peers m) d = Some e \<longrightarrow> entry_ok m d e)
     \<and> (\<forall>n t. (n, t) \<in> set (m_live m) \<longrightarrow> live_ok m n t)"

lemma wf_same:
  assumes "m_own m' = m_own m" "m_peers m' = m_peers m" "m_next m' = m_next m" "m_live m' = m_live m"
  shows "mgr_wf m' = mgr_wf m"
proof -
  have "entry_ok m' = entry_ok m" "live_ok m' = live_ok m"
    using assms by (auto simp: entry_ok_def live_ok_def fun_eq_iff split: task.splits)
  with assms show ?thesis by (simp add: mgr_wf_def)
qed

lemma wf_emit [simp]: "mgr_wf (emit e m) = mgr_wf m"
  by (rule wf_same) (simp_all add: emit_def)

lemma wf_bus [simp]: "mgr_wf (m\<lparr>m_bus := b\<rparr>) = mgr_wf m"
  by (rule wf_same) simp_all

lemma wf_discovered [simp]: "mgr_wf (m\<lparr>m_discovered := b\<rparr>) = mgr_wf m"
  by (rule wf_same) simp_all

lemma wf_roster [simp]: "mgr_wf (m\<lparr>m_roster := b\<rparr>) = mgr_wf m"
  by (rule wf_same) simp_all

lemma map_of_put: "map_of (m_peers (put_entry d e m)) d' = (if d' = d then Some e else map_of (m_peers m) d')"
  by (simp add: put_entry_def update_conv')

lemma abort_simps [simp]:
  "m_own (abort t m) = m_own m" "m_peers (abort t m) = m_peers m" "m_next (abort t m) = m_next m"
  "m_roster (abort t m) = m_roster m" "m_bus (abort t m) = m_bus m" "m_discovered (abort t m) = m_discovered m"
  by (simp_all add: abort_def split: option.splits)

lemma live_abort: "(n, t) \<in> set (m_live (abort k m)) \<longleftrightarrow> (n, t) \<in> set (m_live m) \<and> k \<noteq> Some n"
  by (auto simp: abort_def split: option.splits)

lemma distinct_live_abort: "distinct (map fst (m_live m)) \<Longrightarrow> distinct (map fst (m_live (abort k m)))"
  by (simp add: abort_def distinct_map_filter split: option.splits)

lemma wf_abort [step_inv]: "mgr_wf m \<Longrightarrow> mgr_wf (abort k m)"
proof -
  assume wf: "mgr_wf m"
  have "entry_ok (abort k m) = entry_ok m" "live_ok (abort k m) = live_ok m"
    by (auto simp: entry_ok_def live_ok_def fun_eq_iff split: task.splits)
  with wf show ?thesis by (auto simp: mgr_wf_def live_abort distinct_live_abort)
qed

text \<open>Replacing an entry by one that keeps the task of any live dial loop.\<close>

lemma wf_put:
  assumes "mgr_wf m" "entry_ok m d e"
    and "\<And>n. (n, DialTask d) \<in> set (m_live m) \<Longrightarrow> pe_task e = Some n \<and> pe_role e = Dialer"
  shows "mgr_wf (put_entry d e m)"
proof -
  have own: "m_own (put_entry d e m) = m_own m" "m_next (put_entry d e m) = m_next m"
    "m_live (put_entry d e m) = m_live m"
    by (simp_all add: put_entry_def)
  have "entry_ok (put_entry d e m) d' e'" if "map_of (m_peers (put_entry d e m)) d' = Some e'" for d' e'
    using that assms(1,2) by (auto simp: map_of_put entry_ok_def own mgr_wf_def split: if_splits)
  moreover have "live_ok (put_entry d e m) n t" if "(n, t) \<in> set (m_live m)" for n t
  proof -
    have "live_ok m n t" using that assms(1) by (simp add: mgr_wf_def)
    then show ?thesis
      using that assms(3)[of n] by (cases t) (auto simp: live_ok_def own map_of_put)
  qed
  ultimately show ?thesis using assms(1) by (simp add: mgr_wf_def own)
qed

lemma dial_task_entry:
  "mgr_wf m \<Longrightarrow> (n, DialTask d) \<in> set (m_live m) \<Longrightarrow>
     \<exists>e. map_of (m_peers m) d = Some e \<and> pe_task e = Some n \<and> pe_role e = Dialer"
  by (force simp: mgr_wf_def live_ok_def)

lemma wf_put_update:
  assumes "mgr_wf m" "map_of (m_peers m) d = Some e" "pe_task e' = pe_task e" "pe_role e' = pe_role e"
    and "pe_addrs e' = None \<longleftrightarrow> pe_addrs e = None"
  shows "mgr_wf (put_entry d e' m)"
  using assms dial_task_entry[OF assms(1), of _ d]
  by (intro wf_put) (auto simp: mgr_wf_def entry_ok_def)

lemma entry_or_ok: "mgr_wf m \<Longrightarrow> entry_ok m d (entry_or (role_for (m_own m) d) d m)"
  by (auto simp: entry_or_def mgr_wf_def entry_ok_def entry_new_def split: option.splits)

lemma no_dial_task:
  "mgr_wf m \<Longrightarrow> pe_task (entry_or r d m) = None \<Longrightarrow> (n, DialTask d) \<notin> set (m_live m)"
  by (auto simp: entry_or_def dest!: dial_task_entry split: option.splits)

lemma spawn_simps [simp]:
  "fst (spawn t m) = m_next m" "m_own (snd (spawn t m)) = m_own m" "m_peers (snd (spawn t m)) = m_peers m"
  "m_next (snd (spawn t m)) = Suc (m_next m)" "m_live (snd (spawn t m)) = (m_next m, t) # m_live m"
  "m_roster (snd (spawn t m)) = m_roster m" "m_bus (snd (spawn t m)) = m_bus m"
  by (simp_all add: spawn_def)

text \<open>Starting a task for a peer that has none alive.\<close>

lemma wf_spawn_put:
  assumes "mgr_wf m" "\<And>n. (n, DialTask d) \<notin> set (m_live m)"
    and "pe_role e = role_for (m_own m) d" "pe_task e = Some (m_next m)" "pe_role e = Dialer \<Longrightarrow> pe_addrs e \<noteq> None"
    and "t = (if pe_role e = Dialer then DialTask d else ConnTask d)"
  shows "mgr_wf (put_entry d e (snd (spawn t m)))"
proof -
  let ?m = "put_entry d e (snd (spawn t m))"
  have own: "m_own ?m = m_own m" "m_next ?m = Suc (m_next m)" "m_live ?m = (m_next m, t) # m_live m"
    by (simp_all add: put_entry_def)
  have mp: "map_of (m_peers ?m) d' = (if d' = d then Some e else map_of (m_peers m) d')" for d'
    by (simp add: put_entry_def update_conv')
  have "m_next m \<notin> fst ` set (m_live m)"
    using assms(1) by (fastforce simp: mgr_wf_def live_ok_def)
  then have "distinct (map fst (m_live ?m))" using assms(1) by (simp add: mgr_wf_def own)
  moreover have "entry_ok ?m d' e'" if "map_of (m_peers ?m) d' = Some e'" for d' e'
    using that assms(1,3,4,5) unfolding mp
    by (fastforce simp: entry_ok_def own mgr_wf_def split: if_splits)
  moreover have "live_ok ?m n t'" if "(n, t') \<in> set (m_live m)" for n t'
  proof -
    have "live_ok m n t'" using that assms(1) by (simp add: mgr_wf_def)
    then show ?thesis
      using that assms(2)[of n] by (cases t') (auto simp: live_ok_def own mp)
  qed
  moreover have "live_ok ?m (m_next m) t"
    using assms(3,4,6) unfolding live_ok_def own mp by (cases "pe_role e") auto
  ultimately show ?thesis by (auto simp: mgr_wf_def own)
qed

lemma entry_ok_name: "entry_ok m d (e\<lparr>pe_name := x\<rparr>) = entry_ok m d e"
  by (simp add: entry_ok_def)

lemma ensure_peer_wf [step_inv]:
  assumes "mgr_wf m"
  shows "mgr_wf (ensure_peer p m)"
proof -
  define r where "r = role_for (m_own m) (dp_id p)"
  define e where "e = (entry_or r (dp_id p) m)\<lparr>pe_name := dp_name p\<rparr>"
  have ok: "entry_ok m (dp_id p) e"
    using entry_or_ok[OF assms, of "dp_id p"] unfolding e_def r_def by (rule entry_ok_name[THEN iffD2])
  have keep: "pe_task e = Some n \<and> pe_role e = Dialer" if "(n, DialTask (dp_id p)) \<in> set (m_live m)" for n
    using dial_task_entry[OF assms that] by (auto simp: e_def entry_or_def)
  show ?thesis
  proof (cases r)
    case Acceptor
    then show ?thesis
      using wf_put[OF assms ok keep]
      unfolding ensure_peer_def Let_def r_def[symmetric] e_def[symmetric] by simp
  next
    case Dialer
    show ?thesis
    proof (cases "pe_addrs e")
      case (Some a)
      have "mgr_wf (put_entry (dp_id p) (e\<lparr>pe_addrs := Some x\<rparr>) m)" for x
        using ok keep Some by (intro wf_put[OF assms]) (auto simp: entry_ok_def)
      with Some Dialer show ?thesis
        unfolding ensure_peer_def Let_def r_def[symmetric] e_def[symmetric] by simp
    next
      case None
      have role: "pe_role e = Dialer" using ok Dialer by (simp add: entry_ok_def r_def)
      with ok None have "pe_task e = None" by (simp add: entry_ok_def)
      then have "(n, DialTask (dp_id p)) \<notin> set (m_live m)" for n using keep by fastforce
      then have "mgr_wf (put_entry (dp_id p) (e\<lparr>pe_addrs := Some x, pe_task := Some (m_next m)\<rparr>)
          (snd (spawn (DialTask (dp_id p)) m)))" for x
        using role Dialer by (intro wf_spawn_put[OF assms]) (simp_all add: r_def)
      with None Dialer show ?thesis
        unfolding ensure_peer_def Let_def r_def[symmetric] e_def[symmetric] by (simp add: case_prod_beta)
    qed
  qed
qed

lemma ensure_trusted_wf: "mgr_wf m \<Longrightarrow> mgr_wf (ensure_trusted m p)"
  by (simp add: ensure_trusted_def ensure_peer_wf)

lemma ensure_all_wf: "mgr_wf m \<Longrightarrow> mgr_wf (foldl ensure_trusted m ps)"
  by (induction ps arbitrary: m) (simp_all add: ensure_trusted_wf)

lemma drop_peer_wf: "mgr_wf m \<Longrightarrow> mgr_wf (drop_peer m d)"
proof (cases "map_of (m_peers m) d")
  case None
  then show "mgr_wf m \<Longrightarrow> ?thesis" by (simp add: drop_peer_def)
next
  case (Some e)
  assume wf: "mgr_wf m"
  let ?m = "abort (pe_task e) (m\<lparr>m_bus := bus_remove d (m_bus m), m_peers := AList.delete d (m_peers m)\<rparr>)"
  have mp: "map_of (AList.delete d (m_peers m)) d' = (if d' = d then None else map_of (m_peers m) d')" for d'
    by (simp add: delete_conv')
  have live: "(n, t) \<in> set (m_live ?m) \<longleftrightarrow> (n, t) \<in> set (m_live m) \<and> pe_task e \<noteq> Some n" for n t
    by (simp add: live_abort)
  have "live_ok ?m n t" if "(n, t) \<in> set (m_live ?m)" for n t
  proof -
    have "live_ok m n t" "pe_task e \<noteq> Some n" using that wf by (auto simp: live mgr_wf_def)
    then show ?thesis using Some by (cases t) (auto simp: live_ok_def mp)
  qed
  moreover have "entry_ok ?m d' e'" if "map_of (m_peers ?m) d' = Some e'" for d' e'
    using that wf by (auto simp: mp mgr_wf_def entry_ok_def split: if_splits)
  moreover have "distinct (map fst (m_live ?m))"
    using wf by (intro distinct_live_abort) (simp add: mgr_wf_def)
  ultimately have "mgr_wf ?m" by (simp add: mgr_wf_def)
  with Some show ?thesis by (simp add: drop_peer_def Let_def)
qed

lemma drop_all_wf: "mgr_wf m \<Longrightarrow> mgr_wf (foldl drop_peer m ds)"
  by (induction ds arbitrary: m) (simp_all add: drop_peer_wf)

lemma roster_changed_wf [step_inv]: "mgr_wf m \<Longrightarrow> mgr_wf (roster_changed ks m)"
  by (simp add: roster_changed_def Let_def ensure_all_wf drop_all_wf)

lemma conn_up_wf [step_inv]: "mgr_wf m \<Longrightarrow> mgr_wf (conn_up d name cs addr ch m)"
  by (auto simp: conn_up_def Let_def intro!: wf_put_update split: option.splits)

lemma conn_down_wf [step_inv]: "mgr_wf m \<Longrightarrow> mgr_wf (conn_down d reason m)"
proof -
  assume wf: "mgr_wf m"
  let ?m = "m\<lparr>m_bus := bus_remove d (m_bus m)\<rparr>"
  have wf': "mgr_wf ?m" using wf by simp
  have "mgr_wf (put_entry d (let e = e\<lparr>pe_connected := False\<rparr> in if pe_role e = Acceptor then e\<lparr>pe_task := None\<rparr> else e) ?m)"
    if e: "map_of (m_peers ?m) d = Some e" for e
  proof (cases "pe_role e")
    case Acceptor
    have "(n, DialTask d) \<notin> set (m_live ?m)" for n
      using dial_task_entry[OF wf', of n d] e Acceptor by auto
    moreover have "entry_ok ?m d e" using wf' e unfolding mgr_wf_def by blast
    ultimately show ?thesis
      using Acceptor by (intro wf_put[OF wf']) (auto simp: entry_ok_def)
  next
    case Dialer
    then show ?thesis using wf_put_update[OF wf' e] by simp
  qed
  then show ?thesis using wf' by (auto simp: conn_down_def Let_def split: option.splits)
qed

lemma inbound_ready_wf [step_inv]:
  assumes wf: "mgr_wf m"
  shows "mgr_wf (inbound_ready peer cs m)"
proof (cases "role_for (m_own m) (hello_id peer)")
  case Dialer
  with wf show ?thesis by (simp add: inbound_ready_def)
next
  case Acceptor
  define d where "d = hello_id peer"
  define e where "e = (entry_or Acceptor d m)\<lparr>pe_name := hello_name peer\<rparr>"
  have role: "pe_role e = Acceptor" "role_for (m_own m) d = Acceptor"
    using entry_or_ok[OF wf, of d] Acceptor by (simp_all add: e_def d_def entry_ok_def)
  have nd: "(n, DialTask d) \<notin> set (m_live m)" for n
    using dial_task_entry[OF wf, of n d] role by (auto simp: e_def entry_or_def)
  have go: "mgr_wf (put_entry d (e'\<lparr>pe_task := Some (m_next m')\<rparr>) (snd (spawn (ConnTask d) m')))"
    if "mgr_wf m'" "m_own m' = m_own m" "\<And>n. (n, DialTask d) \<notin> set (m_live m')" "pe_role e' = Acceptor" for m' e'
    using that role by (intro wf_spawn_put) simp_all
  have ab: "(n, DialTask d) \<notin> set (m_live (abort k m))" for n k
    using nd by (simp add: live_abort)
  have "mgr_wf (emit x (abort k m))" "m_own (emit x (abort k m)) = m_own m"
    "m_next (emit x (abort k m)) = m_next m" "m_live (emit x (abort k m)) = m_live (abort k m)" for x k
    using wf_abort[OF wf] by simp_all (simp_all add: emit_def)
  note em = this
  show ?thesis
  proof (cases "pe_task e")
    case None
    have "inbound_ready peer cs m = put_entry d (e\<lparr>pe_task := Some (m_next m)\<rparr>) (snd (spawn (ConnTask d) m))"
      using None Acceptor by (simp add: inbound_ready_def Let_def d_def[symmetric] e_def[symmetric] case_prod_beta)
    then show ?thesis using go[OF wf refl nd role(1)] by simp
  next
    case (Some old)
    let ?x = "PeerDisconnected d ''replaced by a newer inbound connection''"
    have "inbound_ready peer cs m =
        (if pe_connected e
         then put_entry d (e\<lparr>pe_task := None, pe_connected := False, pe_task := Some (m_next (emit ?x (abort (Some old) m)))\<rparr>)
                (snd (spawn (ConnTask d) (emit ?x (abort (Some old) m))))
         else put_entry d (e\<lparr>pe_task := None, pe_task := Some (m_next (abort (Some old) m))\<rparr>)
                (snd (spawn (ConnTask d) (abort (Some old) m))))"
      using Some Acceptor
      by (simp add: inbound_ready_def Let_def d_def[symmetric] e_def[symmetric] case_prod_beta)
    moreover have "mgr_wf (put_entry d ((e\<lparr>pe_task := None, pe_connected := False\<rparr>)\<lparr>pe_task := Some (m_next (emit ?x (abort (Some old) m)))\<rparr>)
                (snd (spawn (ConnTask d) (emit ?x (abort (Some old) m)))))"
      using em ab role by (intro go) simp_all
    moreover have "mgr_wf (put_entry d ((e\<lparr>pe_task := None\<rparr>)\<lparr>pe_task := Some (m_next (abort (Some old) m))\<rparr>)
                (snd (spawn (ConnTask d) (abort (Some old) m))))"
      using wf_abort[OF wf] ab role by (intro go) simp_all
    ultimately show ?thesis by simp
  qed
qed

lemma manager_step_wf: "mgr_wf m \<Longrightarrow> mgr_wf (manager_step m i)"
proof (cases i)
  case (Lost d)
  then show "mgr_wf m \<Longrightarrow> ?thesis"
    by (auto simp: Let_def intro!: wf_put_update split: option.splits)
qed (simp_all add: Let_def step_inv ensure_trusted_wf)

lemma world_step_wf: "mgr_wf m \<Longrightarrow> mgr_wf (world_step m e)"
  by (cases e) (simp_all add: world_step_def manager_step_wf wf_abort)

interpretation tr: event_system world_step mgr_wf
  by unfold_locales (rule world_step_wf)

lemma mgr_start_wf: "mgr_wf (mgr_start own r ks b)"
  unfolding mgr_start_def by (rule ensure_all_wf) (simp add: mgr_wf_def)

section \<open>What a roster change leaves\<close>

lemma drop_peer_facts:
  "m_roster (drop_peer m d) = m_roster m" "m_next (drop_peer m d) = m_next m"
  "map_of (m_peers (drop_peer m d)) d' = (if d' = d then None else map_of (m_peers m) d')"
  "set (m_live (drop_peer m d)) \<subseteq> set (m_live m)"
  "sender (m_bus (drop_peer m d)) d' = (if d' = d then None else sender (m_bus m) d')"
  by (auto simp: drop_peer_def Let_def emit_def delete_conv' live_abort abort_def sender_remove split: option.splits)

lemma drop_peer_task:
  "map_of (m_peers m) d = Some e \<Longrightarrow> pe_task e = Some n \<Longrightarrow> (n, t) \<notin> set (m_live (drop_peer m d))"
  by (auto simp: drop_peer_def Let_def emit_def abort_def)

lemma drop_all_facts:
  "m_roster (foldl drop_peer m ds) = m_roster m \<and> m_next (foldl drop_peer m ds) = m_next m
   \<and> (\<forall>d. map_of (m_peers (foldl drop_peer m ds)) d = (if d \<in> set ds then None else map_of (m_peers m) d))
   \<and> set (m_live (foldl drop_peer m ds)) \<subseteq> set (m_live m)
   \<and> (\<forall>d. sender (m_bus (foldl drop_peer m ds)) d = (if d \<in> set ds then None else sender (m_bus m) d))"
proof (induction ds arbitrary: m)
  case (Cons d ds)
  show ?case using Cons[of "drop_peer m d"] by (auto simp: drop_peer_facts dest: subsetD[OF drop_peer_facts(4)])
qed simp

lemma drop_all_task:
  "d \<in> set ds \<Longrightarrow> map_of (m_peers m) d = Some e \<Longrightarrow> pe_task e = Some n \<Longrightarrow>
     (n, t) \<notin> set (m_live (foldl drop_peer m ds))"
proof (induction ds arbitrary: m)
  case (Cons x ds)
  show ?case
  proof (cases "x = d")
    case True
    with Cons.prems drop_peer_task[of m d e n t] drop_all_facts[of "drop_peer m d" ds] show ?thesis by auto
  next
    case False
    with Cons show ?thesis by (simp add: drop_peer_facts)
  qed
qed simp

lemma ensure_trusted_facts:
  "m_roster (ensure_trusted m p) = m_roster m" "m_bus (ensure_trusted m p) = m_bus m"
  "m_next m \<le> m_next (ensure_trusted m p)"
  "(n, t) \<in> set (m_live (ensure_trusted m p)) \<Longrightarrow> (n, t) \<in> set (m_live m) \<or> m_next m \<le> n"
  "map_of (m_peers (ensure_trusted m p)) d \<noteq> None \<Longrightarrow> map_of (m_peers m) d \<noteq> None \<or> is_trusted_id (m_roster m) d"
  by (auto simp: ensure_trusted_def ensure_peer_def Let_def put_entry_def update_conv' case_prod_beta
      split: role.splits option.splits if_splits)

lemma ensure_all_facts:
  "m_roster (foldl ensure_trusted m ps) = m_roster m \<and> m_bus (foldl ensure_trusted m ps) = m_bus m
   \<and> m_next m \<le> m_next (foldl ensure_trusted m ps)
   \<and> (\<forall>n t. (n, t) \<in> set (m_live (foldl ensure_trusted m ps)) \<longrightarrow> (n, t) \<in> set (m_live m) \<or> m_next m \<le> n)
   \<and> (\<forall>d. map_of (m_peers (foldl ensure_trusted m ps)) d \<noteq> None \<longrightarrow>
         map_of (m_peers m) d \<noteq> None \<or> is_trusted_id (m_roster m) d)"
proof (induction ps arbitrary: m)
  case (Cons p ps)
  let ?m = "ensure_trusted m p"
  have r: "m_roster ?m = m_roster m" and b: "m_bus ?m = m_bus m" and n: "m_next m \<le> m_next ?m"
    by (rule ensure_trusted_facts)+
  have l: "(k, t) \<in> set (m_live ?m) \<Longrightarrow> (k, t) \<in> set (m_live m) \<or> m_next m \<le> k" for k t
    by (rule ensure_trusted_facts)
  have e: "map_of (m_peers ?m) d \<noteq> None \<Longrightarrow> map_of (m_peers m) d \<noteq> None \<or> is_trusted_id (m_roster m) d" for d
    by (rule ensure_trusted_facts)
  note ih = Cons[of ?m, unfolded r b]
  show ?case unfolding foldl_Cons
  proof (intro conjI allI impI)
    fix k t assume "(k, t) \<in> set (m_live (foldl ensure_trusted ?m ps))"
    then have "(k, t) \<in> set (m_live ?m) \<or> m_next ?m \<le> k" using ih by blast
    with l n show "(k, t) \<in> set (m_live m) \<or> m_next m \<le> k" by (meson order_trans)
  next
    fix d assume "map_of (m_peers (foldl ensure_trusted ?m ps)) d \<noteq> None"
    with ih e show "map_of (m_peers m) d \<noteq> None \<or> is_trusted_id (m_roster m) d" by blast
  qed (use ih n in \<open>auto intro: order_trans\<close>)
qed simp

lemma roster_changed_entries:
  assumes "map_of (m_peers (roster_changed ks m)) d \<noteq> None"
  shows "is_trusted_id (m_roster m) d"
proof -
  let ?ds = "filter (\<lambda>d. \<not> is_trusted_id (m_roster m) d) (map fst (m_peers m))"
  let ?m = "foldl drop_peer m ?ds"
  have "map_of (m_peers ?m) d \<noteq> None \<or> is_trusted_id (m_roster m) d"
    using assms ensure_all_facts[of ?m "seed (m_discovered ?m) (static_peers (m_roster ?m) ks)"]
      drop_all_facts[of m ?ds] by (simp add: roster_changed_def Let_def)
  then show ?thesis
    using drop_all_facts[of m ?ds] by (auto dest: map_of_SomeD split: if_splits)
      (metis fst_conv imageI map_of_SomeD)
qed

lemma all_equal_length: "distinct xs \<Longrightarrow> \<forall>x\<in>set xs. \<forall>y\<in>set xs. x = y \<Longrightarrow> length xs \<le> 1"
proof (rule ccontr)
  assume d: "distinct xs" and eq: "\<forall>x\<in>set xs. \<forall>y\<in>set xs. x = y" and "\<not> length xs \<le> 1"
  then have l: "0 < length xs" "1 < length xs" by auto
  then have "xs ! 0 = xs ! 1" using eq by (meson nth_mem)
  with d l show False by (simp add: nth_eq_iff_index_eq)
qed

text \<open>What is left of a device that had an entry and is no longer trusted.\<close>

lemma roster_changed_drops:
  assumes wf: "mgr_wf m" and un: "\<not> is_trusted_id (m_roster m) d" and e: "map_of (m_peers m) d = Some e"
  shows "sender (m_bus (roster_changed ks m)) d = None"
    and "pe_task e = Some n \<Longrightarrow> (n, t) \<notin> set (m_live (roster_changed ks m))"
proof -
  let ?ds = "filter (\<lambda>d. \<not> is_trusted_id (m_roster m) d) (map fst (m_peers m))"
  let ?m = "foldl drop_peer m ?ds"
  let ?ps = "seed (m_discovered ?m) (static_peers (m_roster ?m) ks)"
  have d: "d \<in> set ?ds" using un map_of_SomeD[OF e] by force
  have rc: "roster_changed ks m = foldl ensure_trusted ?m ?ps" by (simp add: roster_changed_def Let_def)
  note f = drop_all_facts[of m ?ds] and g = ensure_all_facts[of ?m ?ps]
  show "sender (m_bus (roster_changed ks m)) d = None" unfolding rc using f g d by simp
  assume t: "pe_task e = Some n"
  have "n < m_next m" using wf e t by (auto simp: mgr_wf_def entry_ok_def)
  moreover have "(n, t) \<notin> set (m_live ?m)" by (rule drop_all_task[OF d e t])
  ultimately show "(n, t) \<notin> set (m_live (roster_changed ks m))" unfolding rc using f g by fastforce
qed

lemma reload_cuts_off:
  assumes wf: "mgr_wf m" and un: "\<not> is_trusted_id r' d"
    and m': "m' = world_step (world_step m (ReloadRoster r')) (Loop (RosterChanged ks'))"
  shows "map_of (m_peers m') d = None" "(n, DialTask d) \<notin> set (m_live m')"
    "map_of (m_peers m) d = Some e \<Longrightarrow> sender (m_bus m') d = None"
    "map_of (m_peers m) d = Some e \<Longrightarrow> pe_task e = Some n \<Longrightarrow> (n, t) \<notin> set (m_live m')"
proof -
  have m': "m' = roster_changed ks' (m\<lparr>m_roster := r'\<rparr>)" by (simp add: m' world_step_def)
  have wf': "mgr_wf m'" unfolding m' using wf by (simp add: roster_changed_wf)
  show none: "map_of (m_peers m') d = None"
    using roster_changed_entries[of ks' "m\<lparr>m_roster := r'\<rparr>" d] un unfolding m' by force
  then show "(n, DialTask d) \<notin> set (m_live m')" using dial_task_entry[OF wf', of n d] by auto
  show "map_of (m_peers m) d = Some e \<Longrightarrow> sender (m_bus m') d = None"
    "map_of (m_peers m) d = Some e \<Longrightarrow> pe_task e = Some n \<Longrightarrow> (n, t) \<notin> set (m_live m')"
    using roster_changed_drops[of "m\<lparr>m_roster := r'\<rparr>" d] wf un by (simp_all add: m')
qed

section \<open>Properties\<close>

text \<open>
  Arbitration: of two devices with different ids exactly one dials the other.
\<close>

theorem exactly_one_side_dials:
  assumes "a \<noteq> b"
  shows "(role_for a b = Dialer) \<noteq> (role_for b a = Dialer)"
  using assms less_asym by (auto simp: role_for_def)

theorem exactly_one_side_dials_witness:
  "(role_for ''aaaa'' ''ffff'' = Dialer) \<noteq> (role_for ''ffff'' ''aaaa'' = Dialer)"
  by (rule exactly_one_side_dials) simp

text \<open>
  C23. One dial loop per peer: whatever sequence of discoveries, losses, roster changes,
  inbound connections and disconnects the manager sees, at most one dial loop is alive for
  any device, and only for devices this side is to dial.
\<close>

theorem one_dial_loop_per_peer:
  "length (filter (\<lambda>l. snd l = DialTask d) (m_live (foldl world_step (mgr_start own r ks b) evs))) \<le> 1
   \<and> (list_ex (\<lambda>l. snd l = DialTask d) (m_live (foldl world_step (mgr_start own r ks b) evs)) \<longrightarrow>
        role_for (m_own (foldl world_step (mgr_start own r ks b) evs)) d = Dialer)"
proof -
  define m where "m = foldl world_step (mgr_start own r ks b) evs"
  have wf: "mgr_wf m" unfolding m_def by (rule tr.run_keeps[OF mgr_start_wf])
  have uniq: "n = n'" if "(n, DialTask d) \<in> set (m_live m)" "(n', DialTask d) \<in> set (m_live m)" for n n'
    using dial_task_entry[OF wf that(1)] dial_task_entry[OF wf that(2)] by auto
  let ?f = "filter (\<lambda>l. snd l = DialTask d) (m_live m)"
  have "distinct ?f" using wf by (simp add: mgr_wf_def distinct_map)
  moreover have "\<forall>x\<in>set ?f. \<forall>y\<in>set ?f. x = y"
  proof (intro ballI)
    fix x y assume "x \<in> set ?f" "y \<in> set ?f"
    then have mem: "x \<in> set (m_live m)" "y \<in> set (m_live m)"
      and snds: "snd x = DialTask d" "snd y = DialTask d"
      unfolding set_filter by blast+
    have "(fst x, DialTask d) \<in> set (m_live m)" "(fst y, DialTask d) \<in> set (m_live m)"
      using mem prod.collapse[of x] prod.collapse[of y] snds by metis+
    then have "fst x = fst y" by (rule uniq)
    with snds show "x = y" by (intro prod_eqI) simp_all
  qed
  ultimately have "length ?f \<le> 1" by (rule all_equal_length)
  moreover have "list_ex (\<lambda>l. snd l = DialTask d) (m_live m) \<longrightarrow> role_for (m_own m) d = Dialer"
  proof
    assume "list_ex (\<lambda>l. snd l = DialTask d) (m_live m)"
    then obtain n where "(n, DialTask d) \<in> set (m_live m)" by (auto simp: list_ex_iff)
    from dial_task_entry[OF wf this] obtain e where "map_of (m_peers m) d = Some e" "pe_role e = Dialer" by blast
    moreover from this(1) have "entry_ok m d e" using wf unfolding mgr_wf_def by blast
    ultimately show "role_for (m_own m) d = Dialer" by (simp add: entry_ok_def)
  qed
  ultimately show ?thesis by (simp add: m_def)
qed

definition tr_roster :: "string \<Rightarrow> roster" where
  "tr_roster d = roster_insert roster_empty
     \<lparr>rp_id = d, rp_name = ''n'', rp_key = replicate 32 7, rp_addrs = [socket_new (V4 [192, 168, 1, 7]) 4242]\<rparr>"

definition tr_inbound :: "string \<Rightarrow> internal" where
  "tr_inbound d = InboundReady \<lparr>protocol_version = 1, hello_id = d, hello_name = ''n'', hello_caps = caps_NONE\<rparr> caps_NONE"

definition tr_start :: mgr where
  "tr_start = mgr_start ''cccc'' (tr_roster ''dddd'') [replicate 32 7] bus_new"

text \<open>
  Revocation: once the roster no longer lists a device and the manager has processed the
  change, the device has no entry and no dial loop, and if it had an entry before, its
  outbound queue is gone from the bus and the task recorded for it has been aborted.
\<close>

theorem unpaired_device_is_cut_off:
  assumes "m' = world_step (world_step m (ReloadRoster r')) (Loop (RosterChanged ks'))"
    and "m = foldl world_step (mgr_start own r ks b) evs" and "\<not> is_trusted_id r' d"
  shows "map_of (m_peers m') d = None \<and> (\<forall>n. (n, DialTask d) \<notin> set (m_live m'))
         \<and> (\<forall>e. map_of (m_peers m) d = Some e \<longrightarrow>
              sender (m_bus m') d = None \<and> (\<forall>n t. pe_task e = Some n \<longrightarrow> (n, t) \<notin> set (m_live m')))"
proof -
  have wf: "mgr_wf m" unfolding assms(2) by (rule tr.run_keeps[OF mgr_start_wf])
  show ?thesis using reload_cuts_off[OF wf assms(3,1)] by blast
qed

theorem unpaired_device_is_cut_off_witness:
  "list_ex (\<lambda>l. snd l = DialTask ''dddd'') (m_live tr_start)
   \<and> m_live (world_step (world_step tr_start (ReloadRoster roster_empty)) (Loop (RosterChanged []))) = []
   \<and> map_of (m_peers (world_step (world_step tr_start (ReloadRoster roster_empty)) (Loop (RosterChanged [])))) ''dddd'' = None"
proof -
  have "list_ex (\<lambda>l. snd l = DialTask ''dddd'') (m_live tr_start)" by code_simp
  moreover have "m_live (world_step (world_step tr_start (ReloadRoster roster_empty)) (Loop (RosterChanged []))) = []"
    by code_simp
  moreover have "map_of (m_peers (world_step (world_step tr_start (ReloadRoster roster_empty)) (Loop (RosterChanged [])))) ''dddd'' = None"
    using unpaired_device_is_cut_off[OF refl, of tr_start "''cccc''" "tr_roster ''dddd''" "[replicate 32 7]" bus_new "[]" roster_empty "''dddd''" "[]"]
    by (simp add: tr_start_def is_trusted_id_def roster_empty_def)
  ultimately show ?thesis by simp
qed

theorem one_dial_loop_per_peer_witness:
  "role_for (m_own (foldl world_step tr_start [Loop (Lost ''dddd'')])) ''dddd'' = Dialer"
proof -
  have "list_ex (\<lambda>l. snd l = DialTask ''dddd'') (m_live (foldl world_step tr_start [Loop (Lost ''dddd'')]))"
    by code_simp
  then show ?thesis
    using one_dial_loop_per_peer[of "''dddd''" "''cccc''" "tr_roster ''dddd''" "[replicate 32 7]" bus_new "[Loop (Lost ''dddd'')]"]
    by (simp only: tr_start_def[symmetric])
qed

text \<open>
  A connection that comes up while its device is being unpaired is reported as online for
  good: the task announces itself, the roster change aborts it and drops its entry, and only
  then is the announcement processed, so the bus keeps a link and the last event says
  connected although no task is left that could ever report the end.
\<close>

theorem late_announcement_after_unpairing:
  "let m = foldl world_step (mgr_start ''cccc'' (tr_roster ''bbbb'') [] bus_new)
        [Loop (tr_inbound ''bbbb''), ReloadRoster roster_empty, Loop (RosterChanged []),
         Loop (ConnUp ''bbbb'' ''n'' caps_NONE None 0)]
   in connected_ids (m_bus m) = [''bbbb''] \<and> m_live m = [] \<and> m_peers m = []
      \<and> m_events m = [PeerConnected ''bbbb'' ''n'' caps_NONE None]"
  by code_simp

text \<open>
  A stale end-of-connection message forgets the task of the connection that replaced it:
  the next inbound connection of the device then leaves two connections alive.
\<close>

theorem stale_end_forgets_the_new_task:
  "let m = foldl world_step (mgr_start ''cccc'' (tr_roster ''bbbb'') [] bus_new)
        [Loop (tr_inbound ''bbbb''), Loop (tr_inbound ''bbbb''), Loop (ConnDown ''bbbb'' PeerClosed),
         Loop (tr_inbound ''bbbb'')]
   in m_live m = [(2, ConnTask ''bbbb''), (1, ConnTask ''bbbb'')]"
  by code_simp

end
