(* ===== verification/Paths.thy ===== *)
theory Paths
  imports Filesend
begin

text \<open>
  \<open>crates/qdrop-core/src/paths.rs\<close> and \<open>crates/qdrop-core/src/device.rs\<close>: where the files
  of the program are, the atomic writer all of them go through, and the persistent device
  id. The environment is a function from variable names to values. A path handed to the
  writer is \<open>dir.join(name)\<close>, so it is given as \<open>dir\<close> and \<open>name\<close>.
\<close>

section \<open>Locations\<close>

type_synonym vars = "string \<Rightarrow> string option"

definition nonempty :: "string option \<Rightarrow> string option" where
  "nonempty v = (case v of Some s \<Rightarrow> if s \<noteq> [] then Some s else None | None \<Rightarrow> None)"

definition config_dir :: "vars \<Rightarrow> (string, string) res" where
  "config_dir env =
    (case env ''QDROP_CONFIG_DIR'' of
       Some dir \<Rightarrow> Inr dir
     | None \<Rightarrow>
         (case nonempty (env ''XDG_CONFIG_HOME'') of
            Some xdg \<Rightarrow> Inr (path_join xdg ''qdrop'')
          | None \<Rightarrow>
              (case nonempty (env ''HOME'') of
                 None \<Rightarrow> Inl ''neither QDROP_CONFIG_DIR, XDG_CONFIG_HOME, nor HOME is set''
               | Some home \<Rightarrow> Inr (path_join (path_join home ''.config'') ''qdrop''))))"

definition in_config_dir :: "vars \<Rightarrow> string \<Rightarrow> (string, string) res" where
  "in_config_dir env name =
     (case config_dir env of Inl e \<Rightarrow> Inl e | Inr d \<Rightarrow> Inr (path_join d name))"

definition config_file :: "vars \<Rightarrow> (string, string) res" where
  "config_file env = in_config_dir env ''config.toml''"

definition peers_file :: "vars \<Rightarrow> (string, string) res" where
  "peers_file env = in_config_dir env ''peers.toml''"

definition identity_file :: "vars \<Rightarrow> (string, string) res" where
  "identity_file env = in_config_dir env ''identity.pem''"

definition state_file :: "vars \<Rightarrow> (string, string) res" where
  "state_file env = in_config_dir env ''state.json''"

definition device_id_file :: "vars \<Rightarrow> (string, string) res" where
  "device_id_file env = in_config_dir env ''device_id''"

definition downloads_dir :: "vars \<Rightarrow> (string, string) res" where
  "downloads_dir env =
    (case env ''QDROP_DOWNLOAD_DIR'' of
       Some dir \<Rightarrow> Inr dir
     | None \<Rightarrow>
         (case nonempty (env ''HOME'') of
            None \<Rightarrow> Inl ''HOME is not set''
          | Some home \<Rightarrow> Inr (path_join (path_join home ''Downloads'') ''qdrop'')))"

definition socket_path :: "vars \<Rightarrow> (string, string) res" where
  "socket_path env =
    (case nonempty (env ''QDROP_CONTROL_SOCK'') of
       Some p \<Rightarrow> Inr p
     | None \<Rightarrow>
         (case nonempty (env ''XDG_RUNTIME_DIR'') of
            Some dir \<Rightarrow> Inr (path_join dir ''qdropd.sock'')
          | None \<Rightarrow> in_config_dir env ''qdropd.sock''))"

section \<open>The atomic writer\<close>

text \<open>
  Which system call fails, if any; \<open>WriteFails n\<close> after \<open>n\<close> bytes. The result is the
  sequence of file systems an observer (or a crash) can see, one after each call and one
  for each prefix of the data, and the value returned.
\<close>

datatype wa_fault = NoFault | MkdirFails | CreateFails | ChmodFails | WriteFails nat | SyncFails | RenameFails

definition tmp_name :: "string \<Rightarrow> nat \<Rightarrow> string" where
  "tmp_name name pid = ''.'' @ (case to_str name of Some n \<Rightarrow> n | None \<Rightarrow> ''qdrop'') @ ''.tmp-'' @ dec_str pid"

definition write_prefixes :: "handle \<Rightarrow> bytes \<Rightarrow> nat \<Rightarrow> fs \<Rightarrow> fs list" where
  "write_prefixes h contents n f = map (\<lambda>k. snd (file_write h (take k contents) f)) [0..<Suc n]"

definition write_atomic ::
  "wa_fault \<Rightarrow> nat \<Rightarrow> string \<Rightarrow> string \<Rightarrow> bytes \<Rightarrow> fs \<Rightarrow> fs list \<times> (string, unit) res" where
  "write_atomic fault pid dir name contents f =
    (let path = path_join dir name in
     if fault = MkdirFails then ([f], Inl (''creating '' @ dir))
     else (let f1 = create_dir_all dir f; tmp = path_join dir (tmp_name name pid) in
       if fault = CreateFails then ([f, f1], Inl (''creating '' @ tmp))
       else (let (h, f2) = file_create tmp f1 in
         if fault = ChmodFails then ([f, f1, f2], Inl ''permissions'')
         else (case fault of
            WriteFails n \<Rightarrow> ([f, f1, f2] @ write_prefixes h contents n f2, Inl (''writing '' @ tmp))
          | _ \<Rightarrow>
              let seen = [f, f1, f2] @ write_prefixes h contents (length contents) f2;
                  f3 = snd (file_write h contents f2)
              in if fault = SyncFails then (seen, Inl (''writing '' @ tmp))
                 else if fault = RenameFails then (seen, Inl (''renaming '' @ tmp @ '' -> '' @ path))
                 else (case rename_file tmp path f3 of
                    None \<Rightarrow> (seen, Inl (''renaming '' @ tmp @ '' -> '' @ path))
                  | Some f4 \<Rightarrow> (seen @ [f4], Inr ()))))))"

section \<open>The device id\<close>

definition is_valid :: "string \<Rightarrow> bool" where
  "is_valid d \<longleftrightarrow> length d = 32 \<and> list_all is_ascii_hexdigit d"

text \<open>\<open>random\<close> are the 16 bytes drawn.\<close>

definition generate :: "bytes \<Rightarrow> string" where
  "generate random = concat (map hex_byte random)"

text \<open>
  \<open>read_fails\<close> is a read error other than the file being absent; \<open>fault\<close> a failing
  \<open>create_dir_all\<close> or \<open>write\<close>.
\<close>

definition load_or_create_at ::
  "bool \<Rightarrow> string option \<Rightarrow> bytes \<Rightarrow> string \<Rightarrow> string \<Rightarrow> fs \<Rightarrow> (string, string) res \<times> fs" where
  "load_or_create_at read_fails fault random dir name f =
    (let path = path_join dir name in
     if read_fails then (Inl (''reading '' @ path), f)
     else (case read_file f path of
        Some b \<Rightarrow>
          (case from_utf8 b of
             None \<Rightarrow> (Inl (''reading '' @ path), f)
           | Some text \<Rightarrow>
               let d = trim text in
               if is_valid d then (Inr d, f)
               else (Inl (''device id file '' @ path @ '' is corrupt''), f))
      | None \<Rightarrow>
          let d = generate random in
          (case fault of
             Some e \<Rightarrow> (Inl e, f)
           | None \<Rightarrow>
               let f = create_dir_all dir f;
                   (h, f) = file_create path f;
                   (_, f) = file_write h (str_bytes (d @ [CHR 0x0A])) f
               in (Inr d, f))))"

section \<open>Lemmas\<close>

lemma overlay_0: "overlay 0 d c = d @ drop (length d) c"
  by (simp add: overlay_def)

lemma dirents_write [simp]: "dirents (snd (file_write h d f)) = dirents f"
  by (simp add: file_write_def)

lemma create_handle: "file_create p f = (h, g) \<Longrightarrow> dirents g p = Some (h_ino h) \<and> h_off h = 0 \<and> inodes g (h_ino h) = []"
  by (auto simp: file_create_def split: option.splits)

text \<open>Two names of the directory that are not links to one file, and valid inode numbers.\<close>

definition unlinked :: "fs \<Rightarrow> string \<Rightarrow> string \<Rightarrow> bool" where
  "unlinked f p q \<longleftrightarrow>
     p \<noteq> q \<and> (dirents f p = None \<or> dirents f p \<noteq> dirents f q)
     \<and> (case dirents f q of Some i \<Rightarrow> i < next_ino f | None \<Rightarrow> True)"

lemma create_other:
  assumes "unlinked f p q" "file_create p f = (h, g)"
  shows "read_file g q = read_file f q \<and> dirents g q \<noteq> Some (h_ino h) \<and> dirents g q = dirents f q"
  using assms by (auto simp: unlinked_def file_create_def read_file_def split: option.splits)

lemma write_other:
  "dirents f q \<noteq> Some (h_ino h) \<Longrightarrow> read_file (snd (file_write h d f)) q = read_file f q"
  by (auto simp: file_write_def read_file_def map_option_case split: option.splits)

lemma create_dir_all_dirents [simp]: "dirents (create_dir_all d f) = dirents f" "inodes (create_dir_all d f) = inodes f"
  "next_ino (create_dir_all d f) = next_ino f"
  by (simp_all add: create_dir_all_def)

lemma read_create_dir_all [simp]: "read_file (create_dir_all d f) p = read_file f p"
  by (simp add: read_file_def)

lemma unlinked_create_dir_all [simp]: "unlinked (create_dir_all d f) p q = unlinked f p q"
  by (simp add: unlinked_def split: option.splits)

lemma rename_read:
  "dirents f p = Some i \<Longrightarrow> rename_file p q f = Some g \<Longrightarrow> read_file g q = Some (inodes f i)"
  by (auto simp: rename_file_def read_file_def)

lemma write_from_start:
  "h_off h = 0 \<Longrightarrow> inodes f (h_ino h) = [] \<Longrightarrow> inodes (snd (file_write h d f)) (h_ino h) = d"
  by (simp add: file_write_def overlay_0)

lemma hex_trim:
  assumes "list_all is_ascii_hexdigit s" "s \<noteq> []"
  shows "trim (s @ [CHR 0x0A]) = s" "utf8_ok (s @ [CHR 0x0A])"
proof -
  have hex: "of_char c < (128 :: nat) \<and> \<not> is_whitespace (of_char c)" if "is_ascii_hexdigit c" for c
    using that by (auto simp: is_ascii_hexdigit_def is_whitespace_def Let_def)
  have ascii: "list_all (\<lambda>c. of_char c < (128 :: nat)) (s @ [CHR 0x0A])"
    using assms(1) hex by (auto simp: list_all_iff)
  then show "utf8_ok (s @ [CHR 0x0A])" by (rule utf8_ok_ascii)
  have ch: "chars (s @ [CHR 0x0A]) = map (\<lambda>c. (Some (of_char c), [c])) s @ [(Some 10, [CHR 0x0A])]"
    using chars_ascii[OF ascii] by simp
  have nws: "\<not> ws_item (Some (of_char c), [c])" if "c \<in> set s" for c
    using assms(1) hex that by (auto simp: list_all_iff ws_item_def)
  have f: "dropWhile ws_item (map (\<lambda>c. (Some (of_char c), [c])) s @ xs) = map (\<lambda>c. (Some (of_char c), [c])) s @ xs" for xs
    using assms(2) nws by (cases s) auto
  have r: "dropWhile ws_item (rev (map (\<lambda>c. (Some (of_char c), [c])) s)) = rev (map (\<lambda>c. (Some (of_char c), [c])) s)"
    using assms(2) nws by (cases s rule: rev_cases) auto
  have "ws_item (Some 10, [CHR 0x0A])" by (simp add: ws_item_def is_whitespace_def)
  then show "trim (s @ [CHR 0x0A]) = s"
    unfolding trim_def ch Let_def using f r by (simp add: comp_def)
qed

lemma generate_valid: "length random = 16 \<Longrightarrow> is_valid (generate random)"
proof -
  have "length (concat (map hex_byte bs)) = 2 * length bs \<and> list_all is_ascii_hexdigit (concat (map hex_byte bs))" for bs
    using hex_byte_shape by (induction bs) auto
  then show "length random = 16 \<Longrightarrow> is_valid (generate random)" by (simp add: is_valid_def generate_def)
qed

lemma write_atomic_safe:
  assumes "unlinked f (path_join dir (tmp_name name pid)) (path_join dir name)"
    and "write_atomic fault pid dir name contents f = (seen, r)"
  shows "list_all (\<lambda>g. read_file g (path_join dir name) \<in> {read_file f (path_join dir name), Some contents}) seen
    \<and> (r = Inr () \<longrightarrow> read_file (last seen) (path_join dir name) = Some contents)
    \<and> (r \<noteq> Inr () \<longrightarrow> list_all (\<lambda>g. read_file g (path_join dir name) = read_file f (path_join dir name)) seen)"
proof -
  let ?p = "path_join dir name" and ?t = "path_join dir (tmp_name name pid)"
  let ?f1 = "create_dir_all dir f"
  obtain h f2 where c: "file_create ?t ?f1 = (h, f2)" by fastforce
  have o: "read_file f2 ?p = read_file f ?p" "dirents f2 ?p \<noteq> Some (h_ino h)"
    using create_other[of ?f1 ?t ?p h f2] assms(1) c by auto
  note hd = create_handle[OF c]
  have pre: "list_all (\<lambda>g. read_file g ?p = read_file f ?p) (write_prefixes h contents n f2)" for n
    using o by (simp add: write_prefixes_def list_all_iff write_other)
  let ?f3 = "snd (file_write h contents f2)"
  obtain f4 where r: "rename_file ?t ?p ?f3 = Some f4" using hd by (simp add: rename_file_def)
  moreover have "read_file f4 ?p = Some contents"
    using rename_read[OF _ r] hd write_from_start[of h f2 contents] by simp
  ultimately show ?thesis
    using assms(2) pre o c
    by (cases fault) (auto simp: write_atomic_def Let_def list_all_iff)
qed

section \<open>Properties\<close>

text \<open>
  C36. Files are replaced atomically: whichever call fails and wherever a crash happens while
  a file is written, everyone who reads it finds either the old contents or the complete new
  ones, a successful write leaves the new ones, and a failed one the old ones.
\<close>

theorem write_atomic_is_atomic:
  assumes "unlinked f (path_join dir (tmp_name name pid)) (path_join dir name)"
    and "write_atomic fault pid dir name contents f = (seen, r)"
  shows "list_all (\<lambda>g. read_file g (path_join dir name) \<in> {read_file f (path_join dir name), Some contents}) seen
    \<and> (r = Inr () \<longrightarrow> read_file (last seen) (path_join dir name) = Some contents)
    \<and> (r \<noteq> Inr () \<longrightarrow> list_all (\<lambda>g. read_file g (path_join dir name) = read_file f (path_join dir name)) seen)"
  by (rule write_atomic_safe[OF assms])

theorem write_atomic_is_atomic_witness:
  "read_file (last (fst (write_atomic NoFault 7 ''/d'' ''f'' [1, 2] \<lparr>dirents = Map.empty, inodes = (\<lambda>_. []), dirs = [], next_ino = 0\<rparr>)))
     (path_join ''/d'' ''f'') = Some [1, 2]"
proof -
  let ?f = "\<lparr>dirents = Map.empty, inodes = (\<lambda>_. []), dirs = [], next_ino = 0\<rparr> :: fs"
  have "unlinked ?f (path_join ''/d'' (tmp_name ''f'' 7)) (path_join ''/d'' ''f'')" by code_simp
  moreover have "snd (write_atomic NoFault 7 ''/d'' ''f'' [1, 2] ?f) = Inr ()" by code_simp
  ultimately show ?thesis
    using write_atomic_is_atomic[of ?f "''/d''" "''f''" 7 NoFault "[1, 2]"]
    by (cases "write_atomic NoFault 7 ''/d'' ''f'' [1, 2] ?f") simp
qed

text \<open>
  The device id is stable: whatever the first start finds or draws, the id it returns is
  32 hexadecimal digits and every later start returns the same one.
\<close>

theorem device_id_is_stable:
  assumes "length random = 16" "load_or_create_at False None random dir name f = (Inr d, f')"
  shows "is_valid d \<and> load_or_create_at False fault random' dir name f' = (Inr d, f')"
proof (cases "read_file f (path_join dir name)")
  case (Some b)
  with assms(2) show ?thesis
    by (auto simp: load_or_create_at_def Let_def split: option.splits if_splits)
next
  case None
  let ?p = "path_join dir name" and ?c = "str_bytes (generate random @ [CHR 0x0A])"
  obtain h g where c: "file_create ?p (create_dir_all dir f) = (h, g)" by fastforce
  note hd = create_handle[OF c]
  have v: "is_valid (generate random)" by (rule generate_valid[OF assms(1)])
  then have t: "trim (generate random @ [CHR 0x0A]) = generate random" "utf8_ok (generate random @ [CHR 0x0A])"
    using hex_trim[of "generate random"] by (force simp: is_valid_def)+
  have f': "f' = snd (file_write h ?c g)" "d = generate random"
    using assms(2) None c by (auto simp: load_or_create_at_def Let_def case_prod_beta)
  then have "read_file f' ?p = Some ?c"
    using hd write_from_start[of h g ?c] by (simp add: read_file_def)
  with t v f' show ?thesis by (simp add: load_or_create_at_def from_utf8_str_bytes Let_def)
qed

definition fs_empty :: fs where
  "fs_empty = \<lparr>dirents = Map.empty, inodes = (\<lambda>_. []), dirs = [], next_ino = 0\<rparr>"

theorem device_id_is_stable_witness:
  "load_or_create_at False None (replicate 16 255) ''/d'' ''device_id''
     (snd (load_or_create_at False None (replicate 16 7) ''/d'' ''device_id'' fs_empty))
   = (Inr (generate (replicate 16 7)), snd (load_or_create_at False None (replicate 16 7) ''/d'' ''device_id'' fs_empty))"
proof -
  have "fst (load_or_create_at False None (replicate 16 7) ''/d'' ''device_id'' fs_empty) = Inr (generate (replicate 16 7))"
    by (simp add: load_or_create_at_def fs_empty_def read_file_def case_prod_beta Let_def)
  then show ?thesis
    using device_id_is_stable[of "replicate 16 7" "''/d''" "''device_id''" fs_empty "generate (replicate 16 7)" _ None "replicate 16 255"]
    by (metis length_replicate prod.collapse)
qed

end
