(* ===== verification/State.thy ===== *)
theory State
  imports Transport Paths
begin

text \<open>
  \<open>crates/qdrop-core/src/state.rs\<close> and \<open>crates/qdropd/src/state.rs\<close>: the published view of
  who is online. \<open>now_unix\<close> is the argument \<open>now\<close> (seconds); the file \<open>state.json\<close> is
  the value last saved, and whether a save works is an argument of each step.
\<close>

record daemon_state =
  online :: "string \<rightharpoonup> u64"
  last_seen_at :: "string \<rightharpoonup> u64"
  last_addr :: "string \<rightharpoonup> string"

definition daemon_state_default :: daemon_state where
  "daemon_state_default = \<lparr>online = Map.empty, last_seen_at = Map.empty, last_addr = Map.empty\<rparr>"

definition mark_online :: "u64 \<Rightarrow> string \<Rightarrow> daemon_state \<Rightarrow> daemon_state" where
  "mark_online now d st = st\<lparr>online := (online st)(d \<mapsto> now)\<rparr>"

definition remember_addr :: "string \<Rightarrow> string \<Rightarrow> daemon_state \<Rightarrow> daemon_state" where
  "remember_addr d addr st = st\<lparr>last_addr := (last_addr st)(d \<mapsto> addr)\<rparr>"

definition mark_offline :: "u64 \<Rightarrow> string \<Rightarrow> daemon_state \<Rightarrow> daemon_state" where
  "mark_offline now d st =
     st\<lparr>online := (online st)(d := None), last_seen_at := (last_seen_at st)(d \<mapsto> now)\<rparr>"

definition is_online :: "daemon_state \<Rightarrow> string \<Rightarrow> bool" where
  "is_online st d \<longleftrightarrow> online st d \<noteq> None"

text \<open>Reading \<open>state.json\<close>: absent, or present with the result of parsing it.\<close>

datatype state_file_read = StateAbsent | StateBytes "daemon_state option" | StateIoError

definition state_load :: "state_file_read \<Rightarrow> (string, daemon_state) res" where
  "state_load r =
    (case r of
       StateBytes (Some st) \<Rightarrow> Inr st
     | StateBytes None \<Rightarrow> Inl ''parsing''
     | StateAbsent \<Rightarrow> Inr daemon_state_default
     | StateIoError \<Rightarrow> Inl ''reading'')"

definition ago :: "u64 \<Rightarrow> u64 \<Rightarrow> string" where
  "ago now then_unix =
    (if then_unix = 0 \<or> then_unix > now then ''unknown''
     else (let secs = unat (now - then_unix) in
       if secs \<le> 59 then dec_str secs @ ''s ago''
       else if secs \<le> 3599 then dec_str (secs div 60) @ ''m ago''
       else if secs \<le> 86399 then dec_str (secs div 3600) @ ''h ago''
       else dec_str (secs div 86400) @ ''d ago''))"

section \<open>Publishing\<close>

text \<open>The publisher's state, the file, and the devices a refresh was started for.\<close>

record publisher =
  pb_state :: daemon_state
  pb_file :: "daemon_state option"
  pb_refreshed :: "string list"

definition pb_save :: "bool \<Rightarrow> publisher \<Rightarrow> publisher" where
  "pb_save ok p = (if ok then p\<lparr>pb_file := Some (pb_state p)\<rparr> else p)"

definition publish_start :: "state_file_read \<Rightarrow> bool \<Rightarrow> publisher" where
  "publish_start r save_ok =
    (let st = (case state_load r of Inr st \<Rightarrow> st | Inl _ \<Rightarrow> daemon_state_default);
         st = st\<lparr>online := Map.empty\<rparr>
     in pb_save save_ok \<lparr>pb_state = st, pb_file = (case r of StateBytes o' \<Rightarrow> o' | _ \<Rightarrow> None), pb_refreshed = []\<rparr>)"

definition publish_step :: "publisher \<Rightarrow> u64 \<times> bool \<times> transport_event \<Rightarrow> publisher" where
  "publish_step p e =
    (case e of (now, save_ok, ev) \<Rightarrow>
      pb_save save_ok
        (case ev of
           PeerConnected d name cs addr \<Rightarrow>
             let st = mark_online now d (pb_state p);
                 st = (case addr of Some a \<Rightarrow> remember_addr d a st | None \<Rightarrow> st)
             in p\<lparr>pb_state := st, pb_refreshed := pb_refreshed p @ [d]\<rparr>
         | PeerDisconnected d reason \<Rightarrow> p\<lparr>pb_state := mark_offline now d (pb_state p)\<rparr>))"

section \<open>Lemmas\<close>

text \<open>The time of the last connection, if the last event of the device was one.\<close>

fun ev_device :: "transport_event \<Rightarrow> string" where
  "ev_device (PeerConnected d _ _ _) = d"
| "ev_device (PeerDisconnected d _) = d"

definition up_since :: "string \<Rightarrow> (u64 \<times> bool \<times> transport_event) list \<Rightarrow> u64 option" where
  "up_since d es =
    (case find (\<lambda>(_, _, ev). ev_device ev = d) (rev es) of
       Some (now, _, PeerConnected _ _ _ _) \<Rightarrow> Some now
     | _ \<Rightarrow> None)"

lemma up_since_snoc:
  "up_since d (es @ [(now, ok, ev)]) =
     (if ev_device ev = d then (case ev of PeerConnected _ _ _ _ \<Rightarrow> Some now | PeerDisconnected _ _ \<Rightarrow> None)
      else up_since d es)"
  by (auto simp: up_since_def split: transport_event.splits)

lemma pb_save_state [simp]: "pb_state (pb_save ok p) = pb_state p"
  by (simp add: pb_save_def)

lemma publish_online:
  "online (pb_state (foldl publish_step (publish_start r ok) es)) = (\<lambda>d. up_since d es)"
proof (induction es rule: rev_induct)
  case Nil
  then show ?case by (simp add: publish_start_def up_since_def)
next
  case (snoc e es)
  obtain now ok' ev where e: "e = (now, ok', ev)" by (metis prod_cases3)
  show ?case
    using snoc
    by (cases ev) (auto simp: e publish_step_def up_since_snoc fun_eq_iff mark_online_def mark_offline_def
        remember_addr_def Let_def split: option.splits)
qed

section \<open>Properties\<close>

text \<open>
  The published state follows the connections: after any sequence of transport events a
  device is online exactly if its last event was a connection, with the time of that event;
  devices a previous run left behind as online are not; and if the last save worked, that is
  also what the file says.
\<close>

theorem published_state_follows_events:
  assumes "p = foldl publish_step (publish_start r ok) es"
  shows "(is_online (pb_state p) d \<longleftrightarrow> up_since d es \<noteq> None) \<and> online (pb_state p) d = up_since d es
    \<and> (es \<noteq> [] \<and> fst (snd (last es)) \<longrightarrow> pb_file p = Some (pb_state p))"
proof -
  have "pb_file p = Some (pb_state p)" if "es \<noteq> []" "fst (snd (last es))"
    using that by (cases es rule: rev_cases) (auto simp: assms publish_step_def pb_save_def split: prod.splits)
  then show ?thesis by (simp add: assms publish_online is_online_def)
qed

theorem published_state_follows_events_witness:
  "online (pb_state (foldl publish_step (publish_start StateAbsent True)
     [(5, True, PeerConnected ''a'' [] caps_NONE None), (9, True, PeerConnected ''b'' [] caps_NONE None),
      (11, True, PeerDisconnected ''a'' [])])) ''b''
   = up_since ''b'' [(5, True, PeerConnected ''a'' [] caps_NONE None), (9, True, PeerConnected ''b'' [] caps_NONE None),
      (11, True, PeerDisconnected ''a'' [])]"
  using published_state_follows_events[OF refl, where d = "''b''"] by blast

end
