(* ===== verification/Control.thy ===== *)
theory Control
  imports Sync Filesend Auth State
begin

text \<open>
  \<open>crates/qdropd/src/control.rs\<close>: the requests of the command line. The daemon's shared
  handles are one record; the registry file \<open>peers.toml\<close> is part of it because requests
  read and change it. JSON parsing and printing (\<open>serde\_json\<close>) are not modelled: a request
  is the parsed value, a response the value that is printed.
\<close>

section \<open>The daemon's shared state\<close>

text \<open>
  \<open>dm_clip\<close> is the queue of the clipboard thread, \<open>None\<close> on a host without clipboard;
  \<open>dm_sync\<close> holds the toggles (\<open>Controls\<close>) and the history. \<open>dm_streamed\<close> lists what was streamed
  to whom as a clipboard image, with backpressure and so beside the bounded queues of the bus.
\<close>

record daemon =
  dm_own :: string
  dm_port :: u16
  dm_policy :: confirm_policy
  dm_bus :: bus
  dm_reg :: "(load_error, peers) res"
  dm_sync :: sync
  dm_fx :: filexfer
  dm_auth :: auth_mgr
  dm_clip :: "clip_command list option"
  dm_clip_rx :: "(string \<times> message) list"
  dm_launched :: "string list"
  dm_shown :: "(string \<times> string) list"
  dm_streamed :: "(string \<times> message list) list"

text \<open>Calling a component that shares the bus (and the registry) with the others.\<close>

definition on_fx :: "(filexfer \<Rightarrow> filexfer) \<Rightarrow> daemon \<Rightarrow> daemon" where
  "on_fx f d = (let fx = f ((dm_fx d)\<lparr>fx_bus := dm_bus d\<rparr>) in d\<lparr>dm_fx := fx, dm_bus := fx_bus fx\<rparr>)"

definition on_auth :: "(auth_mgr \<Rightarrow> auth_mgr) \<Rightarrow> daemon \<Rightarrow> daemon" where
  "on_auth f d =
    (let au = f ((dm_auth d)\<lparr>au_bus := dm_bus d, au_reg := dm_reg d\<rparr>)
     in d\<lparr>dm_auth := au, dm_bus := au_bus au, dm_reg := au_reg au\<rparr>)"

definition on_sync :: "(sync \<Rightarrow> sync) \<Rightarrow> daemon \<Rightarrow> daemon" where
  "on_sync f d = (let st = f ((dm_sync d)\<lparr>sy_bus := dm_bus d\<rparr>) in d\<lparr>dm_sync := st, dm_bus := sy_bus st\<rparr>)"

definition to_clipboard :: "clip_command \<Rightarrow> daemon \<Rightarrow> daemon" where
  "to_clipboard c d = d\<lparr>dm_clip := map_option (\<lambda>q. q @ [c]) (dm_clip d)\<rparr>"

section \<open>Requests\<close>

datatype request =
    ClipPause
  | ClipResume
  | ClipStatus
  | Status
  | Send "string list" "string option"
  | Open string "string option"
  | ReqAuth string bool
  | ClipGet
  | ClipSet string
  | ClipHistory
  | ClipRestore nat
  | ClipSend nat "string option"

record peer_row =
  row_name :: string
  row_id :: string
  row_online :: bool
  row_since :: "u64 option"
  row_last_seen :: "u64 option"

record status =
  st_port :: u16
  st_paused :: bool
  st_images :: bool
  st_connected :: "string list"
  st_rows :: "peer_row list"

datatype response =
    RStatus status
  | RSent bool "send_outcome list"
  | RDispatched nat
  | RError string
  | RText "string option"
  | ROk
  | REntries "list_item list"
  | RSentTo bool nat
  | RHost string

text \<open>
  What the world answers during a request: the state file, the file transfers, the
  acknowledgements of an image, the authorisation exchange, the clipboard thread.
\<close>

record ctl_env =
  ce_state :: state_file_read
  ce_attempts :: "string \<Rightarrow> string \<Rightarrow> nat \<Rightarrow> attempt"
  ce_image :: "string \<Rightarrow> nat option \<times> ack"
  ce_auth :: auth_env
  ce_reply :: auth_reply
  ce_text :: "string option"

definition status_json :: "ctl_env \<Rightarrow> daemon \<Rightarrow> status" where
  "status_json env d =
    (let connected = connected_ids (dm_bus d);
         ps = (case dm_reg d of Inr ps \<Rightarrow> ps | Inl _ \<Rightarrow> []);
         state = (case state_load (ce_state env) of Inr st \<Rightarrow> st | Inl _ \<Rightarrow> daemon_state_default)
     in \<lparr>st_port = dm_port d, st_paused = sy_paused (dm_sync d), st_images = sy_images (dm_sync d),
         st_connected = connected,
         st_rows = map (\<lambda>p. \<lparr>row_name = peer_name p, row_id = peer_id p,
              row_online = List.member connected (peer_id p),
              row_since = online state (peer_id p), row_last_seen = last_seen_at state (peer_id p)\<rparr>) ps\<rparr>)"

text \<open>Sending a history entry as text: to one peer by name, or to all of them.\<close>

definition clip_send_text :: "string option \<Rightarrow> string \<Rightarrow> daemon \<Rightarrow> nat \<times> daemon" where
  "clip_send_text dst t d =
    (let msg = Clipboard 0 (dm_own d) [clip_text t] in
     case dst of
       Some name \<Rightarrow>
         (case resolve_peer (dm_reg d) name of
            Some pid \<Rightarrow>
              (case send_to pid msg (dm_bus d) of
                 (ok, b) \<Rightarrow> (if ok then 1 else 0, d\<lparr>dm_bus := b\<rparr>))
          | None \<Rightarrow> (0, d))
     | None \<Rightarrow>
         let b = broadcast msg None (dm_bus d)
         in (length (connected_ids b), d\<lparr>dm_bus := b\<rparr>))"

definition NO_CLIPBOARD :: string where
  "NO_CLIPBOARD = ''clipboard unavailable on this host''"

definition auth_error_text :: "authorize_error \<Rightarrow> string" where
  "auth_error_text e = (case e of ExchangeError t \<Rightarrow> t | RecordError _ \<Rightarrow> ''recording the authorization failed'')"

text \<open>\<open>{name:?}\<close>, for names without characters that need escaping.\<close>

definition quoted :: "string \<Rightarrow> string" where
  "quoted s = [CHR 0x22] @ s @ [CHR 0x22]"

text \<open>The result also lists what was streamed to whom as a blob.\<close>

fun dispatch ::
  "(bytes \<Rightarrow> bytes) \<Rightarrow> ctl_env \<Rightarrow> request \<Rightarrow> daemon \<Rightarrow> response \<times> (string \<times> message list) list \<times> daemon" where
  "dispatch sha env ClipPause d =
     (let d = d\<lparr>dm_sync := set_clipboard_paused True (dm_sync d)\<rparr> in (RStatus (status_json env d), [], d))"
| "dispatch sha env ClipResume d =
     (let d = d\<lparr>dm_sync := set_clipboard_paused False (dm_sync d)\<rparr> in (RStatus (status_json env d), [], d))"
| "dispatch sha env ClipStatus d = (RStatus (status_json env d), [], d)"
| "dispatch sha env Status d = (RStatus (status_json env d), [], d)"
| "dispatch sha env (Send paths dst) d =
     (case send sha (dm_reg d) (ce_attempts env) paths dst ((dm_fx d)\<lparr>fx_bus := dm_bus d\<rparr>) of
        (outcomes, fx) \<Rightarrow>
          (RSent (outcomes \<noteq> [] \<and> list_all so_ok outcomes) outcomes, [],
           d\<lparr>dm_fx := fx, dm_bus := fx_bus fx\<rparr>))"
| "dispatch sha env (Open url dst) d =
     (case weblink_dispatch (dm_reg d) url dst (dm_bus d) of
        (Inr n, b) \<Rightarrow> (RDispatched n, [], d\<lparr>dm_bus := b\<rparr>)
      | (Inl e, b) \<Rightarrow> (RError e, [], d\<lparr>dm_bus := b\<rparr>))"
| "dispatch sha env ClipGet d =
     (case dm_clip d of
        None \<Rightarrow> (RError NO_CLIPBOARD, [], d)
      | Some _ \<Rightarrow> (RText (ce_text env), [], to_clipboard GetText d))"
| "dispatch sha env (ClipSet text) d =
     (case dm_clip d of
        None \<Rightarrow> (RError NO_CLIPBOARD, [], d)
      | Some _ \<Rightarrow> (ROk, [], to_clipboard (ApplyText text) d))"
| "dispatch sha env ClipHistory d = (REntries (history_list (dm_reg d) (sy_history (dm_sync d))), [], d)"
| "dispatch sha env (ClipRestore index) d =
     (case (history_get index (sy_history (dm_sync d)), dm_clip d) of
        (Some (RestoredText t), Some _) \<Rightarrow> (ROk, [], to_clipboard (ApplyText t) d)
      | (Some (RestoredImage b), Some _) \<Rightarrow> (ROk, [], to_clipboard (ApplyImage b) d)
      | (None, _) \<Rightarrow> (RError ''no such history entry'', [], d)
      | (_, None) \<Rightarrow> (RError NO_CLIPBOARD, [], d))"
| "dispatch sha env (ClipSend index dst) d =
     (case history_get index (sy_history (dm_sync d)) of
        None \<Rightarrow> (RError ''no such history entry'', [], d)
      | Some (RestoredText t) \<Rightarrow>
          (case clip_send_text dst t d of (n, d) \<Rightarrow> (RSentTo (n > 0) n, [], d))
      | Some (RestoredImage b) \<Rightarrow>
          (case send_clip_image sha (ce_image env) b ((dm_fx d)\<lparr>fx_bus := dm_bus d\<rparr>) of
             (streams, fx) \<Rightarrow> (ROk, streams, d\<lparr>dm_fx := fx, dm_bus := fx_bus fx\<rparr>)))"
| "dispatch sha env (ReqAuth name mutual) d =
     (case resolve_peer (dm_reg d) name of
        None \<Rightarrow> (RError (''no paired peer matching '' @ quoted name), [], d)
      | Some pid \<Rightarrow>
          (case authorize (ce_auth env) (ce_reply env) pid mutual
                  ((dm_auth d)\<lparr>au_bus := dm_bus d, au_reg := dm_reg d\<rparr>) of
             (Inr host, au) \<Rightarrow> (RHost host, [], d\<lparr>dm_auth := au, dm_bus := au_bus au, dm_reg := au_reg au\<rparr>)
           | (Inl e, au) \<Rightarrow> (RError (auth_error_text e), [],
                d\<lparr>dm_auth := au, dm_bus := au_bus au, dm_reg := au_reg au\<rparr>)))"

section \<open>Lemmas\<close>

lemma send_to_chans:
  "c' \<noteq> c \<Longrightarrow> sender b d = Some c \<Longrightarrow> chans (snd (send_to d m b)) c' = chans b c'"
  by (auto simp: send_to_def try_send_def)

lemma send_to_links [simp]: "links (snd (send_to d m b)) = links b"
  by (auto simp: send_to_def split: option.splits prod.splits)

lemma send_to_True:
  "send_to d m b = (True, b') \<Longrightarrow> \<exists>c. sender b d = Some c \<and> queue (chans b' c) = queue (chans b c) @ [m]"
  by (auto simp: send_to_def try_send_def split: option.splits if_splits)

lemma image_streams:
  "map fst (fst (send_clip_image_to sha w png ds fx)) = filter (\<lambda>d. sender (fx_bus fx) d \<noteq> None) ds"
proof (induction ds arbitrary: fx)
  case (Cons d ds)
  show ?case using Cons by (cases "sender (fx_bus fx) d") (simp_all add: Let_def case_prod_beta)
qed simp

lemma connected_iff: "d \<in> set (connected_ids b) \<longleftrightarrow> sender b d \<noteq> None"
  by (simp add: connected_ids_def sender_def map_of_eq_None_iff)

lemma connected_senders: "filter (\<lambda>d. sender b d \<noteq> None) (connected_ids b) = connected_ids b"
  by (rule filter_True) (simp add: connected_iff)

section \<open>Properties\<close>

text \<open>
  A text from the history sent to a named peer reaches that peer only: no other
  connection's queue changes, nothing is streamed, and the answer is positive exactly when
  the message was queued for that peer.
\<close>

theorem targeted_text_reaches_only_its_peer:
  assumes "history_get i (sy_history (dm_sync d)) = Some (RestoredText t)"
    and "resolve_peer (dm_reg d) name = Some pid" "sender (dm_bus d) pid = Some c"
    and "dispatch sha env (ClipSend i (Some name)) d = (r, streams, d')"
  shows "(\<forall>c'. c' \<noteq> c \<longrightarrow> chans (dm_bus d') c' = chans (dm_bus d) c') \<and> streams = []
    \<and> links (dm_bus d') = links (dm_bus d)
    \<and> (r = RSentTo True 1 \<longleftrightarrow>
         queue (chans (dm_bus d') c) = queue (chans (dm_bus d) c) @ [Clipboard 0 (dm_own d) [clip_text t]])"
proof -
  obtain ok b where s: "send_to pid (Clipboard 0 (dm_own d) [clip_text t]) (dm_bus d) = (ok, b)" by fastforce
  have d': "d' = d\<lparr>dm_bus := b\<rparr>" "streams = []" "r = RSentTo ok (if ok then 1 else 0)"
    using assms s by (auto simp: clip_send_text_def)
  have "ok \<longleftrightarrow> queue (chans b c) = queue (chans (dm_bus d) c) @ [Clipboard 0 (dm_own d) [clip_text t]]"
    using s assms(3) by (auto simp: send_to_def try_send_def split: if_splits)
  moreover have "c' \<noteq> c \<Longrightarrow> chans b c' = chans (dm_bus d) c'" for c'
    using send_to_chans[of c' c "dm_bus d" pid] assms(3) s by (metis snd_conv)
  moreover have "links b = links (dm_bus d)" using send_to_links s by (metis snd_conv)
  ultimately show ?thesis by (auto simp: d')
qed

text \<open>
  An image from the history ignores the peer it is addressed to: the request behaves as
  if no peer had been named, and the image is streamed to every connected peer.
\<close>

theorem targeted_image_goes_to_everyone:
  assumes "history_get i (sy_history (dm_sync d)) = Some (RestoredImage b)"
  shows "dispatch sha env (ClipSend i (Some name)) d = dispatch sha env (ClipSend i None) d
    \<and> map fst (fst (snd (dispatch sha env (ClipSend i (Some name)) d))) = connected_ids (dm_bus d)"
  using assms image_streams[of sha "ce_image env" b "connected_ids (dm_bus d)" "(dm_fx d)\<lparr>fx_bus := dm_bus d\<rparr>"]
  by (simp add: send_clip_image_def connected_senders[simplified] case_prod_beta)

text \<open>
  The status lists every paired device once, and shows it as online exactly when the bus
  has a connection for it.
\<close>

theorem status_shows_the_bus:
  assumes "dm_reg d = Inr ps" "dispatch sha env Status d = (RStatus st, streams, d')"
  shows "map row_id (st_rows st) = map peer_id ps \<and> map row_name (st_rows st) = map peer_name ps
    \<and> list_all (\<lambda>r. row_online r \<longleftrightarrow> sender (dm_bus d) (row_id r) \<noteq> None) (st_rows st)
    \<and> d' = d"
  using assms
  by (auto simp: status_json_def Let_def list_all_iff connected_iff comp_def)

definition ct_bus :: bus where
  "ct_bus = \<lparr>links = [(''id-a'', 0), (''id-b'', 1)], chans = (\<lambda>_. \<lparr>queue = [], cap = 64, closed = False\<rparr>)\<rparr>"

definition ct_history :: "restored \<Rightarrow> history" where
  "ct_history r = ex_hist\<lparr>h_entries := [\<lparr>e_body = (case r of RestoredText t \<Rightarrow> TextBody t | RestoredImage _ \<Rightarrow> ImageBody ''0.png'' 1 1),
      e_when = 0, e_origin = ''local'', e_hash = []\<rparr>],
    h_files := (case r of RestoredText _ \<Rightarrow> Map.empty | RestoredImage b \<Rightarrow> [''0.png'' \<mapsto> b])\<rparr>"

definition ct_daemon :: "restored \<Rightarrow> daemon" where
  "ct_daemon r = \<lparr>dm_own = ''own'', dm_port = 1, dm_policy = Never, dm_bus = ct_bus,
     dm_reg = Inr [peer_new (\<lambda>_. []) ''a'' ''id-a'' [], peer_new (\<lambda>_. []) ''b'' ''id-b'' []],
     dm_sync = sync_new (config_default None None) ''own'' ct_bus (ct_history r) True 0,
     dm_fx = filexfer_new (config_default None None) ct_bus ''/dl'' True fs_empty,
     dm_auth = ex_auth [], dm_clip = Some [], dm_clip_rx = [], dm_launched = [], dm_shown = [], dm_streamed = []\<rparr>"

definition ct_env :: ctl_env where
  "ct_env = \<lparr>ce_state = StateAbsent, ce_attempts = (\<lambda>_ _ _. \<lparr>at_bus = ct_bus, at_stat = Inl [], at_open = (\<lambda>_. Inl []),
      at_room = None, at_ack = AckTimeout, at_bus_later = ct_bus\<rparr>), ce_image = (\<lambda>_. (None, AckTimeout)),
     ce_auth = \<lparr>ae_local = ex_info, ae_save_ok = True\<rparr>, ce_reply = ReplyTimeout, ce_text = None\<rparr>"

theorem targeted_text_reaches_only_its_peer_witness:
  "queue (chans (dm_bus (snd (snd (dispatch (\<lambda>b. b) ct_env (ClipSend 0 (Some ''a'')) (ct_daemon (RestoredText ''hi'')))))) 1) = []"
proof -
  let ?d = "ct_daemon (RestoredText ''hi'')"
  obtain r streams d' where r: "dispatch (\<lambda>b. b) ct_env (ClipSend 0 (Some ''a'')) ?d = (r, streams, d')" by (metis prod_cases3)
  have h: "history_get 0 (sy_history (dm_sync ?d)) = Some (RestoredText ''hi'')"
    by (simp add: ct_daemon_def sync_new_def ct_history_def history_get_def)
  have p: "resolve_peer (dm_reg ?d) ''a'' = Some ''id-a''" by (simp add: ct_daemon_def resolve_peer_def find_peer_def peer_new_def)
  have c: "sender (dm_bus ?d) ''id-a'' = Some 0" by (simp add: ct_daemon_def ct_bus_def sender_def)
  from targeted_text_reaches_only_its_peer[OF h p c r] show ?thesis
    by (simp add: r del: dispatch.simps) (simp add: ct_daemon_def ct_bus_def)
qed

theorem targeted_image_goes_to_everyone_witness:
  "map fst (fst (snd (dispatch (\<lambda>b. b) ct_env (ClipSend 0 (Some ''a'')) (ct_daemon (RestoredImage [1]))))) = [''id-a'', ''id-b'']"
proof -
  let ?d = "ct_daemon (RestoredImage [1])"
  have h: "history_get 0 (sy_history (dm_sync ?d)) = Some (RestoredImage [1])"
    by (simp add: ct_daemon_def sync_new_def ct_history_def history_get_def)
  show ?thesis
    unfolding targeted_image_goes_to_everyone[OF h, THEN conjunct2] by (simp add: ct_daemon_def ct_bus_def connected_ids_def)
qed

theorem status_shows_the_bus_witness:
  "dispatch (\<lambda>b. b) ct_env Status (ct_daemon (RestoredText [])) =
     (RStatus (status_json ct_env (ct_daemon (RestoredText []))), [], ct_daemon (RestoredText []))
   \<and> map row_id (st_rows (status_json ct_env (ct_daemon (RestoredText [])))) = [''id-a'', ''id-b'']"
proof -
  let ?d = "ct_daemon (RestoredText [])"
  have "dm_reg ?d = Inr [peer_new (\<lambda>_. []) ''a'' ''id-a'' [], peer_new (\<lambda>_. []) ''b'' ''id-b'' []]" by (simp add: ct_daemon_def)
  from status_shows_the_bus[OF this, of "\<lambda>b. b" ct_env "status_json ct_env ?d" "[]" ?d] show ?thesis
    by (simp add: peer_new_def)
qed

end
