(* ===== verification/Daemon.thy ===== *)
theory Daemon
  imports Control
begin

text \<open>
  \<open>crates/qdropd/src/main.rs\<close>: the router of inbound frames, the tasks that pass them on,
  the polling of the two configuration files and the addresses remembered from the last
  run. The daemon as a whole is the record of \<open>Control\<close>; a step is one thing one of its
  tasks does.
\<close>

section \<open>Routing\<close>

text \<open>The answers of the system while a frame is handled.\<close>

record route_env =
  re_fx :: env
  re_auth :: auth_env
  re_spawn_ok :: bool

definition open_link :: "bool \<Rightarrow> string \<Rightarrow> string \<Rightarrow> daemon \<Rightarrow> daemon" where
  "open_link spawn_ok pid url d =
    (let eff = weblink_handle_inbound (dm_reg d) spawn_ok pid url (dm_policy d)
     in d\<lparr>dm_launched := dm_launched d @ launched eff, dm_shown := dm_shown d @ shown eff\<rparr>)"

definition to_fx :: "(bytes \<Rightarrow> bytes) \<Rightarrow> route_env \<Rightarrow> string \<Rightarrow> message \<Rightarrow> daemon \<Rightarrow> daemon" where
  "to_fx sha env pid msg d = on_fx (handle_inbound sha ((re_fx env)\<lparr>e_reg := dm_reg d\<rparr>) pid msg) d"

definition to_auth :: "route_env \<Rightarrow> string \<Rightarrow> message \<Rightarrow> daemon \<Rightarrow> daemon" where
  "to_auth env pid msg d = on_auth (auth_handle_inbound (re_auth env) pid msg) d"

fun route :: "(bytes \<Rightarrow> bytes) \<Rightarrow> route_env \<Rightarrow> string \<Rightarrow> message \<Rightarrow> daemon \<Rightarrow> daemon" where
  "route sha env pid (Clipboard n origin es) d = d\<lparr>dm_clip_rx := dm_clip_rx d @ [(pid, Clipboard n origin es)]\<rparr>"
| "route sha env pid (BlobStart bid name sz purpose) d = to_fx sha env pid (BlobStart bid name sz purpose) d"
| "route sha env pid (BlobChunk bid data) d = to_fx sha env pid (BlobChunk bid data) d"
| "route sha env pid (BlobEnd bid digest) d = to_fx sha env pid (BlobEnd bid digest) d"
| "route sha env pid (BlobAck bid ok detail) d = to_fx sha env pid (BlobAck bid ok detail) d"
| "route sha env pid (OpenUrl url) d = open_link (re_spawn_ok env) pid url d"
| "route sha env pid (AuthRequest mutual info) d = to_auth env pid (AuthRequest mutual info) d"
| "route sha env pid (AuthReply granted info) d = to_auth env pid (AuthReply granted info) d"
| "route sha env pid _ d = d"

text \<open>The tasks behind the router: the sync loop and the applier of blob images.\<close>

definition take_clip :: "(bytes \<Rightarrow> bytes) \<Rightarrow> hist_env \<Rightarrow> daemon \<Rightarrow> daemon" where
  "take_clip sha ev d =
    (case dm_clip_rx d of
       [] \<Rightarrow> d
     | (pid, msg) # rest \<Rightarrow> on_sync (sync_remote sha ev pid msg) (d\<lparr>dm_clip_rx := rest\<rparr>))"

definition take_image :: "daemon \<Rightarrow> daemon" where
  "take_image d =
    (case clip_sink (dm_fx d) of
       Some (png # rest) \<Rightarrow> on_sync (sync_blob png) (d\<lparr>dm_fx := (dm_fx d)\<lparr>clip_sink := Some rest\<rparr>\<rparr>)
     | _ \<Rightarrow> d)"

text \<open>
  A local change in the sync loop: an image over the inline limit is streamed to every peer
  before the loop goes on.
\<close>

definition stream_image :: "(bytes \<Rightarrow> bytes) \<Rightarrow> (string \<Rightarrow> nat option \<times> ack) \<Rightarrow> daemon \<Rightarrow> bytes \<Rightarrow> daemon" where
  "stream_image sha w d png =
    (case send_clip_image sha w png ((dm_fx d)\<lparr>fx_bus := dm_bus d\<rparr>) of
       (streams, fx) \<Rightarrow> d\<lparr>dm_fx := fx, dm_bus := fx_bus fx, dm_streamed := dm_streamed d @ streams\<rparr>)"

definition local_copy ::
  "(bytes \<Rightarrow> bytes) \<Rightarrow> (string \<Rightarrow> nat option \<times> ack) \<Rightarrow> hist_env \<Rightarrow> nat \<Rightarrow> local_clip \<Rightarrow> daemon \<Rightarrow> daemon" where
  "local_copy sha w ev now c d =
    (let d = on_sync (sync_local sha ev now c) d;
         pngs = sy_blobs (dm_sync d)
     in foldl (stream_image sha w) (d\<lparr>dm_sync := (dm_sync d)\<lparr>sy_blobs := []\<rparr>\<rparr>) pngs)"

datatype daemon_event =
    Inbound route_env string message
  | TakeClip hist_env
  | TakeImage
  | LocalCopy "string \<Rightarrow> nat option \<times> ack" hist_env nat local_clip
  | CtlRequest ctl_env request
  | PeerOnline auth_env auth_reply string

definition daemon_step :: "(bytes \<Rightarrow> bytes) \<Rightarrow> daemon \<Rightarrow> daemon_event \<Rightarrow> daemon" where
  "daemon_step sha d e =
    (case e of
       Inbound env pid msg \<Rightarrow> route sha env pid msg d
     | TakeClip ev \<Rightarrow> take_clip sha ev d
     | TakeImage \<Rightarrow> take_image d
     | LocalCopy w ev now c \<Rightarrow> local_copy sha w ev now c d
     | CtlRequest env req \<Rightarrow>
         (case dispatch sha env req d of (resp, streams, d) \<Rightarrow> d\<lparr>dm_streamed := dm_streamed d @ streams\<rparr>)
     | PeerOnline env reply pid \<Rightarrow> on_auth (refresh env reply pid) d)"

section \<open>Reloading\<close>

text \<open>
  One tick of the roster poller: the modification time, and what loading would give. The
  last component says that the manager is told.
\<close>

definition roster_reload ::
  "(string \<Rightarrow> bytes option) \<Rightarrow> (string \<Rightarrow> socket_addr list option) \<Rightarrow> nat option \<Rightarrow> (load_error, peers) res
     \<Rightarrow> nat option \<times> roster \<Rightarrow> (nat option \<times> roster) \<times> bool" where
  "roster_reload unb64 resolve now file st =
    (case st of (prev, r) \<Rightarrow>
      if now \<noteq> prev
      then (case file of
              Inr ps \<Rightarrow> ((now, roster_load unb64 resolve r ps), True)
            | Inl _ \<Rightarrow> ((now, r), False))
      else ((prev, r), False))"

definition config_reload ::
  "nat option \<Rightarrow> (load_error, config) res \<Rightarrow> nat option \<times> daemon \<Rightarrow> nat option \<times> daemon" where
  "config_reload now file st =
    (case st of (prev, d) \<Rightarrow>
      if now \<noteq> prev
      then (now, case file of Inr cfg \<Rightarrow> d\<lparr>dm_sync := set_sync_images (sync_images cfg) (dm_sync d)\<rparr> | Inl _ \<Rightarrow> d)
      else (prev, d))"

text \<open>The peers found at startup: the last address of every paired device, if it parses.\<close>

definition cached_peers :: "state_file_read \<Rightarrow> peers \<Rightarrow> discovered_peer list" where
  "cached_peers file ps =
    (let cached = (case state_load file of Inr st \<Rightarrow> st | Inl _ \<Rightarrow> daemon_state_default)
     in List.map_filter (\<lambda>p. case Option.bind (last_addr cached (peer_id p)) parse_sockaddr of
          Some addr \<Rightarrow> Some \<lparr>dp_id = peer_id p, dp_name = peer_name p, dp_fingerprint = public_key p, dp_addrs = [addr]\<rparr>
        | None \<Rightarrow> None) ps)"

text \<open>\<open>try_send\<close> into a channel of 64: what does not fit is dropped.\<close>

definition seeded :: "state_file_read \<Rightarrow> peers \<Rightarrow> discovered_peer list" where
  "seeded file ps = take 64 (cached_peers file ps)"

section \<open>Starting up\<close>

text \<open>
  \<open>real\_main\<close>: the command line, what loading the files and setting up the services gives
  (logging and the runtime aside), and the parts of the system the components start from.
\<close>

record startup =
  su_port :: "u16 option"
  su_check :: bool
  su_config :: "(string, config) res"
  su_device :: "(string, string) res"
  su_identity :: "(string, unit) res"
  su_reg :: "(load_error, peers) res"
  su_tls :: "(string, unit) res"
  su_bind :: "u16 \<Rightarrow> (string, u16) res"
  su_discovery :: "(string, unit) res"
  su_downloads :: "(string, string) res"
  su_index :: "entry list option"
  su_pngs :: "string \<Rightarrow> bytes option"
  su_board :: bool
  su_now :: nat
  su_fs :: fs

datatype start_error =
    StartFile string
  | StartPeers load_error
  | StartTls string
  | StartBind string
  | StartDiscovery string

definition auth_new :: "bus \<Rightarrow> (load_error, peers) res \<Rightarrow> auth_mgr" where
  "auth_new b reg = \<lparr>au_bus = b, au_pending = (\<lambda>_. None), au_woken = [], au_reg = reg, au_posted = []\<rparr>"

text \<open>The daemon once its tasks run.\<close>

definition daemon_new :: "startup \<Rightarrow> config \<Rightarrow> string \<Rightarrow> u16 \<Rightarrow> daemon" where
  "daemon_new su cfg own bound =
    (let dir = (case su_downloads su of Inr d \<Rightarrow> d | Inl _ \<Rightarrow> ''qdrop-downloads'');
         h = history_load (clipboard_history cfg) (su_index su) (su_pngs su)
     in \<lparr>dm_own = own, dm_port = bound, dm_policy = require_confirm cfg, dm_bus = bus_new, dm_reg = su_reg su,
         dm_sync = sync_new cfg own bus_new h (su_board su) (su_now su),
         dm_fx = filexfer_new cfg bus_new dir True (su_fs su), dm_auth = auth_new bus_new (su_reg su),
         dm_clip = (if sync_clipboard cfg \<and> su_board su then Some [] else None),
         dm_clip_rx = [], dm_launched = [], dm_shown = [], dm_streamed = []\<rparr>)"

text \<open>\<open>Inr None\<close> is a successful \<open>--check\<close>.\<close>

definition daemon_start :: "startup \<Rightarrow> (start_error, daemon option) res" where
  "daemon_start su =
    (case su_config su of
       Inl e \<Rightarrow> Inl (StartFile e)
     | Inr cfg \<Rightarrow> (case su_device su of
       Inl e \<Rightarrow> Inl (StartFile e)
     | Inr own \<Rightarrow> (case su_identity su of
       Inl e \<Rightarrow> Inl (StartFile e)
     | Inr _ \<Rightarrow> (case su_reg su of
       Inl e \<Rightarrow> Inl (StartPeers e)
     | Inr ps \<Rightarrow>
         if su_check su then Inr None
         else (case su_tls su of
       Inl e \<Rightarrow> Inl (StartTls e)
     | Inr _ \<Rightarrow> (case su_bind su (case su_port su of Some p \<Rightarrow> p | None \<Rightarrow> port cfg) of
       Inl e \<Rightarrow> Inl (StartBind e)
     | Inr bound \<Rightarrow> (case su_discovery su of
       Inl e \<Rightarrow> Inl (StartDiscovery e)
     | Inr _ \<Rightarrow> Inr (Some (daemon_new su cfg own bound)))))))))"

section \<open>The invariant of the daemon\<close>

definition daemon_inv :: "string \<Rightarrow> fs \<Rightarrow> nat \<Rightarrow> (load_error, (string \<times> string \<times> string \<times> string option) list) res
     \<Rightarrow> (string \<Rightarrow> bytes option) \<Rightarrow> daemon \<Rightarrow> bool" where
  "daemon_inv dir f0 m pinned0 pngs0 d \<longleftrightarrow>
     fx_inv dir f0 (dm_fx d) \<and> pinned_of (dm_reg d) = pinned0
     \<and> ring_ok m (sy_history (dm_sync d)) \<and> only_numbered pngs0 (sy_history (dm_sync d)) \<and> list_all is_allowed_url (dm_launched d)"

lemma launched_allowed: "list_all is_allowed_url (launched (weblink_handle_inbound reg ok pid url policy))"
  by (simp add: weblink_handle_inbound_def)

lemma to_fx_inv: "daemon_inv dir f0 m p0 fl d \<Longrightarrow> daemon_inv dir f0 m p0 fl (to_fx sha env pid msg d)"
  using fxs.step_keeps[where s = "(dm_fx d)\<lparr>fx_bus := dm_bus d\<rparr>" and e = "((re_fx env)\<lparr>e_reg := dm_reg d\<rparr>, pid, msg)"]
  by (simp add: daemon_inv_def to_fx_def on_fx_def Let_def fx_step_def)

lemma to_auth_inv: "daemon_inv dir f0 m p0 fl d \<Longrightarrow> daemon_inv dir f0 m p0 fl (to_auth env pid msg d)"
  by (simp add: daemon_inv_def to_auth_def on_auth_def Let_def inbound_pinned)

lemma open_link_inv: "daemon_inv dir f0 m p0 fl d \<Longrightarrow> daemon_inv dir f0 m p0 fl (open_link ok pid url d)"
  by (simp add: daemon_inv_def open_link_def Let_def launched_allowed)

lemma route_inv [step_inv]: "daemon_inv dir f0 m p0 fl d \<Longrightarrow> daemon_inv dir f0 m p0 fl (route sha env pid msg d)"
  by (cases msg) (simp_all add: to_fx_inv to_auth_inv open_link_inv, simp_all add: daemon_inv_def)

lemma record_ring:
  "ring_ok m h \<Longrightarrow> ring_ok m (record_text sha ev t origin h)"
  "ring_ok m h \<Longrightarrow> ring_ok m (record_image sha ev png origin h)"
  using hist_step_ring[of m h sha "(ev, RecText t origin)"] hist_step_ring[of m h sha "(ev, RecImage png origin)"]
  by (simp_all add: hist_step_def)

lemma sync_ring [step_inv]:
  "ring_ok m (sy_history st) \<Longrightarrow> ring_ok m (sy_history (sync_local sha ev now c st))"
  "ring_ok m (sy_history st) \<Longrightarrow> ring_ok m (sy_history (sync_remote sha ev pid msg st))"
  "ring_ok m (sy_history st) \<Longrightarrow> ring_ok m (sy_history (sync_blob png st))"
proof -
  show "ring_ok m (sy_history st) \<Longrightarrow> ring_ok m (sy_history (sync_local sha ev now c st))"
    by (auto simp: sync_local_def Let_def record_ring split: local_clip.splits)
  show "ring_ok m (sy_history st) \<Longrightarrow> ring_ok m (sy_history (sync_remote sha ev pid msg st))"
    by (cases msg) (auto simp: Let_def record_ring split: option.splits)
qed (simp add: sync_blob_def)

lemma sync_numbered [step_inv]:
  "only_numbered fl (sy_history st) \<Longrightarrow> only_numbered fl (sy_history (sync_local sha ev now c st))"
  "only_numbered fl (sy_history st) \<Longrightarrow> only_numbered fl (sy_history (sync_remote sha ev pid msg st))"
  "only_numbered fl (sy_history st) \<Longrightarrow> only_numbered fl (sy_history (sync_blob png st))"
proof -
  show "only_numbered fl (sy_history st) \<Longrightarrow> only_numbered fl (sy_history (sync_local sha ev now c st))"
    by (auto simp: sync_local_def Let_def record_numbered split: local_clip.splits)
  show "only_numbered fl (sy_history st) \<Longrightarrow> only_numbered fl (sy_history (sync_remote sha ev pid msg st))"
    by (cases msg) (auto simp: Let_def record_numbered split: option.splits)
qed (simp add: sync_blob_def)

lemmas sync_invs = sync_ring sync_numbered

text \<open>Sending touches no file and no incoming transfer.\<close>

lemma fx_inv_same:
  "fx_fs fx' = fx_fs fx \<Longrightarrow> fx_incoming fx' = fx_incoming fx \<Longrightarrow> download_dir fx' = download_dir fx \<Longrightarrow>
     fx_inv dir f0 fx' = fx_inv dir f0 fx"
  by (simp add: fx_inv_def)

lemma send_one_same [simp]:
  "fx_fs (snd (snd (send_one sha a peer path fx))) = fx_fs fx"
  "fx_incoming (snd (snd (send_one sha a peer path fx))) = fx_incoming fx"
  "download_dir (snd (snd (send_one sha a peer path fx))) = download_dir fx"
  by (simp_all add: send_one_def Let_def case_prod_beta split: option.splits sum.splits)

lemma send_attempts_inv:
  "fx_inv dir f0 (snd (snd (send_attempts sha as peer path e fx))) = fx_inv dir f0 fx"
proof (induction as arbitrary: e fx)
  case (Cons a as)
  obtain r ms fx' where one: "send_one sha a peer path fx = (r, ms, fx')" by (metis prod_cases3)
  have "fx_inv dir f0 fx' = fx_inv dir f0 fx"
    using send_one_same[of sha a peer path fx] by (intro fx_inv_same) (simp_all add: one)
  with Cons show ?case by (cases r) (simp_all add: one case_prod_beta)
qed simp

lemma send_paths_inv: "fx_inv dir f0 (snd (send_paths sha reg at peer ps fx)) = fx_inv dir f0 fx"
proof (induction ps arbitrary: fx)
  case (Cons p ps)
  have "fx_inv dir f0 (snd (snd (send_one_with_retry sha reg (at peer p) peer p fx))) = fx_inv dir f0 fx"
    using send_attempts_inv[of dir f0 sha "map (at peer p) [1..<Suc SEND_ATTEMPTS]" peer p "[]" fx]
    by (simp add: send_one_with_retry_def Let_def case_prod_beta del: upt_Suc split: prod.splits sum.splits)
  with Cons show ?case by (simp add: case_prod_beta)
qed simp

lemma send_inv: "fx_inv dir f0 (snd (send sha reg at paths dst fx)) = fx_inv dir f0 fx"
proof -
  have "fx_inv dir f0 (snd (send_peers sha reg at ds paths fx)) = fx_inv dir f0 fx" for ds
    by (induction ds arbitrary: fx) (simp_all add: case_prod_beta send_paths_inv)
  then show ?thesis by (simp add: send_def split: sum.splits)
qed

lemma send_clip_image_inv: "fx_inv dir f0 (snd (send_clip_image sha w png fx)) = fx_inv dir f0 fx"
proof -
  have "fx_inv dir f0 (snd (send_clip_image_to sha w png ds fx)) = fx_inv dir f0 fx" for ds
  proof (induction ds arbitrary: fx)
    case (Cons d ds)
    have "fx_inv dir f0 (fx\<lparr>next_id := n, acks := a\<rparr>) = fx_inv dir f0 fx" for n a
      by (rule fx_inv_same) simp_all
    with Cons show ?case by (simp add: Let_def case_prod_beta split: option.splits)
  qed simp
  then show ?thesis by (simp add: send_clip_image_def)
qed

lemma exchange_regD: "exchange ev reply pid mutual st = (r, st') \<Longrightarrow> au_reg st' = au_reg st"
  by (metis exchange_reg snd_conv)

lemma store_auth_pinnedD: "store_auth ev pid info st = (r, st') \<Longrightarrow> pinned_of (au_reg st') = pinned_of (au_reg st)"
  by (metis store_auth_pinned snd_conv)

lemma authorize_pinned: "authorize ev reply pid mutual st = (r, st') \<Longrightarrow> pinned_of (au_reg st') = pinned_of (au_reg st)"
  by (auto simp: authorize_def split: prod.splits sum.splits if_splits dest!: exchange_regD store_auth_pinnedD)

lemma dispatch_inv [step_inv]:
  assumes "daemon_inv dir f0 m p0 fl d"
  shows "daemon_inv dir f0 m p0 fl (snd (snd (dispatch sha env req d)))"
proof (cases req)
  case (Send paths dst)
  then show ?thesis
    using assms send_inv[of dir f0 sha "dm_reg d" "ce_attempts env" paths dst "(dm_fx d)\<lparr>fx_bus := dm_bus d\<rparr>"]
    by (simp add: daemon_inv_def case_prod_beta)
next
  case (ClipSend n dst)
  then show ?thesis
    using assms send_clip_image_inv[of dir f0 sha "ce_image env" _ "(dm_fx d)\<lparr>fx_bus := dm_bus d\<rparr>"]
    by (auto simp: daemon_inv_def clip_send_text_def Let_def case_prod_beta split: option.splits restored.splits)
next
  case (ReqAuth name mutual)
  then show ?thesis
    using assms by (auto simp: daemon_inv_def split: option.splits prod.splits sum.splits dest: authorize_pinned)
qed (use assms in \<open>auto simp: daemon_inv_def Let_def to_clipboard_def set_clipboard_paused_def case_prod_beta
       split: option.splits restored.splits prod.splits sum.splits\<close>)

lemma refresh_pinned: "pinned_of (au_reg (refresh ev reply pid st)) = pinned_of (au_reg st)"
  by (auto simp: refresh_def store_auth_pinned Let_def split: prod.splits sum.splits option.splits dest!: exchange_regD)

lemma streamed_inv [simp]: "daemon_inv dir f0 m p0 fl (d\<lparr>dm_streamed := x\<rparr>) = daemon_inv dir f0 m p0 fl d"
  by (simp add: daemon_inv_def)

lemma stream_image_inv: "daemon_inv dir f0 m p0 fl d \<Longrightarrow> daemon_inv dir f0 m p0 fl (stream_image sha w d png)"
  using send_clip_image_inv[of dir f0 sha w png "(dm_fx d)\<lparr>fx_bus := dm_bus d\<rparr>"]
  by (simp add: daemon_inv_def stream_image_def case_prod_beta)

lemma local_copy_inv: "daemon_inv dir f0 m p0 fl d \<Longrightarrow> daemon_inv dir f0 m p0 fl (local_copy sha w ev now c d)"
proof -
  assume "daemon_inv dir f0 m p0 fl d"
  then have "daemon_inv dir f0 m p0 fl ((on_sync (sync_local sha ev now c) d)\<lparr>dm_sync := (dm_sync (on_sync (sync_local sha ev now c) d))\<lparr>sy_blobs := []\<rparr>\<rparr>)"
    by (simp add: on_sync_def Let_def daemon_inv_def sync_invs)
  then have "daemon_inv dir f0 m p0 fl (foldl (stream_image sha w)
      ((on_sync (sync_local sha ev now c) d)\<lparr>dm_sync := (dm_sync (on_sync (sync_local sha ev now c) d))\<lparr>sy_blobs := []\<rparr>\<rparr>) pngs)" for pngs
    by (induction pngs rule: rev_induct) (simp_all add: stream_image_inv)
  then show ?thesis by (simp add: local_copy_def Let_def)
qed

lemma daemon_step_inv: "daemon_inv dir f0 m p0 fl d \<Longrightarrow> daemon_inv dir f0 m p0 fl (daemon_step sha d e)"
proof (cases e)
  case (Inbound env pid msg)
  then show "daemon_inv dir f0 m p0 fl d \<Longrightarrow> ?thesis" by (simp add: daemon_step_def route_inv)
next
  case (TakeClip ev)
  then show "daemon_inv dir f0 m p0 fl d \<Longrightarrow> ?thesis"
    by (auto simp: daemon_step_def take_clip_def on_sync_def Let_def daemon_inv_def sync_invs split: list.splits)
next
  case TakeImage
  then show "daemon_inv dir f0 m p0 fl d \<Longrightarrow> ?thesis"
    by (auto simp: daemon_step_def take_image_def on_sync_def Let_def daemon_inv_def sync_invs
        split: list.splits option.splits)
next
  case (LocalCopy w ev now c)
  then show "daemon_inv dir f0 m p0 fl d \<Longrightarrow> ?thesis" by (simp add: daemon_step_def local_copy_inv)
next
  case (CtlRequest env req)
  then show "daemon_inv dir f0 m p0 fl d \<Longrightarrow> ?thesis"
    using dispatch_inv[of dir f0 m p0 fl d sha env req] by (simp add: daemon_step_def case_prod_beta streamed_inv)
next
  case (PeerOnline env reply pid)
  then show "daemon_inv dir f0 m p0 fl d \<Longrightarrow> ?thesis"
    by (simp add: daemon_step_def on_auth_def Let_def daemon_inv_def refresh_pinned)
qed

interpretation dm: event_system "daemon_step sha" "daemon_inv dir f0 m p0 fl"
  for sha dir f0 m p0 fl
  by unfold_locales (rule daemon_step_inv)

text \<open>A daemon that has just started, on an index the program itself wrote.\<close>

lemma daemon_start_Some:
  "daemon_start su = Inr (Some d) \<Longrightarrow>
     \<exists>cfg own bound ps. su_config su = Inr cfg \<and> su_reg su = Inr ps \<and> d = daemon_new su cfg own bound"
  by (auto simp: daemon_start_def split: sum.splits if_splits)

lemma daemon_start_inv:
  assumes "daemon_start su = Inr (Some d)" "fs_sep (download_dir (dm_fx d)) (su_fs su)"
    and "es = (case su_index su of Some es \<Rightarrow> es | None \<Rightarrow> [])" "distinct_adj (map e_hash es)" "\<forall>f\<in>set (img_files es). png_numbered f"
  shows "daemon_inv (download_dir (dm_fx d)) (su_fs su) (h_max (sy_history (dm_sync d))) (pinned_of (su_reg su)) (su_pngs su) d"
proof -
  from daemon_start_Some[OF assms(1)] obtain cfg own bound where d: "d = daemon_new su cfg own bound" by blast
  let ?h = "history_load (clipboard_history cfg) (su_index su) (su_pngs su)"
  have e: "h_entries ?h = take (clipboard_history cfg) es" "h_files ?h = su_pngs su"
    by (simp_all add: history_load_def Let_def assms(3))
  have "distinct_adj (map e_hash (h_entries ?h))"
    using assms(4) distinct_adj_take unfolding e by (simp add: take_map[symmetric])
  have "only_numbered (su_pngs su) ?h"
    using assms(5) set_img_files_take[of "clipboard_history cfg" es] by (auto simp: only_numbered_def e)
  moreover note \<open>distinct_adj (map e_hash (h_entries ?h))\<close>
  then have "ring_ok (clipboard_history cfg) ?h" by (simp add: ring_ok_def history_load_def Let_def)
  ultimately show ?thesis using assms(2)
    by (simp add: d daemon_inv_def fx_inv_def daemon_new_def Let_def filexfer_new_def sync_new_def within_refl history_load_def)
qed

section \<open>Properties\<close>

text \<open>
  Polling the registry: after a tick that sees a new modification time and a readable
  file the roster trusts exactly the keys of that file and the manager is told; after any
  other tick nothing changes, in particular an unreadable file leaves the old roster in force.
\<close>

theorem roster_reload_follows_the_file:
  "case roster_reload unb64 resolve now file (prev, r) of ((prev', r'), told) \<Rightarrow>
     prev' = now \<and> (told \<longleftrightarrow> now \<noteq> prev \<and> (\<exists>ps. file = Inr ps))
     \<and> (if told then (\<forall>k. is_trusted_key r' k \<longleftrightarrow> (\<exists>ps. file = Inr ps \<and> (\<exists>p\<in>set ps. key_bytes unb64 p = Inr k)))
        else r' = r)"
  by (auto simp: roster_reload_def load_trusted_key split: sum.splits)

text \<open>
  A registry that cannot be read when its change is noticed is not looked at again until
  the file changes once more.
\<close>

theorem failed_reload_is_not_retried:
  "roster_reload unb64 resolve now file' (fst (roster_reload unb64 resolve now (Inl e) (prev, r))) = ((now, r), False)"
  by (simp add: roster_reload_def)

end
