(* ===== verification/Images.thy ===== *)
theory Images
  imports Daemon
begin

text \<open>
  A clipboard image over the inline limit on its way from one daemon to the other:
  \<open>sync.rs\<close> hands it to \<open>filexfer.rs\<close>, which streams it to every peer; the router of the other
  daemon feeds the transfer, which ends in memory, and a task of \<open>sync.rs\<close> puts it on the
  clipboard there.
\<close>

section \<open>Receiving into memory\<close>

definition mem_receiving :: "string \<Rightarrow> u64 \<Rightarrow> u64 \<Rightarrow> bytes \<Rightarrow> filexfer \<Rightarrow> filexfer" where
  "mem_receiving pid bid sz data fx =
     fx\<lparr>fx_incoming := AList.update (pid, bid)
          \<lparr>inc_name = ''clipboard-image'', inc_sink = SinkMemory data, inc_hasher = data,
           inc_written = of_nat (length data), inc_declared = sz, inc_peer = pid\<rparr> (fx_incoming fx)\<rparr>"

lemma start_mem:
  "length (fx_incoming fx) < MAX_CONCURRENT_INCOMING \<Longrightarrow> clip_sink fx \<noteq> None \<Longrightarrow> unat sz \<le> MAX_MEM_BLOB \<Longrightarrow>
     on_start env pid bid name sz ClipboardImage fx = mem_receiving pid bid sz [] fx"
  by (auto simp: on_start_def mem_receiving_def insert_incoming_def)

lemma chunk_mem:
  "length data + length d \<le> MAX_MEM_BLOB \<Longrightarrow>
     on_chunk env pid bid d (mem_receiving pid bid sz data fx) = mem_receiving pid bid sz (data @ d) fx"
  by (simp add: on_chunk_def mem_receiving_def Let_def update_update_same)

lemma chunks_mem:
  "length data + length (concat ds) \<le> MAX_MEM_BLOB \<Longrightarrow>
     foldl (fx_step sha) (mem_receiving pid bid sz data fx) (map (\<lambda>d. (env, pid, BlobChunk bid d)) ds)
     = mem_receiving pid bid sz (data @ concat ds) fx"
proof (induction ds arbitrary: data)
  case (Cons d ds)
  then show ?case by (simp add: fx_step_def chunk_mem)
qed simp

lemma end_mem:
  "sz = of_nat (length data) \<Longrightarrow>
     on_end sha env pid bid (sha data) (mem_receiving pid bid sz data fx)
     = accept_memory pid bid data (fx\<lparr>fx_incoming := AList.delete (pid, bid) (fx_incoming fx)\<rparr>)"
  by (simp add: on_end_def mem_receiving_def Let_def flush_sink_def delete_update_same)

text \<open>A whole image: it ends in the queue of the clipboard, and nothing touches the disk.\<close>

lemma image_received:
  assumes "length (fx_incoming fx) < MAX_CONCURRENT_INCOMING" "clip_sink fx \<noteq> None" "length png \<le> MAX_MEM_BLOB"
    and "concat ds = png"
  shows "foldl (fx_step sha) fx (map (\<lambda>m. (env, pid, m)) (blob_messages sha bid name (of_nat (length png)) ClipboardImage ds))
    = accept_memory pid bid png (fx\<lparr>fx_incoming := AList.delete (pid, bid) (fx_incoming fx)\<rparr>)"
proof -
  let ?sz = "of_nat (length png) :: u64"
  have sz: "unat ?sz \<le> MAX_MEM_BLOB" using assms(3) by (simp add: unat_of_nat MAX_MEM_BLOB_def)
  have "foldl (fx_step sha) (mem_receiving pid bid ?sz [] fx) (map (\<lambda>d. (env, pid, BlobChunk bid d)) ds)
    = mem_receiving pid bid ?sz png fx"
    using chunks_mem[of "[]" ds sha pid bid ?sz fx env] assms(3,4) by simp
  then show ?thesis
    using start_mem[OF assms(1,2) sz, of env pid bid name] end_mem[of ?sz png sha env pid bid fx] assms(4)
    by (simp add: blob_messages_def fx_step_def comp_def)
qed

section \<open>Through the router\<close>

lemma on_fx_on_fx: "on_fx f (on_fx g d) = on_fx (\<lambda>fx. f (g fx)) d"
  by (simp add: on_fx_def Let_def)

lemma on_fx_reg [simp]: "dm_reg (on_fx f d) = dm_reg d"
  by (simp add: on_fx_def Let_def)

fun blob_message :: "message \<Rightarrow> bool" where
  "blob_message (BlobStart _ _ _ _) = True"
| "blob_message (BlobChunk _ _) = True"
| "blob_message (BlobEnd _ _) = True"
| "blob_message (BlobAck _ _ _) = True"
| "blob_message _ = False"

lemma route_blob:
  "blob_message m \<Longrightarrow> route sha env pid m d = on_fx (\<lambda>fx. fx_step sha fx ((re_fx env)\<lparr>e_reg := dm_reg d\<rparr>, pid, m)) d"
  by (cases m) (simp_all add: to_fx_def fx_step_def del: handle_inbound.simps)

lemma route_blobs:
  "list_all blob_message ms \<Longrightarrow>
     foldl (daemon_step sha) d (map (Inbound env pid) ms)
     = (if ms = [] then d
        else on_fx (\<lambda>fx. foldl (fx_step sha) fx (map (\<lambda>m. ((re_fx env)\<lparr>e_reg := dm_reg d\<rparr>, pid, m)) ms)) d)"
proof (induction ms arbitrary: d)
  case (Cons m ms)
  then show ?case by (auto simp: daemon_step_def route_blob on_fx_on_fx)
qed simp

section \<open>What the sender queues\<close>

lemma clip_image_messages:
  assumes "(d, ms) \<in> set (fst (send_clip_image_to sha w png ds fx))" "fst (w d) = None"
  shows "\<exists>bid. ms = blob_messages sha bid ''clipboard.png'' (of_nat (length png)) ClipboardImage (chunks BLOB_CHUNK png)"
  using assms
proof (induction ds arbitrary: fx)
  case (Cons x ds)
  show ?case
  proof (cases "sender (fx_bus fx) x")
    case None
    with Cons show ?thesis by simp
  next
    case (Some c)
    with Cons.prems Cons.IH show ?thesis by (auto simp: Let_def case_prod_beta stream_mem_messages)
  qed
qed simp

text \<open>
  Both daemons have image sync on and are not paused. The image is new to the sender, over the
  inline limit, not rate limited; the receiver has a clipboard and room for the transfer.
  Between two events no image waits in the sync loop to be streamed.
\<close>

definition ready_to_send_image :: "(bytes \<Rightarrow> bytes) \<Rightarrow> nat \<Rightarrow> bytes \<Rightarrow> daemon \<Rightarrow> bool" where
  "ready_to_send_image sha now png a \<longleftrightarrow>
     \<not> sy_paused (dm_sync a) \<and> sy_last (dm_sync a) + min_gap \<le> now \<and> sy_images (dm_sync a)
     \<and> sy_synced (dm_sync a) \<noteq> Some (sha png) \<and> length png > CLIP_IMAGE_INLINE_MAX \<and> sy_blobs (dm_sync a) = []"

definition ready_for_image :: "bytes \<Rightarrow> daemon \<Rightarrow> bool" where
  "ready_for_image png b \<longleftrightarrow>
     \<not> sy_paused (dm_sync b) \<and> sy_images (dm_sync b) \<and> sy_clip (dm_sync b) \<and> clip_sink (dm_fx b) = Some []
     \<and> length (fx_incoming (dm_fx b)) < MAX_CONCURRENT_INCOMING \<and> length png \<le> MAX_MEM_BLOB"

lemma blobs_drained:
  "sy_blobs (dm_sync (daemon_step sha d (LocalCopy w ev now c))) = []"
proof -
  have "sy_blobs (dm_sync (foldl (stream_image sha w) x pngs)) = sy_blobs (dm_sync x)" for x pngs
    by (induction pngs rule: rev_induct) (simp_all add: stream_image_def case_prod_beta)
  then show ?thesis by (simp add: daemon_step_def local_copy_def Let_def)
qed

lemma image_streamed:
  assumes "ready_to_send_image sha now png a" "a' = daemon_step sha a (LocalCopy w ev now (LocalImage png))"
  shows "dm_streamed a' = dm_streamed a @ fst (send_clip_image sha w png ((dm_fx a)\<lparr>fx_bus := dm_bus a\<rparr>))"
proof -
  let ?st = "(dm_sync a)\<lparr>sy_bus := dm_bus a\<rparr>"
  have "\<not> now - sy_last (dm_sync a) < min_gap" "Some (sha png) \<noteq> sy_synced (dm_sync a)"
    using assms(1) by (auto simp: ready_to_send_image_def min_gap_def)
  then have "sync_local sha ev now (LocalImage png) ?st
    = ?st\<lparr>sy_last := now, sy_history := record_image sha ev png ''local'' (sy_history (dm_sync a)), sy_synced := Some (sha png), sy_blobs := [png]\<rparr>"
    using assms(1) by (simp add: ready_to_send_image_def sync_local_def Let_def)
  then show ?thesis
    by (simp add: assms(2) daemon_step_def local_copy_def on_sync_def stream_image_def Let_def case_prod_beta)
qed

section \<open>Properties\<close>

text \<open>
  C12. A large image copied on one machine arrives on the other: the sync loop streams it as one
  transfer to each connected device, and a device whose link stays open is sent the whole
  transfer. The messages streamed to it, handed to the router of a daemon that is not paused, has
  image sync on and room for the transfer, put exactly that image on the clipboard there; the
  peer is offered the acknowledgement of that transfer, and nothing is left of it, in the table
  or on disk. (The receiving daemon looks at neither switch for an image of this size, see
  \<open>blob_image_ignores_pause\<close>.)
\<close>

theorem copied_image_travels:
  assumes "ready_to_send_image sha now png a" "sender (dm_bus a) d \<noteq> None" "fst (w d) = None"
    and "a' = daemon_step sha a (LocalCopy w ev now (LocalImage png))"
    and "dm_streamed a' = dm_streamed a @ sent"
    and "ready_for_image png b"
    and "b' = foldl (daemon_step sha) b (map (Inbound env pid) (the (map_of sent d)) @ [TakeImage])"
  shows "map fst sent = connected_ids (dm_bus a)
    \<and> (\<forall>(e, ms)\<in>set sent. fst (w e) = None \<longrightarrow>
         (\<exists>bid. ms = blob_messages sha bid ''clipboard.png'' (of_nat (length png)) ClipboardImage (chunks BLOB_CHUNK png)))
    \<and> (\<exists>bid. sy_applied (dm_sync b') = sy_applied (dm_sync b) @ [ApplyImage png]
         \<and> dm_bus b' = snd (send_to pid (BlobAck bid True ''clipboard-image'') (dm_bus b))
         \<and> fx_incoming (dm_fx b') = AList.delete (pid, bid) (fx_incoming (dm_fx b))
         \<and> fx_fs (dm_fx b') = fx_fs (dm_fx b) \<and> clip_sink (dm_fx b') = Some [])"
proof -
  let ?fx = "(dm_fx a)\<lparr>fx_bus := dm_bus a\<rparr>"
  have s: "sent = fst (send_clip_image_to sha w png (connected_ids (dm_bus a)) ?fx)"
    using image_streamed[OF assms(1,4)] assms(5) by (simp add: send_clip_image_def)
  have ids: "map fst sent = connected_ids (dm_bus a)"
    using image_streams[of sha w png "connected_ids (dm_bus a)" ?fx] connected_senders[of "dm_bus a"] by (simp add: s)
  have whole: "\<exists>bid. ms = blob_messages sha bid ''clipboard.png'' (of_nat (length png)) ClipboardImage (chunks BLOB_CHUNK png)"
    if "(e, ms) \<in> set sent" "fst (w e) = None" for e ms
    using clip_image_messages that unfolding s by blast
  have "d \<in> fst ` set sent" using ids assms(2) connected_iff by (metis list.set_map)
  then obtain ms where m: "map_of sent d = Some ms" by (metis map_of_eq_None_iff not_None_eq)
  from whole[OF map_of_SomeD[OF this] assms(3)] obtain bid where
    ms_def: "ms = blob_messages sha bid ''clipboard.png'' (of_nat (length png)) ClipboardImage (chunks BLOB_CHUNK png)" by blast
  let ?e = "(re_fx env)\<lparr>e_reg := dm_reg b\<rparr>"
  have ms: "list_all blob_message ms" "ms \<noteq> []" by (simp_all add: ms_def blob_messages_def list_all_iff)
  have c: "concat (chunks BLOB_CHUNK png) = png" by (rule concat_chunks) (simp add: BLOB_CHUNK_def)
  have r: "foldl (fx_step sha) ((dm_fx b)\<lparr>fx_bus := dm_bus b\<rparr>) (map (\<lambda>m. (?e, pid, m)) ms)
    = accept_memory pid bid png ((dm_fx b)\<lparr>fx_bus := dm_bus b, fx_incoming := AList.delete (pid, bid) (fx_incoming (dm_fx b))\<rparr>)"
    using assms(6) image_received[of "(dm_fx b)\<lparr>fx_bus := dm_bus b\<rparr>" png "chunks BLOB_CHUNK png", OF _ _ _ c]
    unfolding ms_def by (simp add: ready_for_image_def)
  have b: "b' = take_image (on_fx (\<lambda>fx. foldl (fx_step sha) fx (map (\<lambda>m. (?e, pid, m)) ms)) b)"
    unfolding assms(7) m option.sel by (simp add: route_blobs[OF ms(1)] ms(2) daemon_step_def)
  have "\<exists>bid. sy_applied (dm_sync b') = sy_applied (dm_sync b) @ [ApplyImage png]
         \<and> dm_bus b' = snd (send_to pid (BlobAck bid True ''clipboard-image'') (dm_bus b))
         \<and> fx_incoming (dm_fx b') = AList.delete (pid, bid) (fx_incoming (dm_fx b))
         \<and> fx_fs (dm_fx b') = fx_fs (dm_fx b) \<and> clip_sink (dm_fx b') = Some []"
    using assms(6) unfolding b
    by (intro exI[of _ bid])
      (simp add: on_fx_def r accept_memory_def Let_def take_image_def on_sync_def sync_blob_def ready_for_image_def)
  with ids whole show ?thesis by auto
qed

definition im_png :: bytes where
  "im_png = replicate (CLIP_IMAGE_INLINE_MAX + 1) 7"

definition im_daemon :: "string \<Rightarrow> daemon" where
  "im_daemon own = (ct_daemon (RestoredText []))\<lparr>dm_sync := (ex_sync own)\<lparr>sy_images := True\<rparr>, dm_fx := ex_fx\<rparr>"

definition im_env :: route_env where
  "im_env = \<lparr>re_fx = ex_env, re_auth = ce_auth ct_env, re_spawn_ok = True\<rparr>"

theorem copied_image_travels_witness:
  "\<exists>sent. dm_streamed (daemon_step (\<lambda>b. b) (im_daemon ''a'') (LocalCopy (\<lambda>_. (None, AckTimeout)) ex_hev 1000 (LocalImage im_png))) = sent
     \<and> sy_applied (dm_sync (foldl (daemon_step (\<lambda>b. b)) (im_daemon ''b'')
          (map (Inbound im_env ''a'') (the (map_of sent ''id-a'')) @ [TakeImage]))) = [ApplyImage im_png]"
proof -
  have r: "ready_to_send_image (\<lambda>b. b) 1000 im_png (im_daemon ''a'')"
    by (simp add: ready_to_send_image_def im_daemon_def im_png_def ex_sync_def min_gap_def)
  have s: "sender (dm_bus (im_daemon ''a'')) ''id-a'' \<noteq> None"
    by (simp add: im_daemon_def ct_daemon_def ct_bus_def sender_def)
  have b: "ready_for_image im_png (im_daemon ''b'')"
    by (simp add: ready_for_image_def im_daemon_def ex_sync_def ex_fx_def im_png_def MAX_CONCURRENT_INCOMING_def
        MAX_MEM_BLOB_def CLIP_IMAGE_INLINE_MAX_def)
  have ap: "sy_applied (dm_sync (im_daemon ''b'')) = []" by (simp add: im_daemon_def ex_sync_def)
  have st: "dm_streamed (im_daemon ''a'') = []" by (simp add: im_daemon_def ct_daemon_def)
  show ?thesis
    using copied_image_travels[OF r s _ refl _ b refl, where w = "\<lambda>_. (None, AckTimeout)" and ev = ex_hev and env = im_env and pid = "''a''"]
    by (simp only: ap st fst_conv simp_thms append_Nil) blast
qed

end
