(* ===== verification/Ctl_Wire.thy ===== *)
theory Ctl_Wire
  imports Control "HOL-Library.Countable"
begin

text \<open>
  The control socket between \<open>qdrop\<close> and \<open>qdropd\<close>: the JSON objects of
  \<open>crates/qdropd/src/control.rs\<close> (\<open>handle\<close>, the shapes that \<open>dispatch\<close> answers with, the tags
  and fields of \<open>Request\<close>) and the client side, \<open>crates/qdrop-core/src/control.rs\<close>. The text
  form of JSON (\<open>serde\_json\<close>) is the pair of parameters \<open>show_j\<close> and \<open>read_j\<close>.
\<close>

section \<open>JSON values\<close>

datatype json =
    JNull
  | JBool bool
  | JNum nat
  | JStr string
  | JArr "json list"
  | JObj "(string \<times> json) list"

text \<open>The accessors of \<open>serde\_json::Value\<close> that the code uses.\<close>

fun jget :: "string \<Rightarrow> json \<Rightarrow> json option" where
  "jget k (JObj kv) = map_of kv k"
| "jget k _ = None"

fun as_bool :: "json \<Rightarrow> bool option" where
  "as_bool (JBool b) = Some b"
| "as_bool _ = None"

fun as_str :: "json \<Rightarrow> string option" where
  "as_str (JStr s) = Some s"
| "as_str _ = None"

fun as_num :: "json \<Rightarrow> nat option" where
  "as_num (JNum n) = Some n"
| "as_num _ = None"

fun as_array :: "json \<Rightarrow> json list option" where
  "as_array (JArr xs) = Some xs"
| "as_array _ = None"

definition or_else :: "'a option \<Rightarrow> 'a \<Rightarrow> 'a" where
  "or_else x d = (case x of Some v \<Rightarrow> v | None \<Rightarrow> d)"

abbreviation flag :: "string \<Rightarrow> json \<Rightarrow> bool" where
  "flag k j \<equiv> or_else (Option.bind (jget k j) as_bool) False"

definition jopt :: "('a \<Rightarrow> json) \<Rightarrow> 'a option \<Rightarrow> json" where
  "jopt f x = (case x of Some v \<Rightarrow> f v | None \<Rightarrow> JNull)"

section \<open>Requests\<close>

text \<open>
  The derived \<open>Deserialize\<close> of \<open>Request\<close>, on an object: the variant is the snake-case value
  of \<open>cmd\<close>; a field marked \<open>default\<close> may be missing, an \<open>Option\<close> may also be null; other keys
  are ignored.
\<close>

definition req_str :: "string \<Rightarrow> json \<Rightarrow> string option" where
  "req_str k j = Option.bind (jget k j) as_str"

definition req_num :: "string \<Rightarrow> json \<Rightarrow> nat option" where
  "req_num k j = Option.bind (jget k j) as_num"

definition req_strs :: "string \<Rightarrow> json \<Rightarrow> string list option" where
  "req_strs k j =
    (case Option.bind (jget k j) as_array of
       Some xs \<Rightarrow> if list_all (\<lambda>x. as_str x \<noteq> None) xs then Some (map (\<lambda>x. the (as_str x)) xs) else None
     | None \<Rightarrow> None)"

definition opt_str :: "string \<Rightarrow> json \<Rightarrow> string option option" where
  "opt_str k j =
    (case jget k j of
       None \<Rightarrow> Some None
     | Some JNull \<Rightarrow> Some None
     | Some v \<Rightarrow> map_option Some (as_str v))"

definition opt_flag :: "string \<Rightarrow> json \<Rightarrow> bool option" where
  "opt_flag k j = (case jget k j of None \<Rightarrow> Some False | Some v \<Rightarrow> as_bool v)"

definition pair_opt :: "('a \<Rightarrow> 'b \<Rightarrow> 'c) \<Rightarrow> 'a option \<Rightarrow> 'b option \<Rightarrow> 'c option" where
  "pair_opt f x y = Option.bind x (\<lambda>a. map_option (f a) y)"

definition request_of_json :: "json \<Rightarrow> request option" where
  "request_of_json j =
    (case req_str ''cmd'' j of
       None \<Rightarrow> None
     | Some cmd \<Rightarrow>
         if cmd = ''clip_pause'' then Some ClipPause
         else if cmd = ''clip_resume'' then Some ClipResume
         else if cmd = ''clip_status'' then Some ClipStatus
         else if cmd = ''status'' then Some Status
         else if cmd = ''send'' then pair_opt Send (req_strs ''paths'' j) (opt_str ''to'' j)
         else if cmd = ''open'' then pair_opt Open (req_str ''url'' j) (opt_str ''to'' j)
         else if cmd = ''auth'' then pair_opt ReqAuth (req_str ''name'' j) (opt_flag ''mutual'' j)
         else if cmd = ''clip_get'' then Some ClipGet
         else if cmd = ''clip_set'' then map_option ClipSet (req_str ''text'' j)
         else if cmd = ''clip_history'' then Some ClipHistory
         else if cmd = ''clip_restore'' then map_option ClipRestore (req_num ''index'' j)
         else if cmd = ''clip_send'' then pair_opt ClipSend (req_num ''index'' j) (opt_str ''to'' j)
         else None)"

text \<open>The objects the client builds; \<open>simple_req\<close> is \<open>control::request\<close>.\<close>

definition simple_req :: "string \<Rightarrow> json" where
  "simple_req cmd = JObj [(''cmd'', JStr cmd)]"

definition send_req :: "string list \<Rightarrow> string option \<Rightarrow> json" where
  "send_req paths dst = JObj [(''cmd'', JStr ''send''), (''paths'', JArr (map JStr paths)), (''to'', jopt JStr dst)]"

definition open_req :: "string \<Rightarrow> string option \<Rightarrow> json" where
  "open_req url dst = JObj [(''cmd'', JStr ''open''), (''url'', JStr url), (''to'', jopt JStr dst)]"

definition auth_req :: "string \<Rightarrow> bool \<Rightarrow> json" where
  "auth_req name mutual = JObj [(''cmd'', JStr ''auth''), (''name'', JStr name), (''mutual'', JBool mutual)]"

definition clip_set_req :: "string \<Rightarrow> json" where
  "clip_set_req text = JObj [(''cmd'', JStr ''clip_set''), (''text'', JStr text)]"

definition clip_restore_req :: "nat \<Rightarrow> json" where
  "clip_restore_req n = JObj [(''cmd'', JStr ''clip_restore''), (''index'', JNum n)]"

definition clip_send_req :: "nat \<Rightarrow> string option \<Rightarrow> json" where
  "clip_send_req n dst = JObj [(''cmd'', JStr ''clip_send''), (''index'', JNum n), (''to'', jopt JStr dst)]"

fun req_json :: "request \<Rightarrow> json" where
  "req_json ClipPause = simple_req ''clip_pause''"
| "req_json ClipResume = simple_req ''clip_resume''"
| "req_json ClipStatus = simple_req ''clip_status''"
| "req_json Status = simple_req ''status''"
| "req_json (Send paths dst) = send_req paths dst"
| "req_json (Open url dst) = open_req url dst"
| "req_json (ReqAuth name mutual) = auth_req name mutual"
| "req_json ClipGet = simple_req ''clip_get''"
| "req_json (ClipSet text) = clip_set_req text"
| "req_json ClipHistory = simple_req ''clip_history''"
| "req_json (ClipRestore n) = clip_restore_req n"
| "req_json (ClipSend n dst) = clip_send_req n dst"

section \<open>Responses\<close>

definition jnum64 :: "u64 \<Rightarrow> json" where
  "jnum64 w = JNum (unat w)"

definition outcome_json :: "send_outcome \<Rightarrow> json" where
  "outcome_json out = JObj [(''name'', JStr (so_name out)), (''peer'', JStr (so_peer out)), (''ok'', JBool (so_ok out)),
     (''detail'', JStr (so_detail out))]"

definition row_json :: "peer_row \<Rightarrow> json" where
  "row_json r = JObj [(''name'', JStr (row_name r)), (''device_id'', JStr (row_id r)), (''online'', JBool (row_online r)),
     (''since_unix'', jopt jnum64 (row_since r)), (''last_seen_unix'', jopt jnum64 (row_last_seen r))]"

definition item_json :: "list_item \<Rightarrow> json" where
  "item_json i = JObj [(''index'', JNum (li_index i)), (''kind'', JStr (li_kind i)), (''preview'', JStr (li_preview i)),
     (''when_unix'', jnum64 (li_when i)), (''origin'', JStr (li_origin i))]"

definition status_obj :: "string \<Rightarrow> status \<Rightarrow> json" where
  "status_obj version st = JObj [(''ok'', JBool True), (''version'', JStr version), (''port'', JNum (unat (st_port st))),
     (''clipboard_paused'', JBool (st_paused st)), (''sync_images'', JBool (st_images st)),
     (''connected'', JArr (map JStr (st_connected st))), (''peers'', JArr (map row_json (st_rows st)))]"

definition error_obj :: "string \<Rightarrow> json" where
  "error_obj e = JObj [(''ok'', JBool False), (''error'', JStr e)]"

fun response_json :: "string \<Rightarrow> response \<Rightarrow> json" where
  "response_json v (RStatus st) = status_obj v st"
| "response_json v (RSent ok outs) = JObj [(''ok'', JBool ok), (''sent'', JArr (map outcome_json outs))]"
| "response_json v (RDispatched n) = JObj [(''ok'', JBool True), (''dispatched'', JNum n)]"
| "response_json v (RError e) = error_obj e"
| "response_json v (RText t) = JObj [(''ok'', JBool True), (''text'', jopt JStr t)]"
| "response_json v ROk = JObj [(''ok'', JBool True)]"
| "response_json v (REntries es) = JObj [(''ok'', JBool True), (''entries'', JArr (map item_json es))]"
| "response_json v (RSentTo ok n) = JObj [(''ok'', JBool ok), (''sent_to'', JNum n)]"
| "response_json v (RHost h) = JObj [(''ok'', JBool True), (''hostname'', JStr h)]"

section \<open>The two ends of the socket\<close>

text \<open>
  One line in, one line out; an empty line is answered with nothing. \<open>why\<close> is the parser's
  explanation of a request it cannot read.
\<close>

record wire =
  show_j :: "json \<Rightarrow> string"
  read_j :: "string \<Rightarrow> json option"
  why :: "string \<Rightarrow> string"
  version :: string

definition newline :: string where
  "newline = [CHR 0x0A]"

definition handle_line ::
  "wire \<Rightarrow> (bytes \<Rightarrow> bytes) \<Rightarrow> ctl_env \<Rightarrow> string \<Rightarrow> daemon \<Rightarrow> string \<times> daemon" where
  "handle_line w sha env line d =
    (let line = trim line in
     if line = [] then ([], d)
     else (case Option.bind (read_j w line) request_of_json of
        Some req \<Rightarrow> (case dispatch sha env req d of (resp, _, d) \<Rightarrow> (show_j w (response_json (version w) resp) @ newline, d))
      | None \<Rightarrow> (show_j w (error_obj (''bad request: '' @ why w line)) @ newline, d)))"

text \<open>\<open>read_line\<close>: up to and including the first line feed.\<close>

definition read_line :: "string \<Rightarrow> string" where
  "read_line s = takeWhile (\<lambda>c. c \<noteq> CHR 0x0A) s @ (if CHR 0x0A \<in> set s then newline else [])"

text \<open>\<open>request\_json\<close>; \<open>reach\<close> says whether the socket's path is known and connecting works.\<close>

definition request_json ::
  "wire \<Rightarrow> (bytes \<Rightarrow> bytes) \<Rightarrow> ctl_env \<Rightarrow> (string, unit) res \<Rightarrow> json \<Rightarrow> daemon \<Rightarrow> (string, json) res \<times> daemon" where
  "request_json w sha env reach req d =
    (case reach of
       Inl e \<Rightarrow> (Inl e, d)
     | Inr _ \<Rightarrow>
         (case handle_line w sha env (read_line (show_j w req @ newline)) d of
            (out, d) \<Rightarrow>
              (case read_j w (trim (read_line out)) of
                 Some j \<Rightarrow> (Inr j, d)
               | None \<Rightarrow> (Inl ''parsing control response'', d))))"

text \<open>
  What is relied on: the printer writes one line that is not blank at its ends, and the
  parser reads it back.
\<close>

definition json_ok :: "wire \<Rightarrow> json \<Rightarrow> bool" where
  "json_ok w j \<longleftrightarrow> CHR 0x0A \<notin> set (show_j w j) \<and> show_j w j \<noteq> []
     \<and> trim (show_j w j @ newline) = show_j w j \<and> read_j w (show_j w j) = Some j"

definition wire_ok :: "wire \<Rightarrow> bool" where
  "wire_ok w \<longleftrightarrow> (\<forall>j. json_ok w j)"

section \<open>Lemmas\<close>

lemmas json_simps = or_else_def jopt_def req_str_def req_num_def req_strs_def opt_str_def opt_flag_def pair_opt_def

lemmas req_defs = simple_req_def send_req_def open_req_def auth_req_def clip_set_req_def clip_restore_req_def clip_send_req_def

lemma request_roundtrip: "request_of_json (req_json r) = Some r"
proof (cases r)
  case (Send paths dst)
  then show ?thesis by (cases dst) (simp_all add: request_of_json_def json_simps req_defs list_all_iff comp_def)
next
  case (Open url dst)
  then show ?thesis by (cases dst) (simp_all add: request_of_json_def json_simps req_defs)
next
  case (ClipSend n dst)
  then show ?thesis by (cases dst) (simp_all add: request_of_json_def json_simps req_defs)
qed (simp_all add: request_of_json_def json_simps req_defs)

lemma read_line_one: "CHR 0x0A \<notin> set s \<Longrightarrow> read_line (s @ newline) = s @ newline"
  by (auto simp: read_line_def newline_def takeWhile_append)

lemma request_json_dispatch:
  assumes "json_ok w (req_json r)" "dispatch sha env r d = (resp, streams, d')" "json_ok w (response_json (version w) resp)"
  shows "request_json w sha env (Inr ()) (req_json r) d = (Inr (response_json (version w) resp), d')"
proof -
  have "handle_line w sha env (read_line (show_j w (req_json r) @ newline)) d
      = (show_j w (response_json (version w) resp) @ newline, d')"
    using assms(1,2) by (simp add: handle_line_def json_ok_def read_line_one request_roundtrip)
  with assms(3) show ?thesis by (simp add: request_json_def json_ok_def read_line_one)
qed

text \<open>JSON values are countable, so numbers in decimal are one such text form.\<close>

instance json :: countable
  by countable_datatype

definition num_wire :: wire where
  "num_wire = \<lparr>show_j = (\<lambda>j. dec_str (to_nat j)), read_j = (\<lambda>s. Some (from_nat (digits_val s))), why = (\<lambda>_. []), version = ''1''\<rparr>"

lemma digit_is_hexdigit: "is_ascii_digit c \<Longrightarrow> is_ascii_hexdigit c"
  by (auto simp: is_ascii_digit_def is_ascii_hexdigit_def Let_def)

lemma num_wire_ok: "wire_ok num_wire"
  unfolding wire_ok_def
proof
  fix j :: json
  let ?s = "dec_str (to_nat j)"
  have d: "list_all is_ascii_digit ?s" "?s \<noteq> []" by (simp add: dec_str_digits) (subst dec_str.simps, simp)
  then have "list_all is_ascii_hexdigit ?s" by (auto simp: list_all_iff digit_is_hexdigit)
  then have "trim (?s @ newline) = ?s" using hex_trim d(2) by (simp add: newline_def)
  moreover have "CHR 0x0A \<notin> set ?s" using d(1) by (auto simp: list_all_iff is_ascii_digit_def)
  ultimately show "json_ok num_wire j" using d by (simp add: json_ok_def num_wire_def digits_val_dec_str)
qed

section \<open>Properties\<close>

text \<open>
  C37. The client and the daemon speak the same language: every request the command line can
  build is understood by the daemon as the request it stands for, and through the socket the
  client gets back exactly what dispatching that request answers, with its effect on the
  daemon; nothing else happens to the daemon.
\<close>

theorem control_request_roundtrip:
  assumes "json_ok w (req_json r)" "dispatch sha env r d = (resp, streams, d')" "json_ok w (response_json (version w) resp)"
  shows "request_of_json (req_json r) = Some r
    \<and> request_json w sha env (Inr ()) (req_json r) d = (Inr (response_json (version w) resp), d')"
  using request_roundtrip request_json_dispatch[OF assms] by blast

text \<open>A printer and a parser for two values, for examples.\<close>

definition ex_wire :: "json \<Rightarrow> json \<Rightarrow> wire" where
  "ex_wire a b = \<lparr>show_j = (\<lambda>j. if j = a then ''a'' else ''b''), read_j = (\<lambda>s. if s = ''a'' then Some a else if s = ''b'' then Some b else None),
     why = (\<lambda>_. []), version = ''1''\<rparr>"

lemma ex_wire_ok: "a \<noteq> b \<Longrightarrow> json_ok (ex_wire a b) a \<and> json_ok (ex_wire a b) b"
  by (simp add: json_ok_def ex_wire_def newline_def trim_def chars_ascii ws_item_def is_whitespace_def)

theorem control_request_roundtrip_witness:
  "request_json (ex_wire (req_json (ClipSet ''x'')) (response_json ''1'' ROk)) (\<lambda>b. b) ct_env (Inr ()) (req_json (ClipSet ''x''))
     (ct_daemon (RestoredText [])) = (Inr (response_json ''1'' ROk), to_clipboard (ApplyText ''x'') (ct_daemon (RestoredText [])))"
proof -
  let ?w = "ex_wire (req_json (ClipSet ''x'')) (response_json ''1'' ROk)"
  have w: "json_ok ?w (req_json (ClipSet ''x''))" "json_ok ?w (response_json (version ?w) ROk)"
    using ex_wire_ok[of "req_json (ClipSet ''x'')" "response_json ''1'' ROk"] by (simp_all add: ex_wire_def clip_set_req_def)
  have "dispatch (\<lambda>b. b) ct_env (ClipSet ''x'') (ct_daemon (RestoredText []))
      = (ROk, [], to_clipboard (ApplyText ''x'') (ct_daemon (RestoredText [])))"
    by (simp add: ct_daemon_def)
  from control_request_roundtrip[OF w(1) this w(2)] show ?thesis by (simp add: ex_wire_def)
qed

end
