(* ===== verification/Pairing.thy ===== *)
theory Pairing
  imports Crypto Frame Net
begin

text \<open>
  \<open>crates/qdrop-core/src/pairing.rs\<close>: the PIN-authenticated exchange and the choice of the
  address to pair with. The SPAKE2 library is a pair of parameters, \<open>spake_start\<close> (the
  state and the message of one side; its randomness is part of the parameter) and
  \<open>spake_finish\<close>; the payload codec, HMAC and SHA-256 are parameters too. The mDNS daemon
  is the sequence of events it delivers before the time limit.
\<close>

section \<open>Data\<close>

definition PAIR_PORT :: u16 where
  "PAIR_PORT = 47654 + 1"

definition PAIR_SERVICE_TYPE :: string where
  "PAIR_SERVICE_TYPE = ''_qdrop-pair._tcp.local.''"

definition MAX_PAIR_FRAME :: nat where
  "MAX_PAIR_FRAME = 4096"

datatype pair_role = Offerer | Requester

record paired =
  pd_id :: string
  pd_name :: string
  pd_key :: bytes

datatype pair_error =
    TargetNotFound string
  | PairTimeout
  | BadPin
  | PeerAborted
  | PairProtocol string
  | PairIo io_kind
  | PairOther string

record pair_payload =
  pp_id :: string
  pp_name :: string
  pp_key :: bytes

record local_info =
  li_id :: string
  li_name :: string
  li_key :: bytes

section \<open>Chunks\<close>

text \<open>A connection has the bytes still to be read and what was written; \<open>pbind\<close> is \<open>?\<close>.\<close>

record link =
  l_in :: stream
  l_out :: writer

type_synonym 'a pio = "link \<Rightarrow> (pair_error, 'a) res \<times> link"

definition pbind :: "'a pio \<Rightarrow> ('a \<Rightarrow> 'b pio) \<Rightarrow> 'b pio" where
  "pbind m f l = (case m l of (Inl e, l) \<Rightarrow> (Inl e, l) | (Inr x, l) \<Rightarrow> f x l)"

definition pret :: "(pair_error, 'a) res \<Rightarrow> 'a pio" where
  "pret r l = (r, l)"

definition write_exact :: "bytes \<Rightarrow> unit pio" where
  "write_exact data l =
    (case write_all data (l_out l) of
       (Inl e, w) \<Rightarrow> (Inl (PairIo e), l\<lparr>l_out := w\<rparr>)
     | (Inr _, w) \<Rightarrow>
         (case flush w of
            (Inl e, w) \<Rightarrow> (Inl (PairIo e), l\<lparr>l_out := w\<rparr>)
          | (Inr _, w) \<Rightarrow> (Inr (), l\<lparr>l_out := w\<rparr>)))"

definition write_chunk :: "bytes \<Rightarrow> unit pio" where
  "write_chunk data l =
    (if length data > 65535 then (Inl (PairProtocol ''chunk too large''), l)
     else (case write_all (be_bytes 2 (length data)) (l_out l) of
        (Inl e, w) \<Rightarrow> (Inl (PairIo e), l\<lparr>l_out := w\<rparr>)
      | (Inr _, w) \<Rightarrow> write_exact data (l\<lparr>l_out := w\<rparr>)))"

definition read_into :: "nat \<Rightarrow> bytes pio" where
  "read_into n l =
    (case read_exact n (l_in l) of
       (Inr b, s) \<Rightarrow> (Inr b, l\<lparr>l_in := s\<rparr>)
     | (Inl e, s) \<Rightarrow> (Inl (if e = UnexpectedEof then PeerAborted else PairIo e), l\<lparr>l_in := s\<rparr>))"

definition read_chunk :: "bytes pio" where
  "read_chunk =
     pbind (read_into 2) (\<lambda>b.
       let len = be_val b in
       if len = 0 \<or> len > MAX_PAIR_FRAME then pret (Inl (PairProtocol (''bad chunk length '' @ dec_str len)))
       else read_into len)"

section \<open>The exchange\<close>

definition derive :: "(bytes \<Rightarrow> bytes) \<Rightarrow> bytes \<Rightarrow> string \<Rightarrow> bytes" where
  "derive sha256 key label = sha256 (str_bytes label @ [0] @ key)"

record 'st pair_lib =
  spake_start :: "pair_role \<Rightarrow> bytes \<Rightarrow> 'st \<times> bytes"
  spake_finish :: "'st \<Rightarrow> bytes \<Rightarrow> bytes option"
  pl_enc :: "pair_payload \<Rightarrow> bytes option"
  pl_dec :: "bytes \<Rightarrow> pair_payload option"
  hmac_sha256 :: "bytes \<Rightarrow> bytes \<Rightarrow> bytes"
  pl_sha256 :: "bytes \<Rightarrow> bytes"

definition send_label :: "pair_role \<Rightarrow> string" where
  "send_label r = (case r of Offerer \<Rightarrow> ''a2b'' | Requester \<Rightarrow> ''b2a'')"

definition recv_label :: "pair_role \<Rightarrow> string" where
  "recv_label r = (case r of Offerer \<Rightarrow> ''b2a'' | Requester \<Rightarrow> ''a2b'')"

definition parse_paired :: "'st pair_lib \<Rightarrow> bytes \<Rightarrow> (pair_error, paired) res" where
  "parse_paired lib their_payload =
    (case pl_dec lib their_payload of
       None \<Rightarrow> Inl (PairProtocol ''malformed payload'')
     | Some parsed \<Rightarrow>
         if length (pp_key parsed) \<noteq> 32 then Inl (PairProtocol ''peer sent a malformed public key'')
         else Inr \<lparr>pd_id = pp_id parsed, pd_name = pp_name parsed, pd_key = pp_key parsed\<rparr>)"

text \<open>\<open>ack_late\<close> says that the peer's confirmation does not arrive within 15 seconds.\<close>

definition confirm :: "'st pair_lib \<Rightarrow> bool \<Rightarrow> bytes \<Rightarrow> paired pio" where
  "confirm lib ack_late their_payload =
     pbind (write_exact [1]) (\<lambda>_ l.
       if ack_late then (Inl PeerAborted, l)
       else (case read_into 1 l of
           (Inr ack, l) \<Rightarrow> if ack ! 0 = 1 then (parse_paired lib their_payload, l) else (Inl PeerAborted, l)
         | (Inl _, l) \<Rightarrow> (Inl PeerAborted, l)))"

definition exchange :: "'st pair_lib \<Rightarrow> bool \<Rightarrow> pair_role \<Rightarrow> string \<Rightarrow> local_info \<Rightarrow> paired pio" where
  "exchange lib ack_late role pin local =
    (let (state, our_spake) = spake_start lib role (str_bytes pin) in
     pbind (write_chunk our_spake) (\<lambda>_.
     pbind read_chunk (\<lambda>their_spake.
       case spake_finish lib state their_spake of
         None \<Rightarrow> pret (Inl (PairProtocol ''SPAKE2 finish failed''))
       | Some key \<Rightarrow>
           let send_key = derive (pl_sha256 lib) key (send_label role);
               recv_key = derive (pl_sha256 lib) key (recv_label role)
           in (case pl_enc lib \<lparr>pp_id = li_id local, pp_name = li_name local, pp_key = li_key local\<rparr> of
                 None \<Rightarrow> pret (Inl (PairProtocol ''encoding failed''))
               | Some payload \<Rightarrow>
                   pbind (write_chunk payload) (\<lambda>_.
                   pbind (write_exact (hmac_sha256 lib send_key payload)) (\<lambda>_.
                   pbind read_chunk (\<lambda>their_payload.
                   pbind (read_into 32) (\<lambda>their_tag l.
                     if \<not> ct_eq (hmac_sha256 lib recv_key their_payload) their_tag
                     then (Inl BadPin, snd (write_exact [0] l))
                     else confirm lib ack_late their_payload l))))))))"

section \<open>Finding the other device\<close>

fun is_dialable :: "ip_addr \<Rightarrow> bool" where
  "is_dialable (V4 v4) = (\<not> is_unspecified (V4 v4))"
| "is_dialable (V6 v6) = (\<not> is_unspecified (V6 v6) \<and> (v6 ! 0) AND 0xffc0 \<noteq> 0xfe80)"

definition addr_rank :: "ip_addr \<Rightarrow> nat" where
  "addr_rank ip =
    (case ip of
       V4 _ \<Rightarrow> if is_loopback ip then 2 else 0
     | V6 _ \<Rightarrow> if is_loopback ip then 3 else 1)"

definition sorted_dialable :: "socket_addr list \<Rightarrow> socket_addr list" where
  "sorted_dialable addrs =
     sort_key (\<lambda>a. addr_rank (sa_ip a)) (remdups_adj (sort (filter (\<lambda>a. is_dialable (sa_ip a)) addrs)))"

record service_info =
  txt_name :: "string option"
  fullname :: string
  addresses :: "ip_addr list"
  svc_port :: u16

datatype service_event = ServiceResolved service_info | OtherEvent | DaemonGone

definition offers :: "string \<Rightarrow> service_info \<Rightarrow> bool" where
  "offers target info =
    (let name_matches = (case txt_name info of Some n \<Rightarrow> eq_ignore_ascii_case n target | None \<Rightarrow> False);
         inst = (case strip_suffix (fullname info) (''.'' @ PAIR_SERVICE_TYPE) of Some i \<Rightarrow> i | None \<Rightarrow> [])
     in name_matches \<or> eq_ignore_ascii_case inst target)"

fun browse :: "string \<Rightarrow> service_event list \<Rightarrow> socket_addr list option" where
  "browse target [] = None"
| "browse target (DaemonGone # evs) = None"
| "browse target (OtherEvent # evs) = browse target evs"
| "browse target (ServiceResolved info # evs) =
    (let addrs = sorted_dialable (map (\<lambda>ip. socket_new ip (svc_port info)) (addresses info))
     in if offers target info \<and> addrs \<noteq> [] then Some addrs else browse target evs)"

text \<open>\<open>mdns\<close> is \<open>Inl\<close> when the daemon cannot be started or asked to browse.\<close>

definition resolve_target ::
  "(string, service_event list) res \<Rightarrow> string \<Rightarrow> (pair_error, socket_addr list) res" where
  "resolve_target mdns target =
    (case parse_ip target of
       Some ip \<Rightarrow> Inr [socket_new ip PAIR_PORT]
     | None \<Rightarrow>
         (case mdns of
            Inl e \<Rightarrow> Inl (PairOther e)
          | Inr evs \<Rightarrow>
              (case browse target evs of
                 Some addrs \<Rightarrow> Inr addrs
               | None \<Rightarrow> Inl (TargetNotFound target))))"

fun connect_from :: "(socket_addr \<Rightarrow> (io_kind, link) res) \<Rightarrow> io_kind option \<Rightarrow> socket_addr list \<Rightarrow> (pair_error, link) res" where
  "connect_from net last_err [] =
     Inl (case last_err of Some e \<Rightarrow> PairIo e | None \<Rightarrow> PairProtocol ''no usable address for the target'')"
| "connect_from net last_err (addr # addrs) =
     (case net addr of Inr l \<Rightarrow> Inr l | Inl e \<Rightarrow> connect_from net (Some e) addrs)"

definition connect_any :: "(socket_addr \<Rightarrow> (io_kind, link) res) \<Rightarrow> socket_addr list \<Rightarrow> (pair_error, link) res" where
  "connect_any net addrs = connect_from net None addrs"

definition run_request ::
  "'st pair_lib \<Rightarrow> bool \<Rightarrow> (string, service_event list) res \<Rightarrow> (socket_addr \<Rightarrow> (io_kind, link) res)
     \<Rightarrow> local_info \<Rightarrow> string \<Rightarrow> string \<Rightarrow> (pair_error, paired) res" where
  "run_request lib ack_late mdns net local target pin =
    (case resolve_target mdns target of
       Inl e \<Rightarrow> Inl e
     | Inr addrs \<Rightarrow>
         (case connect_any net addrs of
            Inl e \<Rightarrow> Inl e
          | Inr l \<Rightarrow> fst (exchange lib ack_late Requester pin local l)))"

text \<open>
  The offering side: the draws of the PIN, whether binding and advertising succeed, and what
  the listener gives within a minute (\<open>None\<close> for nobody). The result is \<open>None\<close> when the
  draws run out; the first component is the PIN that was announced.
\<close>

definition run_offer ::
  "'st pair_lib \<Rightarrow> bool \<Rightarrow> bytes option list \<Rightarrow> (string, unit) res \<Rightarrow> (string, unit) res
     \<Rightarrow> (io_kind, link) res option \<Rightarrow> local_info \<Rightarrow> (string option \<times> (pair_error, paired) res) option" where
  "run_offer lib ack_late draws bind_ok advert_ok accepted local =
    (case gen_pin draws of
       None \<Rightarrow> None
     | Some (Inl _) \<Rightarrow> Some (None, Inl (PairOther ''random source''))
     | Some (Inr pin) \<Rightarrow>
         Some (Some pin,
           case bind_ok of
             Inl e \<Rightarrow> Inl (PairOther e)
           | Inr _ \<Rightarrow>
               (case advert_ok of
                  Inl e \<Rightarrow> Inl (PairOther e)
                | Inr _ \<Rightarrow>
                    (case accepted of
                       None \<Rightarrow> Inl PairTimeout
                     | Some (Inl e) \<Rightarrow> Inl (PairIo e)
                     | Some (Inr l) \<Rightarrow> fst (exchange lib ack_late Offerer pin local l)))))"

section \<open>Lemmas on the wire\<close>

definition chunk_bytes :: "bytes \<Rightarrow> bytes" where
  "chunk_bytes d = be_bytes 2 (length d) @ d"

definition chunk_ok :: "bytes \<Rightarrow> bool" where
  "chunk_ok d \<longleftrightarrow> 0 < length d \<and> length d \<le> MAX_PAIR_FRAME"

definition put_out :: "bytes \<Rightarrow> link \<Rightarrow> link" where
  "put_out b l = l\<lparr>l_out := (l_out l)\<lparr>w_out := w_out (l_out l) @ b\<rparr>\<rparr>"

definition rest_in :: "bytes \<Rightarrow> link \<Rightarrow> link" where
  "rest_in b l = l\<lparr>l_in := (l_in l)\<lparr>s_data := b\<rparr>\<rparr>"

lemma put_rest_simps [simp]:
  "l_in (put_out b l) = l_in l" "w_fail (l_out (put_out b l)) = w_fail (l_out l)"
  "w_out (l_out (put_out b l)) = w_out (l_out l) @ b" "s_data (l_in (rest_in b l)) = b"
  "l_out (rest_in b l) = l_out l" "s_fail (l_in (rest_in b l)) = s_fail (l_in l)"
  by (simp_all add: put_out_def rest_in_def)

lemma pbind_eq:
  "m l = (Inr x, l1) \<Longrightarrow> pbind m f l = f x l1"
  "m l = (Inl e, l1) \<Longrightarrow> pbind m f l = (Inl e, l1)"
  by (simp_all add: pbind_def)

lemma pbind_Inr: "pbind m f l = (Inr y, l') \<longleftrightarrow> (\<exists>x l1. m l = (Inr x, l1) \<and> f x l1 = (Inr y, l'))"
  by (auto simp: pbind_def split: prod.splits sum.splits)

lemma write_exact_ok: "w_fail (l_out l) = None \<Longrightarrow> write_exact b l = (Inr (), put_out b l)"
  by (simp add: write_exact_def write_all_def flush_def put_out_def)

lemma write_chunk_ok:
  "w_fail (l_out l) = None \<Longrightarrow> chunk_ok b \<Longrightarrow> write_chunk b l = (Inr (), put_out (chunk_bytes b) l)"
  by (simp add: write_chunk_def write_all_def chunk_ok_def MAX_PAIR_FRAME_def write_exact_ok)
    (simp add: put_out_def chunk_bytes_def)

lemma read_into_ok:
  "s_data (l_in l) = b @ r \<Longrightarrow> length b = n \<Longrightarrow> read_into n l = (Inr b, rest_in r l)"
  by (simp add: read_into_def read_exact_def rest_in_def)

lemma read_into_Inr:
  "read_into n l = (Inr b, l') \<Longrightarrow> length b = n \<and> s_data (l_in l) = b @ s_data (l_in l') \<and> l_out l' = l_out l"
  by (auto simp: read_into_def split: prod.splits sum.splits dest!: read_exact_Inr)

lemma read_chunk_ok:
  assumes "s_data (l_in l) = chunk_bytes b @ r" "chunk_ok b"
  shows "read_chunk l = (Inr b, rest_in r l)"
proof -
  have two: "read_into 2 l = (Inr (be_bytes 2 (length b)), rest_in (b @ r) l)"
    using assms(1) by (intro read_into_ok) (simp_all add: chunk_bytes_def)
  have "be_val (be_bytes 2 (length b)) = length b"
    using assms(2) by (intro be_val_be_bytes) (simp add: chunk_ok_def MAX_PAIR_FRAME_def)
  then show ?thesis
    using assms(2) read_into_ok[of "rest_in (b @ r) l" b r "length b"]
    by (simp add: read_chunk_def pbind_def two chunk_ok_def rest_in_def)
qed

lemma be_bytes_be_val: "length p = k \<Longrightarrow> be_bytes k (be_val p) = p"
proof (induction p arbitrary: k rule: rev_induct)
  case (snoc b bs)
  have "(be_val bs * 256 + unat b) div 256 = be_val bs" using byte_lt[of b] by simp
  moreover have "word_of_nat (be_val bs * 256 + unat b) = b"
  proof -
    have "(word_of_nat (be_val bs * 256 + unat b) :: byte) = word_of_nat (be_val bs) * 256 + b" by simp
    also have "(256 :: byte) = 0" by simp
    finally show ?thesis by simp
  qed
  ultimately show ?case using snoc by (auto simp: be_val_snoc be_bytes_Suc simp del: of_nat_add)
qed simp

lemma read_chunk_Inr:
  assumes "read_chunk l = (Inr b, l')"
  shows "chunk_ok b \<and> s_data (l_in l) = chunk_bytes b @ s_data (l_in l') \<and> l_out l' = l_out l"
proof -
  from assms obtain p l1 where p: "read_into 2 l = (Inr p, l1)" and c: "be_val p \<noteq> 0" "be_val p \<le> MAX_PAIR_FRAME"
    and b: "read_into (be_val p) l1 = (Inr b, l')"
    by (auto simp: read_chunk_def pbind_Inr Let_def pret_def split: if_splits)
  note rp = read_into_Inr[OF p] and rb = read_into_Inr[OF b]
  have "p = be_bytes 2 (be_val p)" using rp by (metis be_bytes_be_val)
  with rp rb c show ?thesis by (auto simp: chunk_ok_def chunk_bytes_def)
qed

definition chunk_rd :: "stream \<Rightarrow> (pair_error, bytes) res \<times> stream" where
  "chunk_rd s = (case read_chunk \<lparr>l_in = s, l_out = empty_writer\<rparr> of (r, l) \<Rightarrow> (r, l_in l))"

interpretation pc: framed chunk_bytes chunk_rd chunk_ok
proof
  fix x rest and s :: stream
  assume "chunk_ok x"
  then show "chunk_rd (s\<lparr>s_data := chunk_bytes x @ rest\<rparr>) = (Inr x, s\<lparr>s_data := rest\<rparr>)"
    using read_chunk_ok[of "\<lparr>l_in = s\<lparr>s_data := chunk_bytes x @ rest\<rparr>, l_out = empty_writer\<rparr>" x rest]
    by (simp add: chunk_rd_def rest_in_def)
qed

section \<open>Lemmas on the exchange\<close>

definition own_payload :: "local_info \<Rightarrow> pair_payload" where
  "own_payload i = \<lparr>pp_id = li_id i, pp_name = li_name i, pp_key = li_key i\<rparr>"

definition paired_of :: "local_info \<Rightarrow> paired" where
  "paired_of i = \<lparr>pd_id = li_id i, pd_name = li_name i, pd_key = li_key i\<rparr>"

definition tag_from :: "'st pair_lib \<Rightarrow> pair_role \<Rightarrow> bytes \<Rightarrow> bytes \<Rightarrow> bytes" where
  "tag_from lib r key payload = hmac_sha256 lib (derive (pl_sha256 lib) key (send_label r)) payload"

definition other :: "pair_role \<Rightarrow> pair_role" where
  "other r = (case r of Offerer \<Rightarrow> Requester | Requester \<Rightarrow> Offerer)"

lemma recv_label_other: "recv_label r = send_label (other r)"
  by (cases r) (simp_all add: recv_label_def send_label_def other_def)

text \<open>The exchange up to the check of the tag.\<close>

lemma exchange_to_tag:
  assumes "spake_start lib role (str_bytes pin) = (st, m)" "chunk_ok m"
    and "pl_enc lib (own_payload local) = Some pl" "chunk_ok pl"
    and "spake_finish lib st m' = Some key" "chunk_ok m'" "chunk_ok pl'" "length tag' = 32"
    and "s_data (l_in l) = chunk_bytes m' @ chunk_bytes pl' @ tag' @ rest" "w_fail (l_out l) = None"
  shows "\<exists>l1. s_data (l_in l1) = rest \<and> w_fail (l_out l1) = None
    \<and> w_out (l_out l1) = w_out (l_out l) @ chunk_bytes m @ chunk_bytes pl @ tag_from lib role key pl
    \<and> exchange lib late role pin local l =
        (if ct_eq (tag_from lib (other role) key pl') tag' then confirm lib late pl' l1
         else (Inl BadPin, snd (write_exact [0] l1)))"
proof -
  note wire = write_chunk_ok write_exact_ok read_chunk_ok read_into_ok
  let ?l1 = "put_out (chunk_bytes m) l"
  let ?l2 = "rest_in (chunk_bytes pl' @ tag' @ rest) ?l1"
  let ?l3 = "put_out (chunk_bytes pl) ?l2"
  let ?l4 = "put_out (tag_from lib role key pl) ?l3"
  let ?l5 = "rest_in (tag' @ rest) ?l4"
  let ?l6 = "rest_in rest ?l5"
  have "write_chunk m l = (Inr (), ?l1)" "read_chunk ?l1 = (Inr m', ?l2)"
    "write_chunk pl ?l2 = (Inr (), ?l3)" "write_exact (tag_from lib role key pl) ?l3 = (Inr (), ?l4)"
    "read_chunk ?l4 = (Inr pl', ?l5)" "read_into 32 ?l5 = (Inr tag', ?l6)"
    using assms by (simp_all add: wire)
  then have "exchange lib late role pin local l =
        (if ct_eq (tag_from lib (other role) key pl') tag' then confirm lib late pl' ?l6
         else (Inl BadPin, snd (write_exact [0] ?l6)))"
    using assms(1,3,5)
    by (simp add: exchange_def pbind_def own_payload_def Let_def tag_from_def recv_label_other[symmetric])
  then show ?thesis using assms(10) by (intro exI[of _ ?l6]) simp
qed

text \<open>The steps of an exchange that succeeds.\<close>

lemma exchange_Inr:
  assumes "exchange lib late role pin local l = (Inr p, l')" "spake_start lib role (str_bytes pin) = (st, m)"
  obtains l1 l2 l3 l4 l5 l6 their key pl payload tag where
    "write_chunk m l = (Inr (), l1)" "read_chunk l1 = (Inr their, l2)" "spake_finish lib st their = Some key"
    "write_chunk pl l2 = (Inr (), l3)" "write_exact (tag_from lib role key pl) l3 = (Inr (), l4)"
    "read_chunk l4 = (Inr payload, l5)" "read_into 32 l5 = (Inr tag, l6)"
    "ct_eq (tag_from lib (other role) key payload) tag" "confirm lib late payload l6 = (Inr p, l')"
proof -
  from assms obtain l1 their l2 where w: "write_chunk m l = (Inr (), l1)" "read_chunk l1 = (Inr their, l2)"
    by (auto simp: exchange_def pbind_Inr)
  from assms w obtain key where k: "spake_finish lib st their = Some key"
    by (cases "spake_finish lib st their") (auto simp: exchange_def pbind_def pret_def)
  from assms w k obtain pl where e: "pl_enc lib (own_payload local) = Some pl"
    by (cases "pl_enc lib (own_payload local)") (auto simp: exchange_def pbind_def pret_def own_payload_def)
  from assms w k e show thesis
    by (auto simp: exchange_def pbind_def[of _ _ l] pbind_def[of _ _ l1] pbind_Inr own_payload_def tag_from_def
        recv_label_other[symmetric] split: if_splits intro: that)
qed

lemma confirm_ok:
  assumes "s_data (l_in l) = 1 # rest" "w_fail (l_out l) = None"
  shows "confirm lib False pl l = (parse_paired lib pl, rest_in rest (put_out [1] l))"
  using assms write_exact_ok[of l "[1]"] read_into_ok[of "put_out [1] l" "[1]" rest 1]
  by (simp add: confirm_def pbind_def)

lemma confirm_Inr:
  assumes "confirm lib late pl l = (Inr p, l')"
  shows "\<exists>rest. s_data (l_in l) = 1 # rest \<and> parse_paired lib pl = Inr p"
proof -
  from assms obtain l1 ack where "write_exact [1] l = (Inr (), l1)" and a: "read_into 1 l1 = (Inr ack, l')"
    "ack ! 0 = 1" "parse_paired lib pl = Inr p"
    by (auto simp: confirm_def pbind_Inr split: if_splits prod.splits sum.splits)
  moreover from this(1) have "l_in l1 = l_in l"
    by (auto simp: write_exact_def split: prod.splits sum.splits)
  ultimately show ?thesis using read_into_Inr[OF a(1)] by (cases ack) auto
qed

section \<open>Properties\<close>

text \<open>
  Pairing with the right PIN works: if the two SPAKE2 halves agree on a key (as they do
  for equal passwords), the payloads survive the codec and nothing exceeds the chunk limit,
  then there are two transcripts, each being what one side writes while reading the other,
  and each side ends up with exactly the other's id, name and public key.
\<close>

theorem pairing_agrees:
  assumes "spake_start lib Offerer (str_bytes pin) = (sa, ma)" "spake_start lib Requester (str_bytes pin) = (sb, mb)"
    and "spake_finish lib sa mb = Some key" "spake_finish lib sb ma = Some key" "chunk_ok ma" "chunk_ok mb"
    and "pl_enc lib (own_payload a) = Some pa" "pl_dec lib pa = Some (own_payload a)" "chunk_ok pa" "length (li_key a) = 32"
    and "pl_enc lib (own_payload b) = Some pb" "pl_dec lib pb = Some (own_payload b)" "chunk_ok pb" "length (li_key b) = 32"
    and "\<forall>k m. length (hmac_sha256 lib k m) = 32"
  shows "\<exists>wa wb la lb.
      exchange lib False Offerer pin a \<lparr>l_in = \<lparr>s_data = wb, s_fail = None\<rparr>, l_out = empty_writer\<rparr> = (Inr (paired_of b), la)
    \<and> exchange lib False Requester pin b \<lparr>l_in = \<lparr>s_data = wa, s_fail = None\<rparr>, l_out = empty_writer\<rparr> = (Inr (paired_of a), lb)
    \<and> w_out (l_out la) = wa \<and> w_out (l_out lb) = wb"
proof -
  have len: "length (tag_from lib r key p) = 32" for r p using assms(15) by (simp add: tag_from_def)
  then have eq: "ct_eq (tag_from lib r key p) (tag_from lib r key p)" for r p by (simp add: ct_eq_iff arr32_def)
  have parse: "parse_paired lib p = Inr (paired_of i)" if "pl_dec lib p = Some (own_payload i)" "length (li_key i) = 32" for p i
    using that by (simp add: parse_paired_def own_payload_def paired_of_def)
  define wa where "wa = chunk_bytes ma @ chunk_bytes pa @ tag_from lib Offerer key pa @ [1]"
  define wb where "wb = chunk_bytes mb @ chunk_bytes pb @ tag_from lib Requester key pb @ [1]"
  note run = exchange_to_tag[where l = "\<lparr>l_in = \<lparr>s_data = w, s_fail = None\<rparr>, l_out = empty_writer\<rparr>" for w, where late = False]
  obtain l1 where l1: "s_data (l_in l1) = [1]" "w_fail (l_out l1) = None"
    "w_out (l_out l1) = chunk_bytes ma @ chunk_bytes pa @ tag_from lib Offerer key pa"
    "exchange lib False Offerer pin a \<lparr>l_in = \<lparr>s_data = wb, s_fail = None\<rparr>, l_out = empty_writer\<rparr> = confirm lib False pb l1"
    using run[OF assms(1,5,7,9,3,6,13) len[of Requester pb], of wb "[1]"] eq
    by (auto simp: wb_def other_def empty_writer_def)
  obtain l2 where l2: "s_data (l_in l2) = [1]" "w_fail (l_out l2) = None"
    "w_out (l_out l2) = chunk_bytes mb @ chunk_bytes pb @ tag_from lib Requester key pb"
    "exchange lib False Requester pin b \<lparr>l_in = \<lparr>s_data = wa, s_fail = None\<rparr>, l_out = empty_writer\<rparr> = confirm lib False pa l2"
    using run[OF assms(2,6,11,13,4,5,9) len[of Offerer pa], of wa "[1]"] eq
    by (auto simp: wa_def other_def empty_writer_def)
  show ?thesis
    using l1 l2 confirm_ok[OF l1(1,2), of lib pb] confirm_ok[OF l2(1,2), of lib pa]
      parse[OF assms(8,10)] parse[OF assms(12,14)]
    by (intro exI[of _ wa] exI[of _ wb]) (simp add: wa_def wb_def)
qed

text \<open>
  C8. Nothing unauthenticated is trusted: whenever the exchange returns a device, the peer's
  stream consisted of its SPAKE2 message, a payload, the HMAC tag of that payload under the
  subkey of the other direction, and the confirmation byte, and the device is what that
  payload says, with a key of 32 bytes.
\<close>

theorem paired_device_is_authenticated:
  assumes "exchange lib late role pin local l = (Inr p, l')" "\<forall>k m. length (hmac_sha256 lib k m) = 32"
  shows "\<exists>their_spake payload key rest.
      spake_finish lib (fst (spake_start lib role (str_bytes pin))) their_spake = Some key
    \<and> s_data (l_in l) = chunk_bytes their_spake @ chunk_bytes payload @ tag_from lib (other role) key payload @ [1] @ rest
    \<and> pl_dec lib payload = Some \<lparr>pp_id = pd_id p, pp_name = pd_name p, pp_key = pd_key p\<rparr> \<and> length (pd_key p) = 32"
proof -
  have out: "l_in l2 = l_in l1" if "write_exact b l1 = (r, l2)" for b r l1 l2
    using that by (auto simp: write_exact_def split: prod.splits sum.splits)
  then have outc: "l_in l2 = l_in l1" if "write_chunk b l1 = (r, l2)" for b r l1 l2
    using that by (fastforce simp: write_chunk_def split: prod.splits sum.splits if_splits)
  obtain st m where s: "spake_start lib role (str_bytes pin) = (st, m)" by fastforce
  from assms(1) obtain l1 l2 l3 l4 l5 l6 their key pl payload tag where
    w: "write_chunk m l = (Inr (), l1)" "read_chunk l1 = (Inr their, l2)" "spake_finish lib st their = Some key"
      "write_chunk pl l2 = (Inr (), l3)" "write_exact (tag_from lib role key pl) l3 = (Inr (), l4)"
      "read_chunk l4 = (Inr payload, l5)" "read_into 32 l5 = (Inr tag, l6)"
    and c: "ct_eq (tag_from lib (other role) key payload) tag" "confirm lib late payload l6 = (Inr p, l')"
    by (rule exchange_Inr[OF _ s])
  have "tag = tag_from lib (other role) key payload"
    using c(1) read_into_Inr[OF w(7)] assms(2) by (simp add: ct_eq_iff arr32_def tag_from_def)
  moreover obtain rest where "s_data (l_in l6) = 1 # rest" "parse_paired lib payload = Inr p"
    using confirm_Inr[OF c(2)] by blast
  ultimately show ?thesis
    using read_chunk_Inr[OF w(2)] read_chunk_Inr[OF w(6)] read_into_Inr[OF w(7)]
      outc[OF w(1)] outc[OF w(4)] out[OF w(5)] w(3)
    by (intro exI[of _ their] exI[of _ payload] exI[of _ key] exI[of _ rest])
      (auto simp: s parse_paired_def split: option.splits if_splits)
qed

text \<open>
  Tampering and wrong PINs fail closed: a stream whose tag is not the one for its payload
  under our own key (which is what a different PIN, a changed payload or a reflection of our
  own messages leads to) ends in \<open>BadPin\<close>, and the last byte we send is the refusal.
\<close>

theorem bad_tag_fails_closed:
  assumes "spake_start lib role (str_bytes pin) = (st, m)" "chunk_ok m"
    and "pl_enc lib (own_payload local) = Some pl" "chunk_ok pl"
    and "spake_finish lib st m' = Some key" "chunk_ok m'" "chunk_ok pl'" "length tag' = 32"
    and "s_data (l_in l) = chunk_bytes m' @ chunk_bytes pl' @ tag' @ rest" "w_fail (l_out l) = None"
    and "tag' \<noteq> tag_from lib (other role) key pl'" "\<forall>k m. length (hmac_sha256 lib k m) = 32"
  shows "fst (exchange lib late role pin local l) = Inl BadPin
    \<and> last (w_out (l_out (snd (exchange lib late role pin local l)))) = 0"
proof -
  have "\<not> ct_eq (tag_from lib (other role) key pl') tag'"
    using assms(8,11,12) by (simp add: ct_eq_iff arr32_def tag_from_def)
  with exchange_to_tag[OF assms(1-10), of late] show ?thesis by (auto simp: write_exact_ok)
qed

definition pair_a :: local_info where
  "pair_a = \<lparr>li_id = ''a'', li_name = ''A'', li_key = replicate 32 1\<rparr>"

definition pair_b :: local_info where
  "pair_b = \<lparr>li_id = ''b'', li_name = ''B'', li_key = replicate 32 2\<rparr>"

text \<open>A library in which the shared key is the password and the digest is the identity.\<close>

definition ex_lib :: "bytes pair_lib" where
  "ex_lib = \<lparr>spake_start = (\<lambda>r pw. (pw, [if r = Offerer then 65 else 66])), spake_finish = (\<lambda>st m. Some st),
     pl_enc = (\<lambda>p. Some [if p = own_payload pair_a then 1 else 2]),
     pl_dec = (\<lambda>b. if b = [1] then Some (own_payload pair_a) else if b = [2] then Some (own_payload pair_b) else None),
     hmac_sha256 = (\<lambda>k m. take 32 (k @ m @ replicate 32 0)), pl_sha256 = (\<lambda>b. b)\<rparr>"

lemma ex_lib_facts:
  "spake_start ex_lib r pw = (pw, [if r = Offerer then 65 else 66])" "spake_finish ex_lib st m = Some st"
  "pl_enc ex_lib (own_payload pair_a) = Some [1]" "pl_enc ex_lib (own_payload pair_b) = Some [2]"
  "pl_dec ex_lib [1] = Some (own_payload pair_a)" "pl_dec ex_lib [2] = Some (own_payload pair_b)"
  "length (hmac_sha256 ex_lib k d) = 32" "chunk_ok [x]" "length (li_key pair_a) = 32" "length (li_key pair_b) = 32"
  by (simp_all add: ex_lib_def own_payload_def pair_a_def pair_b_def chunk_ok_def MAX_PAIR_FRAME_def)

theorem pairing_agrees_witness:
  "\<exists>wa wb la lb.
      exchange ex_lib False Offerer ''123456'' pair_a \<lparr>l_in = \<lparr>s_data = wb, s_fail = None\<rparr>, l_out = empty_writer\<rparr> = (Inr (paired_of pair_b), la)
    \<and> exchange ex_lib False Requester ''123456'' pair_b \<lparr>l_in = \<lparr>s_data = wa, s_fail = None\<rparr>, l_out = empty_writer\<rparr> = (Inr (paired_of pair_a), lb)
    \<and> w_out (l_out la) = wa \<and> w_out (l_out lb) = wb"
  by (rule pairing_agrees[OF ex_lib_facts(1) ex_lib_facts(1) ex_lib_facts(2) ex_lib_facts(2) _ _
        ex_lib_facts(3) ex_lib_facts(5) _ _ ex_lib_facts(4) ex_lib_facts(6)])
    (simp_all add: ex_lib_facts)

definition ex_link :: "byte \<Rightarrow> link" where
  "ex_link t = \<lparr>l_in = \<lparr>s_data = chunk_bytes [66] @ chunk_bytes [2] @
      (t # tl (tag_from ex_lib Requester (str_bytes ''1'') [2])) @ [1], s_fail = None\<rparr>, l_out = empty_writer\<rparr>"

lemma ex_tag: "tag_from ex_lib Requester (str_bytes ''1'') [2] = 98 # tl (tag_from ex_lib Requester (str_bytes ''1'') [2])"
  by (simp add: tag_from_def ex_lib_def derive_def send_label_def str_bytes_def)

theorem bad_tag_fails_closed_witness:
  "fst (exchange ex_lib False Offerer ''1'' pair_a (ex_link 99)) = Inl BadPin"
proof -
  have "98 # tl (tag_from ex_lib Requester (str_bytes ''1'') [2]) \<noteq> 99 # tl (tag_from ex_lib Requester (str_bytes ''1'') [2])" by simp
  then have ne: "99 # tl (tag_from ex_lib Requester (str_bytes ''1'') [2]) \<noteq> tag_from ex_lib (other Offerer) (str_bytes ''1'') [2]"
    using ex_tag by (simp add: other_def)
  have len: "length (99 # tl (tag_from ex_lib Requester (str_bytes ''1'') [2])) = 32"
    by (simp add: tag_from_def ex_lib_facts)
  show ?thesis
    using bad_tag_fails_closed[OF ex_lib_facts(1) _ ex_lib_facts(3) _ ex_lib_facts(2) _ _ len _ _ ne, of "[66]" "ex_link 99" "[1]" False]
    by (simp add: ex_lib_facts ex_link_def empty_writer_def)
qed

lemma ex_exchange: "\<exists>l'. exchange ex_lib False Offerer ''1'' pair_a (ex_link 98) = (Inr (paired_of pair_b), l')"
proof -
  let ?l = "ex_link 98"
  have s: "s_data (l_in ?l) = chunk_bytes [66] @ chunk_bytes [2] @ tag_from ex_lib Requester (str_bytes ''1'') [2] @ [1]"
    unfolding ex_link_def using ex_tag by simp
  have len: "length (tag_from ex_lib Requester (str_bytes ''1'') [2]) = 32" by (simp add: tag_from_def ex_lib_facts)
  then have eq: "ct_eq (tag_from ex_lib Requester (str_bytes ''1'') [2]) (tag_from ex_lib Requester (str_bytes ''1'') [2])"
    by (simp add: ct_eq_iff arr32_def)
  obtain l1 where l1: "s_data (l_in l1) = [1]" "w_fail (l_out l1) = None"
    "exchange ex_lib False Offerer ''1'' pair_a ?l = confirm ex_lib False [2] l1"
    using exchange_to_tag[OF ex_lib_facts(1) _ ex_lib_facts(3) _ ex_lib_facts(2) _ _ len s, where late = False and role = Offerer and pin = "''1''"] eq
    by (auto simp: other_def ex_lib_facts ex_link_def empty_writer_def)
  have "parse_paired ex_lib [2] = Inr (paired_of pair_b)"
    by (simp add: parse_paired_def ex_lib_facts) (simp add: own_payload_def paired_of_def pair_b_def)
  with l1 confirm_ok[OF l1(1,2), of ex_lib "[2]"] show ?thesis by simp
qed

theorem paired_device_is_authenticated_witness:
  "length (pd_key (paired_of pair_b)) = 32"
proof -
  from ex_exchange obtain l' where "exchange ex_lib False Offerer ''1'' pair_a (ex_link 98) = (Inr (paired_of pair_b), l')" ..
  from paired_device_is_authenticated[OF this] show ?thesis by (auto simp: ex_lib_facts)
qed

text \<open>
  The addresses tried are exactly the dialable ones, each once, routable before loopback
  and IPv4 before IPv6.
\<close>

theorem sorted_dialable_is_best_first:
  "set (sorted_dialable addrs) = {a \<in> set addrs. is_dialable (sa_ip a)} \<and> distinct (sorted_dialable addrs)
   \<and> sorted (map (\<lambda>a. addr_rank (sa_ip a)) (sorted_dialable addrs))"
proof -
  have d: "sorted xs \<Longrightarrow> distinct (remdups_adj xs)" for xs :: "socket_addr list"
    by (induction xs rule: remdups_adj.induct) (auto simp: order.antisym)
  have "distinct (sorted_dialable addrs)" unfolding sorted_dialable_def by (simp add: d)
  moreover have "set (sorted_dialable addrs) = {a \<in> set addrs. is_dialable (sa_ip a)}"
    unfolding sorted_dialable_def by auto
  moreover have "sorted (map (\<lambda>a. addr_rank (sa_ip a)) (sorted_dialable addrs))"
    unfolding sorted_dialable_def by (rule sorted_sort_key)
  ultimately show ?thesis by blast
qed

text \<open>
  A target given as an address is dialled on the pairing port and never looked up; a
  request succeeds only after an exchange as the requester on a connection to an address
  that was found for the target.
\<close>

theorem request_pairs_with_the_target:
  assumes "run_request lib late mdns net local target pin = Inr p"
  shows "\<exists>addrs addr l l'. resolve_target mdns target = Inr addrs \<and> addr \<in> set addrs \<and> net addr = Inr l
    \<and> exchange lib late Requester pin local l = (Inr p, l')
    \<and> (\<forall>ip. parse_ip target = Some ip \<longrightarrow> addrs = [socket_new ip PAIR_PORT])"
proof -
  have found: "\<exists>addr\<in>set as. net addr = Inr l" if "connect_from net e as = Inr l" for e as l
    using that by (induction net e as rule: connect_from.induct) (auto split: sum.splits)
  from assms obtain addrs l where r: "resolve_target mdns target = Inr addrs" "connect_any net addrs = Inr l"
    "fst (exchange lib late Requester pin local l) = Inr p"
    by (auto simp: run_request_def split: sum.splits)
  from found[OF r(2)[unfolded connect_any_def]] obtain addr where "addr \<in> set addrs" "net addr = Inr l" by blast
  moreover obtain l' where "exchange lib late Requester pin local l = (Inr p, l')" using r(3) by (metis prod.collapse)
  moreover have "parse_ip target = Some ip \<Longrightarrow> addrs = [socket_new ip PAIR_PORT]" for ip
    using r(1) by (simp add: resolve_target_def)
  ultimately show ?thesis using r(1) by blast
qed

end
