(* ===== verification/Secure.thy ===== *)
theory Secure
  imports Transport Crypto
begin

text \<open>
  \<open>crates/qdrop-core/src/tls.rs\<close>, \<open>crates/qdropd/src/secure.rs\<close> and the tasks of
  \<open>transport.rs\<close> that open connections: key pinning, the accept task and the dial loop.
  The TLS stack (\<open>rustls\<close>) and the certificate parser (\<open>x509-parser\<close>) are parameters:
  \<open>tls v t\<close> runs a handshake on the connection \<open>t\<close> with the certificate verifier
  \<open>v\<close> and, if it completes, gives the peer's certificates and the plaintext stream;
  \<open>x509\<close> gives the bytes of the subject public key of a certificate it can parse. The
  names of the library's own errors are not modelled, only that it failed.
\<close>

section \<open>Key pinning\<close>

datatype 'a limited = Elapsed | Failed | Done 'a

datatype cert_error = ApplicationVerificationFailure | BadEncoding

type_synonym verifier = "bytes \<Rightarrow> (cert_error, unit) res"
type_synonym 'tcp tls_stack = "verifier \<Rightarrow> 'tcp \<Rightarrow> (bytes list \<times> stream \<times> writer) limited"

definition peer_key_from_cert :: "(bytes \<Rightarrow> bytes option) \<Rightarrow> bytes \<Rightarrow> (string, bytes) res" where
  "peer_key_from_cert x509 cert =
    (case x509 cert of
       None \<Rightarrow> Inl ''parsing peer certificate''
     | Some spki \<Rightarrow>
         if length spki \<noteq> 32
         then Inl (''peer key is '' @ dec_str (length spki) @ '' bytes, expected a 32-byte Ed25519 key'')
         else Inr spki)"

definition verify_server_cert :: "(bytes \<Rightarrow> bytes option) \<Rightarrow> bytes \<Rightarrow> verifier" where
  "verify_server_cert x509 expect end_entity =
    (case peer_key_from_cert x509 end_entity of
       Inr key \<Rightarrow> if ct_eq key expect then Inr () else Inl ApplicationVerificationFailure
     | Inl _ \<Rightarrow> Inl BadEncoding)"

definition verify_client_cert :: "(bytes \<Rightarrow> bytes option) \<Rightarrow> roster \<Rightarrow> verifier" where
  "verify_client_cert x509 r end_entity =
    (case peer_key_from_cert x509 end_entity of
       Inl _ \<Rightarrow> Inl BadEncoding
     | Inr key \<Rightarrow> if is_trusted_key r key then Inr () else Inl ApplicationVerificationFailure)"

definition secure_connect ::
  "'tcp tls_stack \<Rightarrow> (bytes \<Rightarrow> bytes option) \<Rightarrow> bytes \<Rightarrow> 'tcp \<Rightarrow> (string, stream \<times> writer) res" where
  "secure_connect tls x509 expect tcp =
    (case tls (verify_server_cert x509 expect) tcp of
       Elapsed \<Rightarrow> Inl ''TLS handshake timed out''
     | Failed \<Rightarrow> Inl ''TLS handshake failed''
     | Done (_, s) \<Rightarrow> Inr s)"

text \<open>
  \<open>r\<close> is the roster the verifier reads during the handshake, \<open>r'\<close> the one read by
  the second check.
\<close>

definition secure_accept ::
  "'tcp tls_stack \<Rightarrow> (bytes \<Rightarrow> bytes option) \<Rightarrow> roster \<Rightarrow> roster \<Rightarrow> 'tcp
     \<Rightarrow> (string, (stream \<times> writer) \<times> bytes) res" where
  "secure_accept tls x509 r r' tcp =
    (case tls (verify_client_cert x509 r) tcp of
       Elapsed \<Rightarrow> Inl ''TLS handshake timed out''
     | Failed \<Rightarrow> Inl ''TLS handshake failed''
     | Done ([], s) \<Rightarrow> Inl ''peer presented no certificate''
     | Done (cert # _, s) \<Rightarrow>
         (case peer_key_from_cert x509 cert of
            Inl e \<Rightarrow> Inl e
          | Inr key \<Rightarrow>
              if \<not> is_trusted_key r' key then Inl ''peer key is no longer in the roster''
              else Inr (s, key)))"

section \<open>The accept task\<close>

type_synonym codec = "(message \<Rightarrow> bytes option) \<times> (bytes \<Rightarrow> message option)"

text \<open>The roster is read three times; each read may see another state of it.\<close>

definition accept_one ::
  "'tcp tls_stack \<Rightarrow> (bytes \<Rightarrow> bytes option) \<Rightarrow> codec \<Rightarrow> bool \<Rightarrow> hello \<Rightarrow> roster \<times> roster \<times> roster
     \<Rightarrow> 'tcp \<Rightarrow> internal option" where
  "accept_one tls x509 codec late local rs tcp =
    (case rs of (r1, r2, r3) \<Rightarrow>
      (case secure_accept tls x509 r1 r2 tcp of
         Inl _ \<Rightarrow> None
       | Inr ((s, w), key) \<Rightarrow>
           let expect_id = map_option rp_id (peer_for_key r3 key)
           in (case handshake (fst codec) (snd codec) late local expect_id s w of
                 (Inr hs, _, _) \<Rightarrow> Some (InboundReady (hs_peer hs) (hs_caps hs))
               | (Inl _, _, _) \<Rightarrow> None)))"

section \<open>The dial loop\<close>

definition drive_connection ::
  "string \<Rightarrow> string \<Rightarrow> caps \<Rightarrow> string option \<Rightarrow> nat \<Rightarrow> disconnect_reason \<Rightarrow> internal list" where
  "drive_connection d name cs addr out_tx reason = [ConnUp d name cs addr out_tx, ConnDown d reason]"

record transport_config =
  tc_local :: hello
  tc_keepalive :: keep_alive
  backoff_base :: nat
  backoff_max :: nat
  connect_timeout :: nat

text \<open>Durations in nanoseconds.\<close>

definition transport_config_new :: "hello \<Rightarrow> transport_config" where
  "transport_config_new local =
    \<lparr>tc_local = local, tc_keepalive = keep_alive_default, backoff_base = 1000000000,
     backoff_max = 60000000000, connect_timeout = 10000000000\<rparr>"

text \<open>
  What one pass meets: the address book and the roster it reads, how each address answers,
  whether the \<open>Hello\<close> exchange there takes too long, the text of an address, the channel
  and the end of the connection it makes, and the draw of the jitter.
\<close>

record 'tcp dial_env =
  de_addrs :: "socket_addr list"
  de_roster :: roster
  de_connect :: "socket_addr \<Rightarrow> 'tcp limited"
  de_late :: "socket_addr \<Rightarrow> bool"
  de_show :: "socket_addr \<Rightarrow> string"
  de_chan :: nat
  de_reason :: disconnect_reason
  de_rand :: "nat \<Rightarrow> nat"

fun dial_once ::
  "'tcp tls_stack \<Rightarrow> (bytes \<Rightarrow> bytes option) \<Rightarrow> codec \<Rightarrow> hello \<Rightarrow> 'tcp dial_env \<Rightarrow> bytes \<Rightarrow> string
     \<Rightarrow> socket_addr list \<Rightarrow> bool \<times> internal list" where
  "dial_once tls x509 codec local env expect d [] = (False, [])"
| "dial_once tls x509 codec local env expect d (addr # addrs) =
    (case de_connect env addr of
       Elapsed \<Rightarrow> dial_once tls x509 codec local env expect d addrs
     | Failed \<Rightarrow> dial_once tls x509 codec local env expect d addrs
     | Done tcp \<Rightarrow>
         (case secure_connect tls x509 expect tcp of
            Inl _ \<Rightarrow> dial_once tls x509 codec local env expect d addrs
          | Inr (s, w) \<Rightarrow>
              (case handshake (fst codec) (snd codec) (de_late env addr) local (Some d) s w of
                 (Inl _, _, _) \<Rightarrow> dial_once tls x509 codec local env expect d addrs
               | (Inr hs, _, _) \<Rightarrow>
                   (True, drive_connection d (hello_name (hs_peer hs)) (hs_caps hs)
                            (Some (de_show env addr)) (de_chan env) (de_reason env)))))"

text \<open>
  One turn of the loop: wait for the address book to change, or dial and then back off for
  the given time; \<open>None\<close> is the panic of the backoff.
\<close>

datatype dial_result = WaitAddrs | Dialled bool "internal list" nat

definition dial_turn ::
  "'tcp tls_stack \<Rightarrow> (bytes \<Rightarrow> bytes option) \<Rightarrow> codec \<Rightarrow> hello \<Rightarrow> string \<Rightarrow> 'tcp dial_env \<Rightarrow> backoff
     \<Rightarrow> (dial_result \<times> backoff) option" where
  "dial_turn tls x509 codec local d env b =
    (case (de_addrs env = [], key_for_id (de_roster env) d) of
       (False, Some expect) \<Rightarrow>
         let (ok, msgs) = dial_once tls x509 codec local env expect d (de_addrs env);
             b = (if ok then reset b else b)
         in (case next_delay (de_rand env) b of
               None \<Rightarrow> None
             | Some (delay, b) \<Rightarrow> Some (Dialled ok msgs delay, b))
     | _ \<Rightarrow> Some (WaitAddrs, b))"

fun dial_loop ::
  "'tcp tls_stack \<Rightarrow> (bytes \<Rightarrow> bytes option) \<Rightarrow> codec \<Rightarrow> hello \<Rightarrow> string \<Rightarrow> 'tcp dial_env list \<Rightarrow> backoff
     \<Rightarrow> dial_result list option" where
  "dial_loop tls x509 codec local d [] b = Some []"
| "dial_loop tls x509 codec local d (env # envs) b =
    (case dial_turn tls x509 codec local d env b of
       None \<Rightarrow> None
     | Some (t, b) \<Rightarrow> map_option (\<lambda>ts. t # ts) (dial_loop tls x509 codec local d envs b))"

section \<open>Lemmas\<close>

lemma handshake_Inr:
  "handshake enc dec late local expect r w = (Inr hs, r', w') \<Longrightarrow>
     (\<forall>d. expect = Some d \<longrightarrow> hello_id (hs_peer hs) = d) \<and> protocol_version (hs_peer hs) = PROTOCOL_VERSION"
  by (auto simp: handshake_def split: if_splits prod.splits sum.splits message.splits)

lemma peer_key_Inr: "peer_key_from_cert x509 c = Inr k \<Longrightarrow> x509 c = Some k \<and> arr32 k"
  by (auto simp: peer_key_from_cert_def arr32_def split: option.splits if_splits)

lemma verify_server_Inr:
  "arr32 k \<Longrightarrow> verify_server_cert x509 k c = Inr u \<Longrightarrow> peer_key_from_cert x509 c = Inr k"
  by (auto simp: verify_server_cert_def ct_eq_iff dest: peer_key_Inr split: sum.splits if_splits)

lemma verify_client_Inr:
  "verify_client_cert x509 r c = Inr u \<longleftrightarrow> (\<exists>k. peer_key_from_cert x509 c = Inr k \<and> is_trusted_key r k)"
  by (auto simp: verify_client_cert_def split: sum.splits)

lemma secure_accept_Inr:
  "secure_accept tls x509 r r' tcp = Inr (s, key) \<Longrightarrow>
     \<exists>c cs. tls (verify_client_cert x509 r) tcp = Done (c # cs, s) \<and> peer_key_from_cert x509 c = Inr key
            \<and> is_trusted_key r' key"
  by (auto simp: secure_accept_def split: limited.splits prod.splits list.splits sum.splits if_splits)

lemma secure_connect_Inr:
  "secure_connect tls x509 k tcp = Inr s \<Longrightarrow> \<exists>cs. tls (verify_server_cert x509 k) tcp = Done (cs, s)"
  by (auto simp: secure_connect_def split: limited.splits prod.splits)

lemma dial_once_True:
  "dial_once tls x509 codec local env k d as = (True, msgs) \<Longrightarrow>
     \<exists>addr tcp s w hs r' w'. addr \<in> set as \<and> de_connect env addr = Done tcp
       \<and> secure_connect tls x509 k tcp = Inr (s, w)
       \<and> handshake (fst codec) (snd codec) (de_late env addr) local (Some d) s w = (Inr hs, r', w')
       \<and> msgs = [ConnUp d (hello_name (hs_peer hs)) (hs_caps hs) (Some (de_show env addr)) (de_chan env),
                 ConnDown d (de_reason env)]"
  by (induction as)
    (auto simp: drive_connection_def split: limited.splits sum.splits prod.splits; blast)+

lemma dial_once_False: "dial_once tls x509 codec local env k d as = (False, msgs) \<Longrightarrow> msgs = []"
  by (induction as) (auto split: limited.splits sum.splits prod.splits)

lemma next_delay_le:
  assumes "next_delay rand b = Some (d, b')" "\<And>m. rand m \<le> m"
  shows "d \<le> max (current b) 1000000"
proof -
  let ?m = "(max (current b div 1000000) 1) mod 2 ^ 64"
  have "rand ?m \<le> max (current b div 1000000) 1"
    using assms(2)[of ?m] mod_less_eq_dividend le_trans by blast
  then have "rand ?m * 1000000 \<le> max (current b) 1000000" by (auto simp: max_def split: if_splits)
  then show ?thesis using assms(1) by (auto simp: next_delay_def Let_def split: if_splits)
qed

lemma reset_ok: "backoff_ok b \<Longrightarrow> backoff_ok (reset b)"
  by (simp add: backoff_ok_def reset_def)

text \<open>The pauses of the loop, in nanoseconds: at most a minute, a second after a connection.\<close>

fun pause_ok :: "dial_result \<Rightarrow> bool" where
  "pause_ok WaitAddrs = True"
| "pause_ok (Dialled ok msgs delay) \<longleftrightarrow> delay \<le> 60000000000 \<and> (ok \<longrightarrow> delay \<le> 1000000000)"

definition loop_backoff :: "backoff \<Rightarrow> bool" where
  "loop_backoff b \<longleftrightarrow> backoff_ok b \<and> base b = 1000000000 \<and> bmax b = 60000000000"

lemma dial_turn_goes_on:
  assumes "loop_backoff b" "\<And>n. de_rand env n \<le> n"
  shows "\<exists>t b'. dial_turn tls x509 codec local d env b = Some (t, b') \<and> pause_ok t \<and> loop_backoff b'"
proof (cases "de_addrs env = [] \<or> key_for_id (de_roster env) d = None")
  case True
  then have "dial_turn tls x509 codec local d env b = Some (WaitAddrs, b)"
    by (auto simp: dial_turn_def split: bool.splits option.splits)
  with assms(1) show ?thesis by simp
next
  case False
  then obtain key where k: "de_addrs env \<noteq> []" "key_for_id (de_roster env) d = Some key" by auto
  obtain ok msgs where o: "dial_once tls x509 codec local env key d (de_addrs env) = (ok, msgs)" by fastforce
  define b1 where "b1 = (if ok then reset b else b)"
  have b1: "backoff_ok b1" "base b1 = base b" "bmax b1 = bmax b" "ok \<longrightarrow> current b1 = base b"
    using assms(1) reset_ok[of b] by (auto simp: b1_def reset_def loop_backoff_def)
  from next_delay_ok[of b1 "de_rand env", OF b1(1) assms(2)] obtain delay b' where
    n: "next_delay (de_rand env) b1 = Some (delay, b')" "backoff_ok b'" "base b' = base b" "bmax b' = bmax b"
    using b1 by auto
  have t: "dial_turn tls x509 codec local d env b = Some (Dialled ok msgs delay, b')"
    using k o n(1) by (simp add: dial_turn_def b1_def)
  have "delay \<le> max (current b1) 1000000" by (rule next_delay_le[OF n(1) assms(2)])
  with b1 assms(1) have "pause_ok (Dialled ok msgs delay)" by (auto simp: backoff_ok_def loop_backoff_def)
  with t n assms(1) show ?thesis by (simp add: loop_backoff_def)
qed

lemma dial_loop_pauses:
  "loop_backoff b \<Longrightarrow> list_all (\<lambda>env. \<forall>n. de_rand env n \<le> n) envs \<Longrightarrow>
     \<exists>ts. dial_loop tls x509 codec local d envs b = Some ts \<and> length ts = length envs \<and> list_all pause_ok ts"
proof (induction envs arbitrary: b)
  case (Cons env envs)
  then obtain t b' where t: "dial_turn tls x509 codec local d env b = Some (t, b')" "pause_ok t" "loop_backoff b'"
    using dial_turn_goes_on[of b env tls x509 codec local d] by auto
  from Cons.IH[OF t(3)] Cons.prems obtain ts where
    "dial_loop tls x509 codec local d envs b' = Some ts" "length ts = length envs" "list_all pause_ok ts" by auto
  with t show ?case by simp
qed simp

section \<open>Properties\<close>

text \<open>
  C17. Whoever is let in is who it says it is: if the roster, loaded from a registry with one
  entry per device, does not change while a connection is accepted, a connection handed to
  the manager comes from a peer whose certificate carries the key pinned for exactly the
  device id in its \<open>Hello\<close>.
\<close>

theorem accepted_peer_owns_its_id:
  assumes "peers_wf ps" and "r = roster_load unb64 resolve r0 ps"
    and "accept_one tls x509 codec late local (r, r, r) tcp = Some msg"
  shows "\<exists>peer cs c certs s key. msg = InboundReady peer cs
    \<and> tls (verify_client_cert x509 r) tcp = Done (c # certs, s) \<and> peer_key_from_cert x509 c = Inr key
    \<and> is_trusted_id r (hello_id peer) \<and> key_for_id r (hello_id peer) = Some key"
proof -
  have wf: "roster_wf r" unfolding assms(2) by (rule load_wf[OF assms(1)])
  from assms(3) obtain s w key hs r' w' where a: "secure_accept tls x509 r r tcp = Inr ((s, w), key)"
    and h: "handshake (fst codec) (snd codec) late local (map_option rp_id (peer_for_key r key)) s w = (Inr hs, r', w')"
    and m: "msg = InboundReady (hs_peer hs) (hs_caps hs)"
    by (auto simp: accept_one_def Let_def split: sum.splits prod.splits)
  from secure_accept_Inr[OF a] obtain c certs where c: "tls (verify_client_cert x509 r) tcp = Done (c # certs, (s, w))"
    "peer_key_from_cert x509 c = Inr key" "is_trusted_key r key" by blast
  then obtain q where q: "peer_for_key r key = Some q"
    by (auto simp: is_trusted_key_def peer_for_key_def)
  with h have "hello_id (hs_peer hs) = rp_id q" by (auto dest: handshake_Inr)
  then show ?thesis
    using c m q ros.owner_key[OF wf] ros.owner_trusted[OF wf] by fastforce
qed

text \<open>
  Dialling is pinned: provided the TLS stack completes a handshake only if the verifier
  accepted the server's certificate, every connection a turn of the dial loop announces is
  with an address of the peer's book whose certificate carries exactly the key the roster
  pins for that peer; a peer without a pinned key is never dialled.
\<close>

theorem dialling_is_pinned:
  assumes "\<forall>v t certs s. tls v t = Done (certs, s) \<longrightarrow> certs \<noteq> [] \<and> v (hd certs) = Inr ()"
    and "r = roster_load unb64 resolve r0 ps" "de_roster env = r"
    and "dial_turn tls x509 codec local d env b = Some (Dialled ok msgs delay, b')" "msgs \<noteq> []"
  shows "\<exists>key addr tcp certs s. key_for_id r d = Some key \<and> addr \<in> set (de_addrs env)
    \<and> de_connect env addr = Done tcp \<and> tls (verify_server_cert x509 key) tcp = Done (certs, s)
    \<and> peer_key_from_cert x509 (hd certs) = Inr key"
proof -
  from assms(3,4) obtain key where k: "key_for_id r d = Some key"
    and o: "dial_once tls x509 codec local env key d (de_addrs env) = (ok, msgs)"
    by (auto simp: dial_turn_def Let_def split: bool.splits option.splits prod.splits)
  with assms(5) have "dial_once tls x509 codec local env key d (de_addrs env) = (True, msgs)"
    by (cases ok) (auto dest: dial_once_False)
  from dial_once_True[OF this] obtain addr tcp s w where a: "addr \<in> set (de_addrs env)"
    "de_connect env addr = Done tcp" "secure_connect tls x509 key tcp = Inr (s, w)" by blast
  from secure_connect_Inr[OF a(3)] obtain certs where c: "tls (verify_server_cert x509 key) tcp = Done (certs, (s, w))"
    by blast
  have "arr32 key" using k unfolding assms(2) by (auto dest!: load_key_for_id simp: key_bytes_def arr32_def split: option.splits if_splits)
  then have "peer_key_from_cert x509 (hd certs) = Inr key"
    using assms(1)[rule_format, OF c] by (auto dest: verify_server_Inr)
  with a c k show ?thesis by blast
qed

text \<open>
  The dial loop goes on: with the configured limits it never panics, whatever the
  network and the roster do, every pause is at most a minute, and the pause after a
  connection that had come up is at most a second.
\<close>

theorem dial_loop_goes_on:
  assumes "list_all (\<lambda>env. \<forall>n. de_rand env n \<le> n) envs"
    and "cfg = transport_config_new local"
  shows "\<exists>ts. dial_loop tls x509 codec local d envs (backoff_new (backoff_base cfg) (backoff_max cfg)) = Some ts
    \<and> length ts = length envs
    \<and> list_all pause_ok ts"
proof -
  have "loop_backoff (backoff_new (backoff_base cfg) (backoff_max cfg))"
    by (simp add: assms(2) transport_config_new_def backoff_new_def backoff_ok_def DURATION_MAX_def loop_backoff_def)
  then show ?thesis using assms(1) by (rule dial_loop_pauses)
qed

definition sec_ps :: peers where
  "sec_ps = [ex_peer ''a'' ''aa'' (CHR ''1'')]"

definition sec_roster :: roster where
  "sec_roster = roster_load ex_unb64 (\<lambda>_. None) roster_empty sec_ps"

text \<open>A TLS stack in which the peer presents a certificate that is its key and says \<open>Hello\<close>.\<close>

definition sec_tls :: "(bytes \<times> string) tls_stack" where
  "sec_tls v t =
    (if v (fst t) = Inr ()
     then Done ([fst t], \<lparr>s_data = frame_bytes hello_enc (Hello (ex_hello (snd t))), s_fail = None\<rparr>, empty_writer)
     else Failed)"

lemma sec_owner: "peer_for_key sec_roster (str_bytes (ex_key (CHR ''1''))) =
    Some \<lparr>rp_id = ''aa'', rp_name = ''a'', rp_key = str_bytes (ex_key (CHR ''1'')), rp_addrs = []\<rparr>"
  unfolding sec_roster_def sec_ps_def peer_for_key_def
  by (rule ex_roster_lookup) (simp add: is_ascii_digit_def)

lemma sec_key: "key_for_id sec_roster ''aa'' = Some (str_bytes (ex_key (CHR ''1'')))"
proof -
  have "roster_wf sec_roster" unfolding sec_roster_def by (rule load_wf) (simp add: sec_ps_def peers_wf_def)
  from ros.owner_key[OF this] sec_owner show ?thesis by fastforce
qed

lemma sec_handshake:
  assumes "e = None \<or> e = Some d" "length d \<le> 100"
  shows "\<exists>r w. handshake hello_enc hello_dec False (ex_hello ''cc'') e
       \<lparr>s_data = frame_bytes hello_enc (Hello (ex_hello d)), s_fail = None\<rparr> empty_writer
     = (Inr \<lparr>hs_peer = ex_hello d, hs_caps = intersect caps_ALL caps_ALL\<rparr>, r, w)"
proof -
  obtain res r w where h: "handshake hello_enc hello_dec False (ex_hello ''cc'') e
       \<lparr>s_data = frame_bytes hello_enc (Hello (ex_hello d)) @ [], s_fail = None\<rparr> empty_writer = (res, r, w)" by (metis prod_cases3)
  have "res = Inr \<lparr>hs_peer = ex_hello d, hs_caps = intersect caps_ALL caps_ALL\<rparr>"
    using handshake_one[OF ex_hello_ok ex_hello_ok _ h] assms by (auto simp: ex_hello_def PROTOCOL_VERSION_def empty_writer_def)
  with h show ?thesis by auto
qed

lemma sec_peer_key: "peer_key_from_cert Some (str_bytes (ex_key c)) = Inr (str_bytes (ex_key c))"
  by (simp add: peer_key_from_cert_def ex_key_def)

lemma sec_accept:
  assumes "map_option rp_id (peer_for_key r3 (str_bytes (ex_key (CHR ''1'')))) \<in> {None, Some d}" "length d \<le> 100"
  shows "accept_one sec_tls Some (hello_enc, hello_dec) False (ex_hello ''cc'') (sec_roster, sec_roster, r3)
      (str_bytes (ex_key (CHR ''1'')), d) = Some (InboundReady (ex_hello d) (intersect caps_ALL caps_ALL))"
proof -
  let ?k = "str_bytes (ex_key (CHR ''1''))"
  have t: "is_trusted_key sec_roster ?k" using sec_owner by (simp add: is_trusted_key_def peer_for_key_def)
  then have "sec_tls (verify_client_cert Some sec_roster) (?k, d)
      = Done ([?k], \<lparr>s_data = frame_bytes hello_enc (Hello (ex_hello d)), s_fail = None\<rparr>, empty_writer)"
    by (simp add: sec_tls_def verify_client_Inr sec_peer_key)
  then have "secure_accept sec_tls Some sec_roster sec_roster (?k, d)
      = Inr ((\<lparr>s_data = frame_bytes hello_enc (Hello (ex_hello d)), s_fail = None\<rparr>, empty_writer), ?k)"
    using t by (simp add: secure_accept_def sec_peer_key)
  then show ?thesis
    using sec_handshake[of "map_option rp_id (peer_for_key r3 ?k)" d] assms by (auto simp: accept_one_def)
qed

theorem accepted_peer_owns_its_id_witness:
  "is_trusted_id sec_roster (hello_id (ex_hello ''aa''))"
proof -
  have a: "accept_one sec_tls Some (hello_enc, hello_dec) False (ex_hello ''cc'') (sec_roster, sec_roster, sec_roster)
      (str_bytes (ex_key (CHR ''1'')), ''aa'') = Some (InboundReady (ex_hello ''aa'') (intersect caps_ALL caps_ALL))"
    by (rule sec_accept) (simp_all add: sec_owner)
  have w: "peers_wf sec_ps" by (simp add: sec_ps_def peers_wf_def)
  from accepted_peer_owns_its_id[OF w sec_roster_def a] show ?thesis by auto
qed

definition sec_addr :: socket_addr where
  "sec_addr = socket_new (V4 [192, 168, 1, 7]) 47800"

definition sec_env :: "(bytes \<times> string) dial_env" where
  "sec_env = \<lparr>de_addrs = [sec_addr], de_roster = sec_roster,
     de_connect = (\<lambda>_. Done (str_bytes (ex_key (CHR ''1'')), ''aa'')), de_late = (\<lambda>_. False),
     de_show = (\<lambda>_. ''a''), de_chan = 0, de_reason = PeerClosed, de_rand = (\<lambda>n. n)\<rparr>"

lemma sec_dial:
  "dial_turn sec_tls Some (hello_enc, hello_dec) (ex_hello ''cc'') ''aa'' sec_env (backoff_new 1000000000 60000000000)
   = Some (Dialled True [ConnUp ''aa'' [] (intersect caps_ALL caps_ALL) (Some ''a'') 0, ConnDown ''aa'' PeerClosed] 1000000000,
           \<lparr>base = 1000000000, bmax = 60000000000, current = 2000000000\<rparr>)"
proof -
  let ?k = "str_bytes (ex_key (CHR ''1''))"
  have "arr32 ?k" by (simp add: arr32_def ex_key_def)
  then have "verify_server_cert Some ?k ?k = Inr ()" by (simp add: verify_server_cert_def sec_peer_key ct_eq_iff)
  then have "secure_connect sec_tls Some ?k (?k, ''aa'')
      = Inr (\<lparr>s_data = frame_bytes hello_enc (Hello (ex_hello ''aa'')), s_fail = None\<rparr>, empty_writer)"
    by (simp add: secure_connect_def sec_tls_def)
  then have "dial_once sec_tls Some (hello_enc, hello_dec) (ex_hello ''cc'') sec_env ?k ''aa'' [sec_addr]
      = (True, [ConnUp ''aa'' [] (intersect caps_ALL caps_ALL) (Some ''a'') 0, ConnDown ''aa'' PeerClosed])"
    using sec_handshake[of "Some ''aa''" "''aa''"]
    by (auto simp: sec_env_def drive_connection_def ex_hello_def)
  then show ?thesis
    by (simp add: dial_turn_def sec_key sec_env_def next_delay_def reset_def backoff_new_def DURATION_MAX_def)
qed

theorem dialling_is_pinned_witness:
  "\<exists>key addr tcp certs s. key_for_id sec_roster ''aa'' = Some key \<and> addr \<in> set (de_addrs sec_env)
    \<and> de_connect sec_env addr = Done tcp \<and> sec_tls (verify_server_cert Some key) tcp = Done (certs, s)
    \<and> peer_key_from_cert Some (hd certs) = Inr key"
  by (rule dialling_is_pinned[OF _ sec_roster_def _ sec_dial])
    (simp_all add: sec_tls_def sec_env_def)

theorem dial_loop_goes_on_witness:
  "\<exists>ts. dial_loop sec_tls Some (hello_enc, hello_dec) (ex_hello ''cc'') ''aa'' (replicate 20 sec_env)
      (backoff_new 1000000000 60000000000) = Some ts \<and> length ts = 20"
  using dial_loop_goes_on[of "replicate 20 sec_env", OF _ refl, of sec_tls Some "(hello_enc, hello_dec)" "ex_hello ''cc''" "''aa''"]
  by (auto simp: transport_config_new_def sec_env_def list_all_iff)

text \<open>
  The accept task reads the roster again after the checks; if the key was removed in
  between, no identity is expected and the peer is accepted under any id it names.
\<close>

theorem unpaired_during_accept_takes_any_id:
  "accept_one sec_tls Some (hello_enc, hello_dec) False (ex_hello ''cc'') (sec_roster, sec_roster, roster_empty)
      (str_bytes (ex_key (CHR ''1'')), ''bb'') = Some (InboundReady (ex_hello ''bb'') (intersect caps_ALL caps_ALL))"
  by (rule sec_accept) (simp_all add: peer_for_key_def roster_empty_def)

end
