(* ===== verification/Cli.thy ===== *)
theory Cli
  imports Daemon Pairing Secure
begin

text \<open>
  \<open>crates/qdrop/src/main.rs\<close>: the commands of the client that change the registry
  (\<open>pair\<close>, \<open>pair --remove\<close>, \<open>auth --remove\<close>) or format something for another program,
  and the quoting of \<open>crates/qdropd/src/notify.rs\<close>. Base64 is the
  parameter \<open>b64\<close>, Unicode's alphanumeric class the parameter \<open>alnum\<close>.
\<close>

section \<open>Pairing and unpairing\<close>

datatype cli_error = CliLoad load_error | CliPair pair_error | CliBadPin | CliSave | NoSuchPeer

definition prompt_pin :: "string \<Rightarrow> (cli_error, string) res" where
  "prompt_pin line =
    (let pin = trim line in
     if length pin \<noteq> 6 \<or> \<not> list_all is_ascii_digit pin then Inl CliBadPin else Inr line)"

text \<open>What is remembered of the target: a trailing port is stripped.\<close>

definition pair_address :: "string \<Rightarrow> string" where
  "pair_address t =
    (case rsplit_once (CHR '':'') t of
       Some (host, pt) \<Rightarrow> if host \<noteq> [] \<and> parse_uint 65535 pt \<noteq> None then host else t
     | None \<Rightarrow> t)"

definition record_peer ::
  "(bytes \<Rightarrow> string) \<Rightarrow> bool \<Rightarrow> (load_error, peers) res \<Rightarrow> paired \<Rightarrow> string option \<Rightarrow> (cli_error, peers) res" where
  "record_peer b64 save_ok reg p addr =
    (case reg of
       Inl e \<Rightarrow> Inl (CliLoad e)
     | Inr ps \<Rightarrow>
         let peer = peer_new b64 (pd_name p) (pd_id p) (pd_key p);
             peer = peer\<lparr>address := (case addr of
                 Some a \<Rightarrow> Some a
               | None \<Rightarrow> Option.bind (find_by_id ps (pd_id p)) address)\<rparr>
         in if save_ok then Inr (upsert ps peer) else Inl CliSave)"

definition cmd_unpair :: "bool \<Rightarrow> (load_error, peers) res \<Rightarrow> string \<Rightarrow> (cli_error, peers) res" where
  "cmd_unpair save_ok reg name =
    (case reg of
       Inl e \<Rightarrow> Inl (CliLoad e)
     | Inr ps \<Rightarrow>
         (case remove_by_name ps name of
            (True, ps') \<Rightarrow> if save_ok then Inr ps' else Inl CliSave
          | (False, _) \<Rightarrow> Inl NoSuchPeer))"

text \<open>
  \<open>offer\<close> and \<open>request\<close> are the outcomes of the two sides of the exchange; the request
  is given the trimmed PIN that was typed.
\<close>

definition cmd_pair ::
  "(bytes \<Rightarrow> string) \<Rightarrow> bool \<Rightarrow> (load_error, peers) res \<Rightarrow> (pair_error, paired) res
     \<Rightarrow> (string \<Rightarrow> string \<Rightarrow> (pair_error, paired) res) \<Rightarrow> string option \<Rightarrow> string
     \<Rightarrow> (cli_error, paired \<times> peers) res" where
  "cmd_pair b64 save_ok reg offer request target typed =
    (case (case target of
             None \<Rightarrow> (case offer of Inl e \<Rightarrow> Inl (CliPair e) | Inr p \<Rightarrow> Inr p)
           | Some t \<Rightarrow>
               (case prompt_pin typed of
                  Inl e \<Rightarrow> Inl e
                | Inr pin \<Rightarrow> (case request t (trim pin) of Inl e \<Rightarrow> Inl (CliPair e) | Inr p \<Rightarrow> Inr p))) of
       Inl e \<Rightarrow> Inl e
     | Inr p \<Rightarrow>
         (case record_peer b64 save_ok reg p (map_option pair_address target) of
            Inl e \<Rightarrow> Inl e
          | Inr ps \<Rightarrow> Inr (p, ps)))"

text \<open>\<open>auth --remove\<close>: the boolean says whether the device had been authorised.\<close>

definition cmd_auth_remove :: "bool \<Rightarrow> (load_error, peers) res \<Rightarrow> string \<Rightarrow> (cli_error, bool \<times> peers) res" where
  "cmd_auth_remove save_ok reg name =
    (case reg of
       Inl e \<Rightarrow> Inl (CliLoad e)
     | Inr ps \<Rightarrow>
         (case find (\<lambda>p. peer_name p = name \<or> peer_id p = name) ps of
            None \<Rightarrow> Inl NoSuchPeer
          | Some p \<Rightarrow>
              if authorized p
              then (case update_any name (\<lambda>p. p\<lparr>authorized := False\<rparr>) ps of
                      Some ps' \<Rightarrow> if save_ok then Inr (True, ps') else Inl CliSave
                    | None \<Rightarrow> Inl NoSuchPeer)
              else Inr (False, ps)))"

text \<open>The rows of \<open>peers\<close>.\<close>

definition peer_status :: "u64 \<Rightarrow> daemon_state \<Rightarrow> peer \<Rightarrow> string \<times> string" where
  "peer_status now st p =
    (case online st (peer_id p) of
       Some since \<Rightarrow> (''online'', ''since '' @ ago now since)
     | None \<Rightarrow>
         (case last_seen_at st (peer_id p) of
            Some seen \<Rightarrow> (''offline'', ago now seen)
          | None \<Rightarrow> (''offline'', ''never'')))"

section \<open>Quoting\<close>

definition esc_quote :: "char \<Rightarrow> string" where
  "esc_quote c = (if c = CHR 0x27 then [CHR 0x27, CHR 0x5C, CHR 0x27, CHR 0x27] else [c])"

definition shell_quote :: "(nat \<Rightarrow> bool) \<Rightarrow> string \<Rightarrow> string" where
  "shell_quote alnum s =
    (if list_all (\<lambda>p. case fst p of Some u \<Rightarrow> alnum u \<or> u \<in> {45, 95, 46} | None \<Rightarrow> False) (chars s)
     then s
     else [CHR 0x27] @ concat (map esc_quote s) @ [CHR 0x27])"

text \<open>The special characters are ASCII, so bytes and characters of a UTF-8 text agree here.\<close>

definition applescript_char :: "char \<Rightarrow> string" where
  "applescript_char c =
    (if c = CHR 0x22 \<or> c = CHR 0x5C then [CHR 0x5C, c] else if c = CHR 0x0A then '' '' else [c])"

definition applescript_quote :: "string \<Rightarrow> string" where
  "applescript_quote s = [CHR 0x22] @ concat (map applescript_char s) @ [CHR 0x22]"

section \<open>What the quoted texts are read as\<close>

text \<open>
  How a POSIX shell reads one word: the flag says whether it is inside single quotes. The
  result is the word and what follows it; \<open>None\<close> for characters with a special meaning.
\<close>

definition sh_blank :: "char \<Rightarrow> bool" where
  "sh_blank c \<longleftrightarrow> c = CHR '' '' \<or> c = CHR 0x0A \<or> c = CHR 0x09"

definition sh_meta :: "char \<Rightarrow> bool" where
  "sh_meta c \<longleftrightarrow> c \<in> set ''|&;<>()$`*?[]#~=%!{}^,:@+/'' \<or> c = CHR 0x22"

fun sh_word :: "bool \<Rightarrow> string \<Rightarrow> (string \<times> string) option" where
  "sh_word True [] = None"
| "sh_word True (c # cs) =
     (if c = CHR 0x27 then sh_word False cs else map_option (\<lambda>(w, r). (c # w, r)) (sh_word True cs))"
| "sh_word False [] = Some ([], [])"
| "sh_word False [c] =
     (if c = CHR 0x27 \<or> c = CHR 0x5C then None
      else if sh_blank c then Some ([], [c]) else if sh_meta c then None else Some ([c], []))"
| "sh_word False (c # d # cs) =
     (if c = CHR 0x27 then sh_word True (d # cs)
      else if c = CHR 0x5C then map_option (\<lambda>(w, r). (d # w, r)) (sh_word False cs)
      else if sh_blank c then Some ([], c # d # cs)
      else if sh_meta c then None
      else map_option (\<lambda>(w, r). (c # w, r)) (sh_word False (d # cs)))"

text \<open>An AppleScript string literal: the string and what follows it.\<close>

fun as_chars :: "string \<Rightarrow> (string \<times> string) option" where
  "as_chars [] = None"
| "as_chars [c] = (if c = CHR 0x22 then Some ([], []) else None)"
| "as_chars (c # d # cs) =
     (if c = CHR 0x22 then Some ([], d # cs)
      else if c = CHR 0x5C then map_option (\<lambda>(w, r). (d # w, r)) (as_chars cs)
      else map_option (\<lambda>(w, r). (c # w, r)) (as_chars (d # cs)))"

definition as_literal :: "string \<Rightarrow> (string \<times> string) option" where
  "as_literal s = (case s of c # cs \<Rightarrow> if c = CHR 0x22 then as_chars cs else None | [] \<Rightarrow> None)"

lemma as_chars_quoted:
  "as_chars (concat (map applescript_char s) @ CHR 0x22 # rest) =
     Some (map (\<lambda>c. if c = CHR 0x0A then CHR '' '' else c) s, rest)"
proof (induction s)
  case Nil
  then show ?case by (cases rest) simp_all
next
  case (Cons c s)
  let ?t = "concat (map applescript_char s) @ CHR 0x22 # rest"
  obtain d t where t: "?t = d # t" by (cases ?t) auto
  have "as_chars (applescript_char c @ ?t) = Some ((if c = CHR 0x0A then CHR '' '' else c) # map (\<lambda>c. if c = CHR 0x0A then CHR '' '' else c) s, rest)"
    using Cons unfolding t by (auto simp: applescript_char_def)
  then show ?case by simp
qed

lemma sh_quoted:
  "sh_word True (concat (map esc_quote s) @ CHR 0x27 # rest) = map_option (\<lambda>(w, r). (s @ w, r)) (sh_word False rest)"
proof (induction s)
  case Nil
  then show ?case by (cases "sh_word False rest") simp_all
next
  case (Cons c s)
  let ?t = "concat (map esc_quote s) @ CHR 0x27 # rest"
  obtain d t where t: "?t = d # t" by (cases ?t) auto
  have "sh_word True (esc_quote c @ ?t) = map_option (\<lambda>(w, r). (c # w, r)) (sh_word True ?t)"
    unfolding t by (auto simp: esc_quote_def)
  with Cons show ?case by (simp add: option.map_comp comp_def case_prod_beta)
qed

lemma special_chars:
  "sh_blank c \<or> sh_meta c \<or> c = CHR 0x27 \<or> c = CHR 0x5C \<Longrightarrow>
     \<not> is_ascii_digit c \<and> of_char (ascii_lower c) \<notin> {97 ..< 123 :: nat} \<and> of_char c \<notin> {45, 95, 46 :: nat}"
  by (auto simp: sh_blank_def sh_meta_def is_ascii_digit_def ascii_lower_def Let_def)

lemma sh_plain:
  "list_all (\<lambda>c. \<not> sh_blank c \<and> \<not> sh_meta c \<and> c \<noteq> CHR 0x27 \<and> c \<noteq> CHR 0x5C) s \<Longrightarrow>
     rest = [] \<or> sh_blank (hd rest) \<Longrightarrow> sh_word False (s @ rest) = Some (s, rest)"
proof (induction s)
  case Nil
  then show ?case by (cases rest; cases "tl rest") (auto simp: sh_blank_def)
next
  case (Cons c s)
  then show ?case by (cases "s @ rest") auto
qed

lemma sh_rest: "rest = [] \<or> sh_blank (hd rest) \<Longrightarrow> sh_word False rest = Some ([], rest)"
  using sh_plain[of "[]" rest] by simp

text \<open>What \<open>record_peer\<close> stored is what a daemon loads.\<close>

lemma recorded_key_is_loaded:
  assumes "record_peer b64 True (Inr ps) p addr = Inr ps'" "peers_wf ps"
    and "unb64 (trim (b64 (pd_key p))) = Some (pd_key p)" "length (pd_key p) = 32"
  shows "is_trusted_key (roster_load unb64 resolve r ps') (pd_key p)"
    "key_for_id (roster_load unb64 resolve r ps') (pd_id p) = Some (pd_key p)"
proof -
  from assms(1) obtain a where ps': "ps' = upsert ps ((peer_new b64 (pd_name p) (pd_id p) (pd_key p))\<lparr>address := a\<rparr>)"
    by (auto simp: record_peer_def Let_def)
  let ?q = "(peer_new b64 (pd_name p) (pd_id p) (pd_key p))\<lparr>address := a\<rparr>"
  have q: "upserted ps ?q \<in> set ps'" "peer_id (upserted ps ?q) = pd_id p"
    by (simp_all add: ps' upsert_eq peer_new_def)
  have k: "key_bytes unb64 (upserted ps ?q) = Inr (pd_key p)"
    using assms(3,4) by (simp add: key_bytes_def peer_new_def)
  have "peers_wf ps'" unfolding ps' by (rule upsert_wf[OF assms(2)])
  from load_key_for_wf_id[OF this q(1) k] q k show "is_trusted_key (roster_load unb64 resolve r ps') (pd_key p)"
    "key_for_id (roster_load unb64 resolve r ps') (pd_id p) = Some (pd_key p)"
    by (auto simp: load_trusted_key)
qed

section \<open>Properties\<close>

text \<open>
  Pairing takes effect: after the client has stored what the exchange returned and the
  daemon has noticed the new file, the daemon trusts exactly the key that was authenticated
  for that device, whatever entry the device had before, and the new entry is not authorised
  to send unattended.
\<close>

theorem pairing_establishes_trust:
  assumes "peers_wf ps" "unb64 (trim (b64 (pd_key p))) = Some (pd_key p)" "length (pd_key p) = 32"
    and "cmd_pair b64 True (Inr ps) offer request target typed = Inr (p, ps')"
    and "now \<noteq> prev" "roster_reload unb64 resolve now (Inr ps') (prev, r) = ((prev', r'), told)"
  shows "told \<and> is_trusted_key r' (pd_key p) \<and> key_for_id r' (pd_id p) = Some (pd_key p)
    \<and> \<not> is_authorized ps' (pd_id p) \<and> (d \<noteq> pd_id p \<longrightarrow> find_by_id ps' d = find_by_id ps d)"
proof -
  from assms(4) obtain addr where rec: "record_peer b64 True (Inr ps) p addr = Inr ps'"
    by (auto simp: cmd_pair_def split: option.splits sum.splits)
  then obtain a where ps': "ps' = upsert ps ((peer_new b64 (pd_name p) (pd_id p) (pd_key p))\<lparr>address := a\<rparr>)" (is "_ = upsert ps ?q")
    by (auto simp: record_peer_def Let_def)
  have "\<not> authorized (upserted ps ?q)" by (simp add: upserted_def upsert_def Let_def peer_new_def)
  moreover have "r' = roster_load unb64 resolve r ps'" "told" using assms(5,6) by (auto simp: roster_reload_def)
  ultimately show ?thesis
    using recorded_key_is_loaded[OF rec assms(1), of unb64, OF assms(2,3)] by (auto simp: ps' is_authorized_def find_by_id_upsert peer_new_def)
qed

definition cli_paired :: paired where
  "cli_paired = \<lparr>pd_id = ''id-b'', pd_name = ''b'', pd_key = str_bytes (ex_key (CHR ''1''))\<rparr>"

theorem pairing_establishes_trust_witness:
  "is_trusted_key (snd (fst (roster_reload ex_unb64 (\<lambda>_. None) (Some 2)
      (Inr (upsert [] ((peer_new (\<lambda>_. ex_key (CHR ''1'')) ''b'' ''id-b'' (pd_key cli_paired))\<lparr>address := None\<rparr>)))
      (Some 1, roster_empty)))) (pd_key cli_paired)"
proof -
  let ?ps = "upsert [] ((peer_new (\<lambda>_. ex_key (CHR ''1'')) ''b'' ''id-b'' (pd_key cli_paired))\<lparr>address := None\<rparr>)"
  have "is_ascii_digit (CHR ''1'')" by (simp add: is_ascii_digit_def)
  from ex_key_bytes[OF this, of "''b''" "''id-b''"] have k: "ex_unb64 (trim (ex_key (CHR ''1''))) = Some (pd_key cli_paired)"
    by (simp add: key_bytes_def ex_peer_def cli_paired_def split: option.splits if_splits)
  have c: "cmd_pair (\<lambda>_. ex_key (CHR ''1'')) True (Inr []) (Inr cli_paired) (\<lambda>_ _. Inl BadPin) None [] = Inr (cli_paired, ?ps)"
    by (simp add: cmd_pair_def record_peer_def cli_paired_def find_by_id_def peer_new_def)
  obtain prev' r' told where r: "roster_reload ex_unb64 (\<lambda>_. None) (Some 2) (Inr ?ps) (Some 1, roster_empty) = ((prev', r'), told)"
    by (metis prod.collapse)
  have "length (pd_key cli_paired) = 32" by (simp add: cli_paired_def ex_key_def)
  from pairing_establishes_trust[OF _ k this c _ r] show ?thesis unfolding r by (simp add: peers_wf_def)
qed

text \<open>
  The command printed for the other device is read back by a shell as the device name:
  whatever (ASCII, non-empty) name was configured, the quoted form is one word with exactly
  that value.
\<close>

theorem shell_quote_roundtrip:
  assumes "s \<noteq> []" "list_all (\<lambda>c. of_char c < (128 :: nat)) s" "rest = [] \<or> sh_blank (hd rest)"
    and "\<forall>c. alnum (of_char c) \<and> of_char c < (128 :: nat) \<longrightarrow> is_ascii_digit c \<or> of_char (ascii_lower c) \<in> {97 ..< 123 :: nat}"
  shows "sh_word False (shell_quote alnum s @ rest) = Some (s, rest)"
proof (cases "list_all (\<lambda>p. case fst p of Some u \<Rightarrow> alnum u \<or> u \<in> {45, 95, 46} | None \<Rightarrow> False) (chars s)")
  case True
  have "list_all (\<lambda>c. alnum (of_char c) \<or> of_char c \<in> {45, 95, 46 :: nat}) s"
    using True by (simp add: chars_ascii[OF assms(2)] list_all_iff)
  have "list_all (\<lambda>c. \<not> sh_blank c \<and> \<not> sh_meta c \<and> c \<noteq> CHR 0x27 \<and> c \<noteq> CHR 0x5C) s"
    using assms(2,4) special_chars \<open>list_all (\<lambda>c. alnum (of_char c) \<or> of_char c \<in> {45, 95, 46 :: nat}) s\<close>
    unfolding list_all_iff by blast
  with True assms(3) show ?thesis by (simp add: shell_quote_def sh_plain)
next
  case False
  have "sh_word False (shell_quote alnum s @ rest) = sh_word True (concat (map esc_quote s) @ CHR 0x27 # rest)"
    using False by (cases "concat (map esc_quote s) @ CHR 0x27 # rest") (auto simp: shell_quote_def)
  also have "\<dots> = Some (s, rest)" by (simp add: sh_quoted sh_rest[OF assms(3)])
  finally show ?thesis .
qed

theorem shell_quote_roundtrip_witness:
  "sh_word False (shell_quote (\<lambda>u. 48 \<le> u \<and> u < 58) [CHR ''a'', CHR 0x27, CHR ''$''] @ '' x'') = Some ([CHR ''a'', CHR 0x27, CHR ''$''], '' x'')"
  by (rule shell_quote_roundtrip) (simp_all add: sh_blank_def is_ascii_digit_def)

text \<open>
  A notification cannot break out of the script it is put into: whatever a peer chose as
  a file name or a link, the quoted text is one AppleScript string literal, whose value is
  the text with line feeds replaced by blanks, and what follows it is untouched.
\<close>

theorem notification_text_is_one_literal:
  "as_literal (applescript_quote s @ rest) = Some (map (\<lambda>c. if c = CHR 0x0A then CHR '' '' else c) s, rest)"
  by (simp add: as_literal_def applescript_quote_def as_chars_quoted)

text \<open>
  The address remembered after pairing with an IPv6 address is damaged when its last
  group reads as a port number: pairing with \<open>fd00::1\<close> stores \<open>fd00:\<close>, which is no
  address any more.
\<close>

theorem ipv6_pair_address_is_damaged:
  "pair_address ''fd00::1'' = ''fd00:'' \<and> parse_ip ''fd00::1'' \<noteq> None \<and> parse_ip (pair_address ''fd00::1'') = None"
proof -
  note parse = parse_ip_def parse_ipv4_def parse_ipv6_def colon_groups_def parse_group_def is_ascii_hexdigit_def hex_val_def
  have "rsplit_once (CHR '':'') ''fd00::1'' = Some (''fd00:'', ''1'')" by code_simp
  moreover have "parse_uint 65535 ''1'' = Some 1" by (simp add: parse_uint_def is_ascii_digit_def digits_val_def)
  ultimately have "pair_address ''fd00::1'' = ''fd00:''" by (simp add: pair_address_def)
  moreover have "parse_ip ''fd00:'' = None" "parse_ip ''fd00::1'' \<noteq> None" by (simp_all add: parse)
  ultimately show ?thesis by simp
qed

end
