(* ===== verification/Client.thy ===== *)
theory Client
  imports Ctl_Wire Cli
begin

text \<open>
  \<open>crates/qdrop/src/main.rs\<close> and \<open>cli.rs\<close>: the commands that talk to the daemon over the
  control socket, and the ones that only read files. A command gives what it prints and how
  it ends; \<open>ask\<close> is the control channel (\<open>control::request\_json\<close>), which may change the
  state \<open>'d\<close> of the daemon behind it. The \<open>Debug\<close> form of a string and the pretty printer of
  JSON are parameters.
\<close>

section \<open>Output\<close>

record outcome =
  out_text :: string
  err_text :: string
  out_res :: "(string, unit) res"

definition done_with :: "string \<Rightarrow> outcome" where
  "done_with t = \<lparr>out_text = t, err_text = [], out_res = Inr ()\<rparr>"

definition bail :: "string \<Rightarrow> outcome" where
  "bail e = \<lparr>out_text = [], err_text = [], out_res = Inl e\<rparr>"

type_synonym 'd ask = "json \<Rightarrow> 'd \<Rightarrow> (string, json) res \<times> 'd"

text \<open>\<open>slice::join\<close>.\<close>

fun join :: "string \<Rightarrow> string list \<Rightarrow> string" where
  "join sep [] = []"
| "join sep [x] = x"
| "join sep (x # y # ys) = x @ sep @ join sep (y # ys)"

text \<open>\<open>{:<n}\<close> and \<open>{:>n}\<close> count characters.\<close>

definition pad :: "nat \<Rightarrow> string \<Rightarrow> string" where
  "pad n s = s @ replicate (n - length (chars s)) (CHR '' '')"

definition pad_left :: "nat \<Rightarrow> string \<Rightarrow> string" where
  "pad_left n s = replicate (n - length (chars s)) (CHR '' '') @ s"

definition str_or :: "string \<Rightarrow> string \<Rightarrow> json \<Rightarrow> string" where
  "str_or k d j = or_else (Option.bind (jget k j) as_str) d"

definition arr_or_empty :: "string \<Rightarrow> json \<Rightarrow> json list" where
  "arr_or_empty k j = or_else (Option.bind (jget k j) as_array) []"

definition error_of :: "json \<Rightarrow> string" where
  "error_of j = str_or ''error'' ''failed'' j"

definition json_ok_msg :: "json \<Rightarrow> string \<Rightarrow> outcome" where
  "json_ok_msg resp msg = (if flag ''ok'' resp then done_with (msg @ newline) else bail (error_of resp))"

text \<open>The rest of a command once the daemon has answered; no answer is the end.\<close>

definition with_answer :: "'d ask \<Rightarrow> json \<Rightarrow> 'd \<Rightarrow> (json \<Rightarrow> outcome) \<Rightarrow> outcome \<times> 'd" where
  "with_answer ask req d k = (case ask req d of (Inl e, d) \<Rightarrow> (bail e, d) | (Inr resp, d) \<Rightarrow> (k resp, d))"

section \<open>Paste, copy, open, authorise\<close>

definition cmd_paste :: "'d ask \<Rightarrow> 'd \<Rightarrow> outcome \<times> 'd" where
  "cmd_paste ask d =
    with_answer ask (simple_req ''clip_get'') d (\<lambda>resp.
      if \<not> flag ''ok'' resp then bail (error_of resp)
      else done_with (case Option.bind (jget ''text'' resp) as_str of Some t \<Rightarrow> t | None \<Rightarrow> []))"

definition cmd_copy :: "'d ask \<Rightarrow> bool \<Rightarrow> (string, string) res \<Rightarrow> 'd \<Rightarrow> outcome \<times> 'd" where
  "cmd_copy ask quiet stdin d =
    (case stdin of
       Inl e \<Rightarrow> (bail e, d)
     | Inr text \<Rightarrow>
         with_answer ask (clip_set_req text) d (\<lambda>resp.
           if \<not> flag ''ok'' resp then bail (error_of resp)
           else (if quiet then done_with []
                 else (done_with [])\<lparr>err_text := ''Copied '' @ dec_str (length text) @ '' bytes to the shared clipboard.'' @ newline\<rparr>)))"

definition cmd_open :: "(string \<Rightarrow> string) \<Rightarrow> 'd ask \<Rightarrow> string \<Rightarrow> string option \<Rightarrow> 'd \<Rightarrow> outcome \<times> 'd" where
  "cmd_open dbg ask url dst d =
    (if \<not> is_allowed_url url
     then (bail (''refusing '' @ dbg url @ '': only '' @ join '', '' URL_SCHEME_ALLOWLIST @ '' URLs are allowed''), d)
     else with_answer ask (open_req url dst) d (\<lambda>resp.
       if flag ''ok'' resp
       then done_with (''Opened on '' @ dec_str (or_else (Option.bind (jget ''dispatched'' resp) as_num) 0) @ '' peer(s).'' @ newline)
       else bail (error_of resp)))"

text \<open>\<open>auth\<close> without an argument lists the authorised devices.\<close>

definition auth_row :: "peer \<Rightarrow> string" where
  "auth_row p = pad 20 (peer_name p) @ '' '' @ pad 24 (case hostname p of Some h \<Rightarrow> h | None \<Rightarrow> ''-'') @ '' ''
     @ (if macs p = [] then ''-'' else join '', '' (macs p)) @ newline"

definition cmd_auth_list :: "peers \<Rightarrow> string" where
  "cmd_auth_list ps =
    (let authed = filter authorized ps in
     if authed = [] then ''No authorized peers. Run `qdrop auth <name>` while connected to one.'' @ newline
     else pad 20 ''PEER'' @ '' '' @ pad 24 ''HOSTNAME'' @ '' MACs'' @ newline @ concat (map auth_row authed))"

definition cmd_auth_ask :: "'d ask \<Rightarrow> string \<Rightarrow> bool \<Rightarrow> 'd \<Rightarrow> outcome \<times> 'd" where
  "cmd_auth_ask ask name mutual d =
    with_answer ask (auth_req name mutual) d (\<lambda>resp.
      if flag ''ok'' resp
      then done_with (''Authorized '' @ name @ '' ('' @ str_or ''hostname'' ''?'' resp @ '') '' @ em_dash
             @ '' it can now send here unattended.'' @ newline
             @ (if mutual then ''Asked '' @ name @ '' to authorize this machine back.'' @ newline else []))
      else bail (error_of resp))"

section \<open>Clipboard control\<close>

record clip_args =
  ca_pause :: bool
  ca_resume :: bool
  ca_toggle :: bool
  ca_status :: bool
  ca_history :: bool
  ca_restore :: "nat option"
  ca_send :: "nat option"

datatype clip_action = Pause | Resume | Toggle | ShowStatus | ShowHistory | Restore nat | SendEntry nat

definition clip_action_of :: "clip_args \<Rightarrow> clip_action" where
  "clip_action_of a =
    (if ca_pause a then Pause
     else if ca_resume a then Resume
     else if ca_toggle a then Toggle
     else if ca_history a then ShowHistory
     else case ca_restore a of Some n \<Rightarrow> Restore n
     | None \<Rightarrow> (case ca_send a of Some n \<Rightarrow> SendEntry n | None \<Rightarrow> ShowStatus))"

definition history_row :: "json \<Rightarrow> string" where
  "history_row e = pad_left 3 (dec_str (or_else (Option.bind (jget ''index'' e) as_num) 0)) @ ''  ''
     @ pad 5 (str_or ''kind'' ''?'' e) @ ''  '' @ pad 28 (str_or ''preview'' [] e) @ ''  '' @ str_or ''origin'' [] e @ newline"

text \<open>What is printed after pausing, resuming or asking for the status.\<close>

definition clip_report :: "bool \<Rightarrow> json \<Rightarrow> outcome" where
  "clip_report status resp =
    (let paused = flag ''clipboard_paused'' resp in
     if status
     then done_with (''Clipboard sync: '' @ (if paused then ''paused'' else ''active'') @ newline
            @ ''Connected peers: '' @ dec_str (length (arr_or_empty ''connected'' resp)) @ newline)
     else done_with (''Clipboard sync '' @ (if paused then ''paused'' else ''resumed'') @ ''.'' @ newline))"

fun cmd_clip :: "'d ask \<Rightarrow> clip_action \<Rightarrow> string option \<Rightarrow> 'd \<Rightarrow> outcome \<times> 'd" where
  "cmd_clip ask ShowHistory dst d =
     with_answer ask (simple_req ''clip_history'') d (\<lambda>resp.
       let entries = arr_or_empty ''entries'' resp in
       if entries = [] then done_with (''(clipboard history is empty or disabled)'' @ newline)
       else done_with (concat (map history_row entries)))"
| "cmd_clip ask (Restore n) dst d =
     with_answer ask (clip_restore_req n) d (\<lambda>resp.
       json_ok_msg resp (''Restored history entry '' @ dec_str n @ '' to the clipboard.''))"
| "cmd_clip ask (SendEntry n) dst d =
     with_answer ask (clip_send_req n dst) d (\<lambda>resp. json_ok_msg resp (''Sent history entry '' @ dec_str n @ ''.''))"
| "cmd_clip ask Pause dst d = with_answer ask (simple_req ''clip_pause'') d (clip_report False)"
| "cmd_clip ask Resume dst d = with_answer ask (simple_req ''clip_resume'') d (clip_report False)"
| "cmd_clip ask ShowStatus dst d = with_answer ask (simple_req ''clip_status'') d (clip_report True)"
| "cmd_clip ask Toggle dst d =
     (case ask (simple_req ''clip_status'') d of
        (Inl e, d) \<Rightarrow> (bail e, d)
      | (Inr now, d) \<Rightarrow>
          with_answer ask (simple_req (if flag ''clipboard_paused'' now then ''clip_resume'' else ''clip_pause'')) d
            (clip_report False))"

section \<open>Status\<close>

definition online_str :: "json \<Rightarrow> string" where
  "online_str p = (if flag ''online'' p then ''online'' else ''offline'')"

text \<open>Three private-use icons, then \<open>\n\<close> as two characters between the rows of the tooltip.\<close>

definition waybar_icon :: "bool \<Rightarrow> nat \<Rightarrow> string" where
  "waybar_icon paused n_online =
    (if paused then [CHR 0xF3, CHR 0xB0, CHR 0x85, CHR 0x98]
     else if n_online > 0 then [CHR 0xF3, CHR 0xB0, CHR 0x93, CHR 0x85]
     else [CHR 0xF3, CHR 0xB0, CHR 0xA4, CHR 0xAD])"

definition quote :: string where
  "quote = [CHR 0x22]"

definition esc_n :: string where
  "esc_n = [CHR 0x5C, CHR ''n'']"

definition waybar :: "bool \<Rightarrow> json list \<Rightarrow> string" where
  "waybar paused ps =
    (let n = length (filter (flag ''online'') ps);
         tip = join esc_n (map (\<lambda>p. str_or ''name'' ''?'' p @ '': '' @ online_str p) ps);
         cls = (if paused then ''paused'' else if n > 0 then ''connected'' else ''idle'')
     in ''{'' @ quote @ ''text'' @ quote @ '':'' @ quote @ waybar_icon paused n @ '' '' @ dec_str n @ quote @ '',''
        @ quote @ ''tooltip'' @ quote @ '':'' @ quote @ ''qdrop '' @ em_dash @ '' clipboard '' @ (if paused then ''paused'' else ''active'')
        @ esc_n @ tip @ quote @ '','' @ quote @ ''class'' @ quote @ '':'' @ quote @ cls @ quote @ ''}'')"

definition cmd_status :: "(json \<Rightarrow> string) \<Rightarrow> 'd ask \<Rightarrow> bool \<Rightarrow> bool \<Rightarrow> 'd \<Rightarrow> outcome \<times> 'd" where
  "cmd_status pretty ask as_json as_waybar d =
    with_answer ask (simple_req ''status'') d (\<lambda>resp.
      let paused = flag ''clipboard_paused'' resp;
          ps = arr_or_empty ''peers'' resp
      in if as_json then done_with (pretty resp @ newline)
         else if as_waybar then done_with (waybar paused ps @ newline)
         else done_with
           (''qdrop '' @ str_or ''version'' ''?'' resp @ '' '' @ em_dash @ '' clipboard sync ''
              @ (if paused then ''PAUSED'' else ''active'') @ newline
            @ (if ps = [] then ''No paired peers.'' @ newline
               else pad 20 ''PEER'' @ '' STATUS'' @ newline
                 @ concat (map (\<lambda>p. pad 20 (str_or ''name'' ''?'' p) @ '' '' @ online_str p @ newline) ps))))"

text \<open>\<open>qdrop peers\<close> reads the registry and the state file.\<close>

definition peers_table_row :: "u64 \<Rightarrow> daemon_state \<Rightarrow> peer \<Rightarrow> string" where
  "peers_table_row now st p =
    (case peer_status now st p of
       (status, when_seen) \<Rightarrow> pad 20 (peer_name p) @ '' '' @ pad 9 status @ '' '' @ when_seen @ newline
         @ (case address p of Some a \<Rightarrow> pad 20 [] @ '' static address '' @ a @ newline | None \<Rightarrow> []))"

definition peers_row_json :: "daemon_state \<Rightarrow> peer \<Rightarrow> json" where
  "peers_row_json st p = JObj [(''name'', JStr (peer_name p)), (''device_id'', JStr (peer_id p)), (''public_key'', JStr (public_key p)),
     (''online'', JBool (is_online st (peer_id p))), (''address'', jopt JStr (address p)),
     (''last_seen_unix'', jopt jnum64 (case online st (peer_id p) of Some t \<Rightarrow> Some t | None \<Rightarrow> last_seen_at st (peer_id p)))]"

definition cmd_peers ::
  "(json \<Rightarrow> string) \<Rightarrow> u64 \<Rightarrow> (load_error \<Rightarrow> string) \<Rightarrow> (load_error, peers) res \<Rightarrow> state_file_read \<Rightarrow> bool \<Rightarrow> outcome" where
  "cmd_peers pretty now describe reg file as_json =
    (case reg of
       Inl e \<Rightarrow> bail (describe e)
     | Inr ps \<Rightarrow>
         let st = (case state_load file of Inr st \<Rightarrow> st | Inl _ \<Rightarrow> daemon_state_default)
         in if as_json then done_with (pretty (JArr (map (peers_row_json st) ps)) @ newline)
            else if ps = [] then done_with (''No paired peers. Run `qdrop pair` to add one.'' @ newline)
            else done_with (pad 20 ''NAME'' @ '' '' @ pad 9 ''STATUS'' @ '' LAST SEEN'' @ newline
                   @ concat (map (peers_table_row now st) ps)))"

section \<open>Sending and receiving files\<close>

text \<open>
  What the file system and standard input answer: whether a path is a regular file, its
  canonical form (or the error text), reading standard input, making the temporary directory,
  writing the file in it; the clock and the process id.
\<close>

record send_env =
  se_is_file :: "string \<Rightarrow> bool"
  se_canon :: "string \<Rightarrow> (string, string) res"
  se_stdin :: "(string, bytes) res"
  se_mkdir :: "string \<Rightarrow> (string, unit) res"
  se_write :: "string \<Rightarrow> bytes \<Rightarrow> (string, unit) res"
  se_temp :: string
  se_now :: nat
  se_pid :: nat

text \<open>The paths to hand to the daemon, and the temporary directory that is removed at the end.\<close>

fun canonical_paths :: "send_env \<Rightarrow> string list \<Rightarrow> (string, string list) res" where
  "canonical_paths env [] = Inr []"
| "canonical_paths env (p # ps) =
     (if \<not> se_is_file env p then Inl (''not a file: '' @ p)
      else (case se_canon env p of
         Inl e \<Rightarrow> Inl e
       | Inr q \<Rightarrow> (case canonical_paths env ps of Inl e \<Rightarrow> Inl e | Inr qs \<Rightarrow> Inr (q # qs))))"

definition gather_paths :: "send_env \<Rightarrow> string list \<Rightarrow> string option \<Rightarrow> (string, string list \<times> string option) res" where
  "gather_paths env paths name =
    (if paths = [''-'']
     then (case safe_blob_name (case name of Some n \<Rightarrow> n | None \<Rightarrow> ''stdin-'' @ dec_str (se_now env) @ ''.bin'') of
             None \<Rightarrow> Inl ''--name is not a valid filename''
           | Some n \<Rightarrow>
               let dir = path_join (se_temp env) (''qdrop-send-'' @ dec_str (se_pid env));
                   path = path_join dir n
               in (case se_mkdir env dir of
                     Inl e \<Rightarrow> Inl e
                   | Inr _ \<Rightarrow> (case se_stdin env of
                       Inl e \<Rightarrow> Inl e
                     | Inr buf \<Rightarrow> (case se_write env path buf of
                         Inl e \<Rightarrow> Inl e
                       | Inr _ \<Rightarrow> Inr ([path], Some dir)))))
     else (case canonical_paths env paths of Inl e \<Rightarrow> Inl e | Inr qs \<Rightarrow> Inr (qs, None)))"

text \<open>The report: one line per outcome, successes on standard output unless quiet.\<close>

definition tick :: string where
  "tick = [CHR 0xE2, CHR 0x9C, CHR 0x93]"

definition cross :: string where
  "cross = [CHR 0xE2, CHR 0x9C, CHR 0x97]"

definition arrow :: string where
  "arrow = [CHR 0xE2, CHR 0x86, CHR 0x92]"

definition sent_line :: "json \<Rightarrow> string" where
  "sent_line s = str_or ''name'' ''?'' s @ '' '' @ arrow @ '' '' @ str_or ''peer'' ''?'' s"

definition send_report :: "bool \<Rightarrow> json \<Rightarrow> outcome" where
  "send_report quiet resp =
    (case Option.bind (jget ''sent'' resp) as_array of
       Some sent \<Rightarrow>
         \<lparr>out_text = (if quiet then []
            else concat (map (\<lambda>s. ''  '' @ tick @ '' '' @ sent_line s @ newline) (filter (flag ''ok'') sent))),
          err_text = concat (map (\<lambda>s. ''  '' @ cross @ '' '' @ sent_line s @ '': '' @ str_or ''detail'' [] s @ newline)
            (filter (\<lambda>s. \<not> flag ''ok'' s) sent)),
          out_res = (if list_all (flag ''ok'') sent then Inr () else Inl ''one or more transfers failed'')\<rparr>
     | None \<Rightarrow>
         (case Option.bind (jget ''error'' resp) as_str of
            Some e \<Rightarrow> bail e
          | None \<Rightarrow> done_with []))"

definition cmd_send ::
  "send_env \<Rightarrow> 'd ask \<Rightarrow> bool \<Rightarrow> string list \<Rightarrow> string option \<Rightarrow> string option \<Rightarrow> 'd \<Rightarrow> outcome \<times> 'd" where
  "cmd_send env ask quiet paths dst name d =
    (case gather_paths env paths name of
       Inl e \<Rightarrow> (bail e, d)
     | Inr (abs_paths, _) \<Rightarrow>
         let banner = (if quiet then [] else ''Sending '' @ dec_str (length abs_paths) @ '' file(s)''
               @ (case dst of Some t \<Rightarrow> '' to '' @ t | None \<Rightarrow> []) @ ''...'' @ newline)
         in (case ask (send_req abs_paths dst) d of
               (Inl e, d) \<Rightarrow> ((bail e)\<lparr>out_text := banner\<rparr>, d)
             | (Inr resp, d) \<Rightarrow> (let r = send_report quiet resp in (r\<lparr>out_text := banner @ out_text r\<rparr>, d))))"

text \<open>
  \<open>recv\<close>: one turn of the loop sees the clock, then (after 250 ms) the visible files of the
  download directory, and for a file that was not there before its size now and 300 ms later
  (\<open>None\<close>: it could not be read). Which of several new files is taken is the environment's
  choice, the first of the list.
\<close>

record recv_turn =
  rt_now :: nat
  rt_files :: "string list"
  rt_size1 :: "string \<Rightarrow> nat option"
  rt_size2 :: "string \<Rightarrow> nat option"

definition new_file :: "string list \<Rightarrow> string list \<Rightarrow> string option" where
  "new_file before files = find (\<lambda>p. \<not> List.member before p) files"

definition settled :: "recv_turn \<Rightarrow> string \<Rightarrow> bool" where
  "settled t p \<longleftrightarrow> or_else (rt_size1 t p) 0 = or_else (rt_size2 t p) 1"

text \<open>The result, or \<open>None\<close> when the turns seen so far did not end the loop.\<close>

fun recv_loop :: "string list \<Rightarrow> nat \<Rightarrow> recv_turn list \<Rightarrow> (string, string) res option" where
  "recv_loop before deadline [] = None"
| "recv_loop before deadline (t # ts) =
     (if deadline \<le> rt_now t then Some (Inl ''timed out waiting for a file'')
      else (case new_file before (rt_files t) of
         Some p \<Rightarrow> if settled t p then Some (Inr p) else recv_loop before deadline ts
       | None \<Rightarrow> recv_loop before deadline ts))"

text \<open>The visible files: regular files of the directory whose name does not start with a dot.\<close>

definition visible :: "(string \<times> bool) list \<Rightarrow> string list" where
  "visible entries = map fst (filter (\<lambda>(p, regular). regular \<and>
     (case file_name p of Some n \<Rightarrow> (case to_str n of Some s \<Rightarrow> take 1 s \<noteq> ''.'' | None \<Rightarrow> True) | None \<Rightarrow> True)) entries)"

text \<open>
  The end of \<open>recv\<close>: the path, or with \<open>--stdout\<close> the content; the boolean says whether the
  file is removed. \<open>written\<close> is the result of writing to the standard output.
\<close>

definition recv_end ::
  "bool \<Rightarrow> bool \<Rightarrow> (string \<Rightarrow> (string, string) res) \<Rightarrow> (string, unit) res \<Rightarrow> string \<Rightarrow> outcome \<times> bool" where
  "recv_end to_stdout keep read written p =
    (if to_stdout
     then (case read p of
             Inl e \<Rightarrow> (bail e, False)
           | Inr content \<Rightarrow> (case written of Inl e \<Rightarrow> (bail e, False) | Inr _ \<Rightarrow> (done_with content, \<not> keep)))
     else (done_with (p @ newline), False))"

definition recv_timeout :: "nat option \<Rightarrow> nat" where
  "recv_timeout secs = 1000 * (case secs of Some s \<Rightarrow> s | None \<Rightarrow> 300)"

section \<open>Starting the daemon\<close>

text \<open>The program and arguments \<open>qdrop daemon\<close> replaces itself with; \<open>parent\<close> is its own directory.\<close>

definition daemon_argv :: "(string \<Rightarrow> bool) \<Rightarrow> string option \<Rightarrow> bool \<Rightarrow> u16 option \<Rightarrow> string \<times> string list" where
  "daemon_argv exists parent verbose listen =
    (case parent of
       Some dir \<Rightarrow> if exists (path_join dir ''qdropd'') then path_join dir ''qdropd'' else ''qdropd''
     | None \<Rightarrow> ''qdropd'',
     (if verbose then [''--verbose''] else [])
       @ (case listen of Some p \<Rightarrow> [''--port'', dec_str (unat p)] | None \<Rightarrow> []))"

section \<open>Lemmas\<close>

text \<open>Asking the daemon itself.\<close>

lemma ask_daemon:
  "wire_ok w \<Longrightarrow> dispatch sha env r d = (resp, streams, d') \<Longrightarrow>
     request_json w sha env (Inr ()) (req_json r) d = (Inr (response_json (version w) resp), d')"
  by (rule request_json_dispatch) (auto simp: wire_ok_def)

lemma simple_reqs:
  "simple_req ''clip_status'' = req_json ClipStatus" "simple_req ''clip_pause'' = req_json ClipPause"
  "simple_req ''clip_resume'' = req_json ClipResume" "simple_req ''status'' = req_json Status"
  by simp_all

lemma status_flag: "flag ''clipboard_paused'' (status_obj v st) = st_paused st"
  by (simp add: status_obj_def or_else_def)

lemma send_paths_length: "length (fst (send_paths sha reg at peer ps fx)) = length ps"
  by (induction ps arbitrary: fx) (auto simp: case_prod_beta)

lemma send_peers_nonempty: "ds \<noteq> [] \<Longrightarrow> ps \<noteq> [] \<Longrightarrow> fst (send_peers sha reg at ds ps fx) \<noteq> []"
  using send_paths_length[of sha reg at "hd ds" ps fx] by (cases ds) (auto simp: case_prod_beta)

lemma send_nonempty: "ps \<noteq> [] \<Longrightarrow> fst (send sha reg at ps dst fx) \<noteq> []"
proof -
  assume ps: "ps \<noteq> []"
  have "ds \<noteq> []" if "send_targets reg dst (fx_bus fx) = Inr ds" for ds
    using that by (auto simp: send_targets_def split: option.splits sum.splits if_splits)
  with ps send_peers_nonempty show ?thesis by (auto simp: send_def split: sum.splits)
qed

lemma report_of_sent:
  "out_res (send_report quiet (response_json v (RSent ok outs))) =
     (if list_all so_ok outs then Inr () else Inl ''one or more transfers failed'')"
  by (simp add: send_report_def list_all_iff outcome_json_def or_else_def)

lemma recv_loop_ends: "t \<in> set ts \<Longrightarrow> deadline \<le> rt_now t \<Longrightarrow> recv_loop before deadline ts \<noteq> None"
  by (induction ts) (auto split: option.splits)

lemma recv_loop_Inr:
  "recv_loop before deadline ts = Some (Inr p) \<Longrightarrow>
     \<exists>t\<in>set ts. rt_now t < deadline \<and> p \<in> set (rt_files t) \<and> p \<notin> set before \<and> settled t p"
  by (induction ts) (auto simp: new_file_def split: if_splits option.splits dest!: find_SomeD)

lemma settled_sizes:
  "settled t p \<longleftrightarrow> (\<exists>n. rt_size1 t p = Some n \<and> rt_size2 t p = Some n)
     \<or> rt_size1 t p = Some 1 \<and> rt_size2 t p = None \<or> rt_size1 t p = None \<and> rt_size2 t p = Some 0"
  by (auto simp: settled_def or_else_def split: option.splits)

lemma turn_times:
  assumes "\<forall>i. Suc i < length ts \<longrightarrow> rt_now (ts ! i) + 250 \<le> rt_now (ts ! Suc i)" "i < length ts"
  shows "rt_now (ts ! 0) + 250 * i \<le> rt_now (ts ! i)"
  using assms(2)
proof (induction i)
  case (Suc i)
  then have "rt_now (ts ! i) + 250 \<le> rt_now (ts ! Suc i)" using assms(1) by blast
  with Suc show ?case by simp
qed simp

section \<open>Properties\<close>


definition ex_send_env :: send_env where
  "ex_send_env = \<lparr>se_is_file = (\<lambda>_. True), se_canon = Inr, se_stdin = Inr [], se_mkdir = (\<lambda>_. Inr ()), se_write = (\<lambda>_ _. Inr ()),
     se_temp = ''/tmp'', se_now = 0, se_pid = 1\<rparr>"

text \<open>The first attempt is refused, the second delivers.\<close>

definition ex_attempt :: "nat \<Rightarrow> attempt" where
  "ex_attempt k = \<lparr>at_bus = ct_bus, at_stat = Inr (True, 3), at_open = (\<lambda>_. Inr [Inr [7, 8], Inr [9], Inr []]), at_room = Some 4,
     at_ack = Acked (k = 2) [], at_bus_later = ct_bus\<rparr>"


text \<open>
  \<open>qdrop clip --toggle\<close> flips the pause of a running daemon and nothing else, says what
  the new state is, and doing it twice restores the daemon.
\<close>

theorem toggle_flips_the_pause:
  assumes "wire_ok w" "cmd_clip (request_json w sha env (Inr ())) Toggle dst d = (r, d')"
  shows "d' = d\<lparr>dm_sync := set_clipboard_paused (\<not> sy_paused (dm_sync d)) (dm_sync d)\<rparr>
    \<and> out_text r = ''Clipboard sync '' @ (if sy_paused (dm_sync d) then ''resumed'' else ''paused'') @ ''.'' @ newline
    \<and> snd (cmd_clip (request_json w sha env (Inr ())) Toggle dst d') = d"
proof -
  have flip: "cmd_clip (request_json w sha env (Inr ())) Toggle dst e =
      (clip_report False (status_obj (version w) (status_json env (e\<lparr>dm_sync := set_clipboard_paused (\<not> sy_paused (dm_sync e)) (dm_sync e)\<rparr>))),
       e\<lparr>dm_sync := set_clipboard_paused (\<not> sy_paused (dm_sync e)) (dm_sync e)\<rparr>)" for e
    using ask_daemon[OF assms(1), of sha env ClipStatus e] ask_daemon[OF assms(1), of sha env ClipPause e]
      ask_daemon[OF assms(1), of sha env ClipResume e]
    by (simp add: with_answer_def status_flag status_json_def Let_def)
  then show ?thesis
    using assms(2) by (auto simp: clip_report_def status_flag status_json_def Let_def set_clipboard_paused_def done_with_def)
qed

theorem toggle_flips_the_pause_witness:
  "out_text (fst (cmd_clip (request_json num_wire (\<lambda>b. b) ct_env (Inr ())) Toggle None (ct_daemon (RestoredText []))))
   = ''Clipboard sync paused.'' @ newline"
  using toggle_flips_the_pause[OF num_wire_ok surjective_pairing, of "\<lambda>b. b" ct_env None "ct_daemon (RestoredText [])"]
  by (simp add: ct_daemon_def sync_new_def)



text \<open>
  The size check of \<open>recv\<close> takes a file of one byte that has disappeared in between for
  complete: a size that cannot be read the second time counts as one.
\<close>

theorem recv_accepts_a_vanished_file:
  "recv_loop [] 1000 [\<lparr>rt_now = 0, rt_files = [''/dl/x''], rt_size1 = (\<lambda>_. Some 1), rt_size2 = (\<lambda>_. None)\<rparr>] = Some (Inr ''/dl/x'')"
  by (simp add: new_file_def settled_def or_else_def)

text \<open>How a JSON parser reads a string literal: up to the next quote that is not escaped.\<close>

fun scan_string :: "string \<Rightarrow> (string \<times> string) option" where
  "scan_string [] = None"
| "scan_string [c] = (if c = CHR 0x22 then Some ([], []) else None)"
| "scan_string (c # d # cs) =
     (if c = CHR 0x22 then Some ([], d # cs)
      else if c = CHR 0x5C then map_option (\<lambda>(w, r). (c # d # w, r)) (scan_string cs)
      else map_option (\<lambda>(w, r). (c # w, r)) (scan_string (d # cs)))"

text \<open>
  The line for waybar is not JSON when a device name contains a quote: the name is put
  into the tooltip as it is, and the literal ends in its middle.
\<close>

theorem waybar_name_breaks_out:
  "waybar False [JObj [(''name'', JStr (''a'' @ quote)), (''online'', JBool False)]]
     = ''{'' @ quote @ ''text'' @ quote @ '':'' @ quote @ waybar_icon False 0 @ '' 0'' @ quote @ '','' @ quote @ ''tooltip'' @ quote
       @ '':'' @ quote @ ''qdrop '' @ em_dash @ '' clipboard active'' @ esc_n @ ''a'' @ quote @ '': offline'' @ quote @ '','' @ quote
       @ ''class'' @ quote @ '':'' @ quote @ ''idle'' @ quote @ ''}''
   \<and> scan_string (esc_n @ ''a'' @ quote @ '': offline'' @ quote) = Some (esc_n @ ''a'', '': offline'' @ quote)"
proof -
  have "dec_str 0 = ''0''" by code_simp
  then show ?thesis by (simp add: waybar_def str_or_def online_str_def or_else_def quote_def esc_n_def)
qed

end
