(* ===== verification/Identity.thy ===== *)
theory Identity
  imports Paths Crypto
begin

text \<open>
  \<open>crates/qdrop-core/src/identity.rs\<close> (the long-term key and its file), the local facts of
  \<open>crates/qdrop-core/src/sysinfo.rs\<close>, and what a crash during the first start leaves of the
  two identity files. Key generation, the PEM form, self-signing (\<open>rcgen\<close>) and the list of
  network interfaces are parameters.
\<close>

section \<open>The identity key\<close>

record ('k, 'c) key_lib =
  from_pem :: "string \<Rightarrow> 'k option"
  to_pem :: "'k \<Rightarrow> string"
  self_sign :: "'k \<Rightarrow> (string, 'c) res"
  raw_public :: "'k \<Rightarrow> bytes"

text \<open>
  \<open>load_or_create_at\<close>, in the shape of \<open>write_atomic\<close>: the file systems a crash can leave
  behind and the value returned. \<open>gen\<close> is what generating a key gives.
\<close>

definition from_key_pair :: "('k, 'c) key_lib \<Rightarrow> 'k \<Rightarrow> (string, 'k \<times> 'c) res" where
  "from_key_pair lib k = (case self_sign lib k of Inl e \<Rightarrow> Inl e | Inr cert \<Rightarrow> Inr (k, cert))"

definition identity_at ::
  "('k, 'c) key_lib \<Rightarrow> bool \<Rightarrow> (string, 'k) res \<Rightarrow> wa_fault \<Rightarrow> nat \<Rightarrow> string \<Rightarrow> string \<Rightarrow> fs
     \<Rightarrow> fs list \<times> (string, 'k \<times> 'c) res" where
  "identity_at lib read_fails gen fault pid dir name f =
    (let path = path_join dir name in
     if read_fails then ([f], Inl (''reading '' @ path))
     else (case read_file f path of
        Some b \<Rightarrow>
          (case from_utf8 b of
             None \<Rightarrow> ([f], Inl (''reading '' @ path))
           | Some pem \<Rightarrow>
               (case from_pem lib pem of
                  None \<Rightarrow> ([f], Inl (''parsing identity key '' @ path))
                | Some k \<Rightarrow> ([f], from_key_pair lib k)))
      | None \<Rightarrow>
          (case gen of
             Inl e \<Rightarrow> ([f], Inl e)
           | Inr k \<Rightarrow>
               (case write_atomic fault pid dir name (str_bytes (to_pem lib k)) f of
                  (seen, Inl e) \<Rightarrow> (seen, Inl e)
                | (seen, Inr _) \<Rightarrow> (seen, from_key_pair lib k)))))"

text \<open>What the key format promises: a serialised key is UTF-8 and parses to the same key.\<close>

definition key_lib_ok :: "('k, 'c) key_lib \<Rightarrow> bool" where
  "key_lib_ok lib \<longleftrightarrow> (\<forall>k. utf8_ok (to_pem lib k) \<and> from_pem lib (to_pem lib k) = Some k)"

definition identity_fingerprint :: "('k, 'c) key_lib \<Rightarrow> (bytes \<Rightarrow> bytes) \<Rightarrow> 'k \<times> 'c \<Rightarrow> string" where
  "identity_fingerprint lib sha i = fingerprint_of sha (raw_public lib (fst i))"

section \<open>Facts about this machine\<close>

text \<open>
  \<open>command\<close> is the output of \<open>hostname\<close>: \<open>None\<close> when it cannot be run or fails. \<open>ifaces\<close>
  are the interface addresses (\<open>None\<close>: they cannot be listed), \<open>mac_str\<close> their printed form.
\<close>

definition sys_hostname :: "bytes option \<Rightarrow> string" where
  "sys_hostname command =
    (case Option.bind command from_utf8 of
       Some s \<Rightarrow> if trim s \<noteq> [] then trim s else ''unknown''
     | None \<Rightarrow> ''unknown'')"

definition local_macs :: "(bytes \<Rightarrow> string) \<Rightarrow> bytes list option \<Rightarrow> string list" where
  "local_macs mac_str ifaces =
    (case ifaces of
       None \<Rightarrow> []
     | Some ms \<Rightarrow> remdups_adj (sort (map (\<lambda>m. map ascii_lower (mac_str m)) (filter (\<lambda>m. m \<noteq> replicate 6 0) ms))))"

definition local_device_info :: "bytes option \<Rightarrow> (bytes \<Rightarrow> string) \<Rightarrow> bytes list option \<Rightarrow> string \<Rightarrow> device_info" where
  "local_device_info command mac_str ifaces os =
    \<lparr>di_hostname = sys_hostname command, di_macs = local_macs mac_str ifaces, di_os = os\<rparr>"

section \<open>Lemmas\<close>

lemma identity_from_file:
  assumes "key_lib_ok lib" "read_file f (path_join dir name) = Some (str_bytes (to_pem lib k))"
  shows "identity_at lib False gen fault pid dir name f = ([f], from_key_pair lib k)"
  using assms by (simp add: identity_at_def key_lib_ok_def from_utf8_str_bytes)

lemma length_concat_dropWhile: "length (concat (map f (dropWhile P xs))) \<le> length (concat (map f xs))"
  by (induction xs) auto

lemma length_trim: "length (trim s) \<le> length s"
proof -
  have r: "length (concat (map snd (rev xs))) = length (concat (map snd xs))" for xs :: "(nat option \<times> string) list"
    by (induction xs) simp_all
  have "length (trim s) \<le> length (concat (map snd (dropWhile ws_item (chars s))))"
    unfolding trim_def r using length_concat_dropWhile[of snd ws_item "rev (dropWhile ws_item (chars s))"] r by simp
  also have "\<dots> \<le> length s" using length_concat_dropWhile[of snd ws_item "chars s"] by simp
  finally show ?thesis .
qed

lemma write_atomic_outcomes:
  assumes "unlinked f (path_join dir (tmp_name name pid)) (path_join dir name)"
    and "write_atomic fault pid dir name contents f = (seen, r)" "g \<in> set seen"
  shows "read_file g (path_join dir name) \<in> {read_file f (path_join dir name), Some contents}"
    and "r = Inr () \<Longrightarrow> read_file (last seen) (path_join dir name) = Some contents"
proof -
  note w = write_atomic_safe[OF assms(1,2)]
  show "read_file g (path_join dir name) \<in> {read_file f (path_join dir name), Some contents}"
    using w[THEN conjunct1] assms(3) unfolding list_all_iff by blast
  show "r = Inr () \<Longrightarrow> read_file (last seen) (path_join dir name) = Some contents" using w by blast
qed

section \<open>Properties\<close>

text \<open>
  C35. The identity key survives a crash: whichever call fails and wherever the first start is
  interrupted, the next start finds either no key file, and then creates one as if it were
  the first, or exactly the key of the first start; it never finds a file it cannot read. If
  the first start succeeded, the next one uses the same key.
\<close>

theorem identity_survives_a_crash:
  assumes "key_lib_ok lib" "read_file f (path_join dir name) = None"
    and "unlinked f (path_join dir (tmp_name name pid)) (path_join dir name)"
    and "identity_at lib False (Inr k) fault pid dir name f = (seen, r)" "g \<in> set seen"
  shows "(read_file g (path_join dir name) = None
      \<or> identity_at lib False gen' fault' pid' dir name g = ([g], from_key_pair lib k))
    \<and> ((\<exists>i. r = Inr i) \<longrightarrow> identity_at lib False gen' fault' pid' dir name (last seen) = ([last seen], from_key_pair lib k))"
proof -
  let ?pem = "str_bytes (to_pem lib k)"
  obtain seen' r' where w: "write_atomic fault pid dir name ?pem f = (seen', r')"
    by (cases "write_atomic fault pid dir name ?pem f")
  have s: "seen' = seen" and r': "(\<exists>i. r = Inr i) \<longrightarrow> r' = Inr ()"
    using assms(2,4) w by (auto simp: identity_at_def split: sum.splits)
  note o = write_atomic_outcomes[OF assms(3) w[unfolded s] assms(5)]
  show ?thesis
    using o identity_from_file[OF assms(1), where gen = gen' and fault = fault' and pid = pid'] r' assms(2) by auto
qed

definition ex_lib :: "(bool, unit) key_lib" where
  "ex_lib = \<lparr>from_pem = (\<lambda>s. if s = ''t'' then Some True else if s = ''f'' then Some False else None),
     to_pem = (\<lambda>b. if b then ''t'' else ''f''), self_sign = (\<lambda>_. Inr ()), raw_public = (\<lambda>_. [])\<rparr>"

theorem identity_survives_a_crash_witness:
  "identity_at ex_lib False (Inr False) NoFault 8 ''/d'' ''f'' (last (fst (identity_at ex_lib False (Inr True) NoFault 7 ''/d'' ''f'' fs_empty)))
   = ([last (fst (identity_at ex_lib False (Inr True) NoFault 7 ''/d'' ''f'' fs_empty))], Inr (True, ()))"
proof -
  have lib: "key_lib_ok ex_lib" by (auto simp: key_lib_ok_def ex_lib_def intro: utf8_ok_ascii)
  have a: "read_file fs_empty (path_join ''/d'' ''f'') = None" by (simp add: fs_empty_def read_file_def)
  have u: "unlinked fs_empty (path_join ''/d'' (tmp_name ''f'' 7)) (path_join ''/d'' ''f'')" by code_simp
  have r: "snd (identity_at ex_lib False (Inr True) NoFault 7 ''/d'' ''f'' fs_empty) = Inr (True, ())" by code_simp
  have m: "fs_empty \<in> set (fst (identity_at ex_lib False (Inr True) NoFault 7 ''/d'' ''f'' fs_empty))"
    by (simp add: identity_at_def a write_atomic_def Let_def case_prod_beta split: option.splits)
  have fk: "from_key_pair ex_lib True = Inr (True, ())" by (simp add: from_key_pair_def ex_lib_def)
  show ?thesis
    unfolding fk[symmetric]
    by (rule identity_survives_a_crash[OF lib a u prod.collapse[symmetric] m, THEN conjunct2, THEN mp]) (rule exI, rule r)
qed

text \<open>
  The device id does not survive one: it is written in place, so when the first start is
  interrupted before all 32 digits are on disk, every later start fails, whatever it draws,
  and the file stays as it is.
\<close>

theorem interrupted_device_id_is_permanent:
  assumes "n < 32" "read_file g (path_join dir name) = Some (take n (str_bytes (generate random @ [CHR 0x0A])))"
    and "length random = 16"
  shows "\<exists>e. load_or_create_at False fault random' dir name g = (Inl e, g)"
proof -
  let ?c = "take n (generate random @ [CHR 0x0A])"
  have "length (trim ?c) \<le> length ?c" by (rule length_trim)
  then have "\<not> is_valid (trim ?c)" using assms(1) by (auto simp: is_valid_def)
  moreover have "take n (str_bytes (generate random @ [CHR 0x0A])) = str_bytes ?c"
    unfolding str_bytes_def take_map ..
  ultimately show ?thesis
    using assms(2) by (auto simp: load_or_create_at_def Let_def from_utf8_def split: option.splits)
qed

theorem interrupted_device_id_is_permanent_witness:
  "\<exists>e. load_or_create_at False None (replicate 16 9) ''/d'' ''device_id''
      \<lparr>dirents = [path_join ''/d'' ''device_id'' \<mapsto> 0], inodes = (\<lambda>_. take 10 (str_bytes (generate (replicate 16 7) @ [CHR 0x0A]))),
        dirs = [''/d''], next_ino = 1\<rparr>
    = (Inl e, \<lparr>dirents = [path_join ''/d'' ''device_id'' \<mapsto> 0], inodes = (\<lambda>_. take 10 (str_bytes (generate (replicate 16 7) @ [CHR 0x0A]))),
        dirs = [''/d''], next_ino = 1\<rparr>)"
  by (rule interrupted_device_id_is_permanent[where n = 10 and random = "replicate 16 7"]) (simp_all add: read_file_def)

end
