(* ===== verification/Doctor.thy ===== *)
theory Doctor
  imports Client Identity
begin

text \<open>
  \<open>crates/qdrop-core/src/doctor.rs\<close> and \<open>cmd_doctor\<close> of the client: the checks of
  \<open>qdrop doctor\<close>. What the checks observe (files, the control socket, binding the port, mDNS,
  writing a probe file) is the environment.
\<close>

section \<open>Checks\<close>

datatype check_status = CheckOk | CheckWarn | CheckFail

record check =
  ck_name :: string
  ck_status :: check_status
  ck_detail :: string
  ck_fix :: "string option"

definition check_ok :: "string \<Rightarrow> string \<Rightarrow> check" where
  "check_ok name detail = \<lparr>ck_name = name, ck_status = CheckOk, ck_detail = detail, ck_fix = None\<rparr>"

definition check_warn :: "string \<Rightarrow> string \<Rightarrow> string \<Rightarrow> check" where
  "check_warn name detail fix = \<lparr>ck_name = name, ck_status = CheckWarn, ck_detail = detail, ck_fix = Some fix\<rparr>"

definition check_fail :: "string \<Rightarrow> string \<Rightarrow> string \<Rightarrow> check" where
  "check_fail name detail fix = \<lparr>ck_name = name, ck_status = CheckFail, ck_detail = detail, ck_fix = Some fix\<rparr>"

text \<open>
  \<open>dc_identity\<close>: the error of locating the file, or its absence (\<open>None\<close>), or the fingerprint
  or error of loading it. \<open>dc_status\<close> is the answer to the \<open>status\<close> request, if any.
  \<open>dc_bind\<close> is binding the port checked; \<open>dc_services\<close> and \<open>dc_own\<close> what \<open>browse\_mdns\<close>
  returns; \<open>dc_probe\<close> writing the probe into the given download directory.
\<close>

record doctor_env =
  dc_config :: "(string, config) res"
  dc_identity :: "(string, (string, string) res option) res"
  dc_status :: "json option"
  dc_bind :: "u16 \<Rightarrow> (string, unit) res"
  dc_services :: "string list"
  dc_own :: "string option"
  dc_reg :: "(load_error, peers) res"
  dc_downloads :: "(string, string) res"
  dc_probe :: "string \<Rightarrow> (string, unit) res"

definition config_check :: "doctor_env \<Rightarrow> check" where
  "config_check env =
    (case dc_config env of
       Inr c \<Rightarrow> check_ok ''config'' (''device '' @ quote @ device_name c @ quote @ '', port '' @ dec_str (unat (port c)))
     | Inl e \<Rightarrow> check_fail ''config'' e ''fix the syntax error in ~/.config/qdrop/config.toml'')"

definition identity_check :: "doctor_env \<Rightarrow> check" where
  "identity_check env =
    (case dc_identity env of
       Inr (Some (Inr fp)) \<Rightarrow> check_ok ''identity'' (''fingerprint '' @ fp)
     | Inr (Some (Inl e)) \<Rightarrow> check_fail ''identity'' e
         (''the key file is corrupt '' @ em_dash @ '' stop the daemon, delete identity.pem, re-pair'')
     | Inr None \<Rightarrow> check_warn ''identity'' ''no key yet'' ''it is created on the first `qdropd` start''
     | Inl e \<Rightarrow> check_fail ''identity'' e ''check $HOME / $XDG_CONFIG_HOME'')"

definition daemon_check :: "doctor_env \<Rightarrow> check" where
  "daemon_check env =
    (case dc_status env of
       Some s \<Rightarrow> check_ok ''daemon'' (''running, version '' @ str_or ''version'' ''?'' s)
     | None \<Rightarrow> check_fail ''daemon'' ''not reachable on the control socket''
         ''start it: `qdropd` (or `systemctl --user start qdropd` / launchd)'')"

text \<open>\<open>p as u16\<close> keeps the low 16 bits.\<close>

definition daemon_port :: "doctor_env \<Rightarrow> u16 option" where
  "daemon_port env = map_option word_of_nat (Option.bind (Option.bind (dc_status env) (jget ''port'')) as_num)"

definition port_check :: "config \<Rightarrow> doctor_env \<Rightarrow> check" where
  "port_check cfg env =
    (let p = or_else (daemon_port env) (port cfg); bound = dc_bind env p in
     if daemon_port env \<noteq> None then check_ok ''port'' (''daemon is listening on TCP '' @ dec_str (unat p))
     else (case bound of
        Inr _ \<Rightarrow> check_ok ''port'' (''TCP '' @ dec_str (unat p) @ '' is bindable'')
      | Inl e \<Rightarrow> check_fail ''port'' (''cannot bind TCP '' @ dec_str (unat p) @ '': '' @ e)
          (''another process holds the port '' @ em_dash @ '' change `port` in config.toml'')))"

definition mdns_check :: "doctor_env \<Rightarrow> check" where
  "mdns_check env =
    (if dc_services env = [] \<and> dc_status env \<noteq> None
     then check_warn ''mDNS'' ''browsed for _qdrop._tcp and saw nothing (not even this daemon)''
       (''multicast may be blocked '' @ em_dash @ '' check the firewall / that Wi-Fi client isolation is off'')
     else if dc_services env = []
     then check_warn ''mDNS'' ''no _qdrop._tcp services on the network'' ''start `qdropd` on this and the other machine''
     else check_ok ''mDNS'' (dec_str (length (dc_services env)) @ '' _qdrop._tcp service(s) visible''))"

definition online_ids :: "json option \<Rightarrow> string list" where
  "online_ids status =
    (case Option.bind (Option.bind status (jget ''peers'')) as_array of
       Some rows \<Rightarrow> List.map_filter (\<lambda>p. Option.bind (jget ''device_id'' p) as_str) (filter (flag ''online'') rows)
     | None \<Rightarrow> [])"

definition peer_checks :: "doctor_env \<Rightarrow> peer \<Rightarrow> check list" where
  "peer_checks env p =
    (let name = ''peer:'' @ peer_name p in
     if List.member (online_ids (dc_status env)) (peer_id p) then [check_ok name ''connected'']
     else if List.member (dc_services env) (peer_id p)
     then [check_warn name ''discovered but not connected''
             ''check both daemons' logs; keys may not match (re-pair) or clocks may be skewed'']
     else if Some (peer_id p) = dc_own env then []
     else [check_warn name ''not seen on the network''
             (''is its daemon running and on the same LAN? (or set a static endpoint '' @ em_dash @ '' M11)'')])"

definition downloads_check :: "doctor_env \<Rightarrow> check" where
  "downloads_check env =
    (case dc_downloads env of
       Inr dir \<Rightarrow>
         (case dc_probe env dir of
            Inr _ \<Rightarrow> check_ok ''downloads'' (dir @ '' is writable'')
          | Inl e \<Rightarrow> check_fail ''downloads'' (''cannot write to '' @ dir @ '': '' @ e) ''fix permissions or set QDROP_DOWNLOAD_DIR'')
     | Inl e \<Rightarrow> check_fail ''downloads'' e ''set QDROP_DOWNLOAD_DIR'')"

text \<open>
  Writing the probe: making the directory, creating the file, writing the byte, removing the
  file again, whose failure is ignored.
\<close>

record probe_env =
  pb_mkdir :: "(string, unit) res"
  pb_create :: "(string, unit) res"
  pb_write :: "(string, unit) res"
  pb_remove :: bool

definition probe_path :: "string \<Rightarrow> string" where
  "probe_path dir = path_join dir ''.qdrop-doctor-probe''"

definition probe_downloads :: "probe_env \<Rightarrow> string \<Rightarrow> fs \<Rightarrow> (string, unit) res \<times> fs" where
  "probe_downloads pb dir f =
    (case pb_mkdir pb of
       Inl e \<Rightarrow> (Inl e, f)
     | Inr _ \<Rightarrow>
         let f = create_dir_all dir f in
         (case pb_create pb of
            Inl e \<Rightarrow> (Inl e, f)
          | Inr _ \<Rightarrow>
              (case file_create (probe_path dir) f of (h, f) \<Rightarrow>
                (case pb_write pb of
                   Inl e \<Rightarrow> (Inl e, f)
                 | Inr _ \<Rightarrow>
                     let f = snd (file_write h (str_bytes ''x'') f)
                     in (Inr (), if pb_remove pb then remove_file (probe_path dir) f else f)))))"

text \<open>\<open>cfg0\<close> is the default configuration, used when the file cannot be read.\<close>

definition doctor_run :: "config \<Rightarrow> doctor_env \<Rightarrow> check list" where
  "doctor_run cfg0 env =
    (let cfg = (case dc_config env of Inr c \<Rightarrow> c | Inl _ \<Rightarrow> cfg0);
         ps = (case dc_reg env of Inr ps \<Rightarrow> ps | Inl _ \<Rightarrow> [])
     in [config_check env, identity_check env, daemon_check env, port_check cfg env, mdns_check env]
        @ concat (map (peer_checks env) ps) @ [downloads_check env])"

text \<open>\<open>browse\_mdns\<close>: the distinct ids of what is resolved, in order, until the end of the browse.\<close>

datatype browse_event = BrowseResolved "string option" | BrowseOther | BrowseEnds

fun browse_ids :: "browse_event list \<Rightarrow> string list \<Rightarrow> string list" where
  "browse_ids [] ids = ids"
| "browse_ids (BrowseResolved (Some d) # es) ids = browse_ids es (if List.member ids d then ids else ids @ [d])"
| "browse_ids (BrowseResolved None # es) ids = browse_ids es ids"
| "browse_ids (BrowseOther # es) ids = browse_ids es ids"
| "browse_ids (BrowseEnds # es) ids = ids"

section \<open>The command\<close>

definition esc :: "string \<Rightarrow> string" where
  "esc s = [CHR 0x1B] @ ''['' @ s"

definition check_mark :: "check_status \<Rightarrow> string" where
  "check_mark st =
    (case st of
       CheckOk \<Rightarrow> esc ''32m'' @ tick
     | CheckWarn \<Rightarrow> esc ''33m!''
     | CheckFail \<Rightarrow> esc ''31m'' @ cross) @ esc ''0m''"

definition check_line :: "check \<Rightarrow> string" where
  "check_line c = check_mark (ck_status c) @ '' '' @ pad 16 (ck_name c) @ '' '' @ ck_detail c @ newline
     @ (case ck_fix c of Some f \<Rightarrow> ''  '' @ esc ''2m'' @ arrow @ '' '' @ f @ esc ''0m'' @ newline | None \<Rightarrow> [])"

definition status_word :: "check_status \<Rightarrow> string" where
  "status_word st = (case st of CheckOk \<Rightarrow> ''ok'' | CheckWarn \<Rightarrow> ''warn'' | CheckFail \<Rightarrow> ''fail'')"

definition check_json :: "check \<Rightarrow> json" where
  "check_json c = JObj ([(''name'', JStr (ck_name c)), (''status'', JStr (status_word (ck_status c))), (''detail'', JStr (ck_detail c))]
     @ (case ck_fix c of Some f \<Rightarrow> [(''fix'', JStr f)] | None \<Rightarrow> []))"

definition cmd_doctor :: "(json \<Rightarrow> string) \<Rightarrow> bool \<Rightarrow> check list \<Rightarrow> outcome" where
  "cmd_doctor pretty as_json checks =
    \<lparr>out_text = (if as_json then pretty (JArr (map check_json checks)) @ newline else concat (map check_line checks)),
     err_text = [],
     out_res = (if list_ex (\<lambda>c. ck_status c = CheckFail) checks then Inl ''one or more checks failed'' else Inr ())\<rparr>"

section \<open>Lemmas\<close>

lemmas check_defs = check_ok_def check_warn_def check_fail_def

lemma peer_checks_never_fail: "c \<in> set (peer_checks env p) \<Longrightarrow> ck_status c \<noteq> CheckFail"
  by (auto simp: peer_checks_def check_defs Let_def split: if_splits)

lemma mdns_check_never_fails: "ck_status (mdns_check env) \<noteq> CheckFail"
  by (simp add: mdns_check_def check_defs)

lemma online_ids_of_status:
  "online_ids (Some (status_obj v (status_json env d))) =
     map peer_id (filter (\<lambda>p. sender (dm_bus d) (peer_id p) \<noteq> None) (case dm_reg d of Inr ps \<Rightarrow> ps | Inl _ \<Rightarrow> []))"
  (is "_ = map peer_id (filter _ ?ps)")
proof -
  have row: "row_online r \<longleftrightarrow> flag ''online'' (row_json r)" "Option.bind (jget ''device_id'' (row_json r)) as_str = Some (row_id r)" for r
    by (simp_all add: row_json_def or_else_def)
  have "online_ids (Some (status_obj v st)) = map row_id (filter row_online (st_rows st))" for st
    by (simp add: online_ids_def status_obj_def filter_map comp_def row(1)[symmetric] row(2) map_filter_def)
  then show ?thesis by (simp add: status_json_def Let_def filter_map comp_def connected_iff)
qed

section \<open>Properties\<close>

text \<open>
  \<open>qdrop doctor\<close> exits with an error if and only if something is broken: the
  configuration or the identity key cannot be read, the daemon does not answer, its port is
  taken by something else, or the download directory cannot be written. Missing peers, a
  missing key and silence on the network are warnings.
\<close>

theorem doctor_fails_iff_broken:
  "(\<exists>e. out_res (cmd_doctor pretty as_json (doctor_run cfg0 env)) = Inl e) \<longleftrightarrow>
     (\<exists>e. dc_config env = Inl e) \<or> (\<exists>e. dc_identity env = Inl e \<or> dc_identity env = Inr (Some (Inl e)))
     \<or> dc_status env = None
     \<or> daemon_port env = None \<and> (\<exists>e. dc_bind env (port (case dc_config env of Inr c \<Rightarrow> c | Inl _ \<Rightarrow> cfg0)) = Inl e)
     \<or> (\<exists>e. dc_downloads env = Inl e) \<or> (\<exists>dir e. dc_downloads env = Inr dir \<and> dc_probe env dir = Inl e)"
proof -
  let ?cfg = "case dc_config env of Inr c \<Rightarrow> c | Inl _ \<Rightarrow> cfg0"
  have "list_ex (\<lambda>c. ck_status c = CheckFail) (doctor_run cfg0 env) \<longleftrightarrow>
      ck_status (config_check env) = CheckFail \<or> ck_status (identity_check env) = CheckFail
      \<or> ck_status (daemon_check env) = CheckFail \<or> ck_status (port_check ?cfg env) = CheckFail
      \<or> ck_status (downloads_check env) = CheckFail"
    using peer_checks_never_fail mdns_check_never_fails by (auto simp: doctor_run_def Let_def list_ex_iff)
  also have "ck_status (config_check env) = CheckFail \<longleftrightarrow> (\<exists>e. dc_config env = Inl e)"
    by (auto simp: config_check_def check_defs split: sum.splits)
  also have "ck_status (identity_check env) = CheckFail \<longleftrightarrow>
      (\<exists>e. dc_identity env = Inl e \<or> dc_identity env = Inr (Some (Inl e)))"
    by (auto simp: identity_check_def check_defs split: sum.splits option.splits)
  also have "ck_status (daemon_check env) = CheckFail \<longleftrightarrow> dc_status env = None"
    by (auto simp: daemon_check_def check_defs split: option.splits)
  also have "ck_status (port_check ?cfg env) = CheckFail \<longleftrightarrow>
      daemon_port env = None \<and> (\<exists>e. dc_bind env (port ?cfg) = Inl e)"
    by (auto simp: port_check_def check_defs Let_def or_else_def split: sum.splits option.splits)
  also have "ck_status (downloads_check env) = CheckFail \<longleftrightarrow>
      (\<exists>e. dc_downloads env = Inl e) \<or> (\<exists>dir e. dc_downloads env = Inr dir \<and> dc_probe env dir = Inl e)"
    by (auto simp: downloads_check_def check_defs split: sum.splits)
  finally show ?thesis by (simp add: cmd_doctor_def)
qed

text \<open>
  C40. What the doctor says about a paired device is what the daemon knows: with the daemon's
  answer over the socket, and the registry it reads being the daemon's, the line of a device
  says connected if and only if the daemon's bus has a link to it.
\<close>

theorem doctor_reports_the_links:
  assumes "wire_ok w" "dm_reg d = Inr ps" "dc_reg env = Inr ps" "p \<in> set ps"
    and "request_json w sha cenv (Inr ()) (simple_req ''status'') d = (Inr resp, d')" "dc_status env = Some resp"
  shows "(check_ok (''peer:'' @ peer_name p) ''connected'' \<in> set (peer_checks env p) \<longleftrightarrow> sender (dm_bus d) (peer_id p) \<noteq> None)
    \<and> set (peer_checks env p) \<subseteq> set (doctor_run cfg0 env) \<and> d' = d"
proof -
  have resp: "resp = status_obj (version w) (status_json cenv d)" "d' = d"
    using ask_daemon[OF assms(1), of sha cenv Status d] assms(5) by simp_all
  have "List.member (online_ids (dc_status env)) (peer_id p) \<longleftrightarrow> sender (dm_bus d) (peer_id p) \<noteq> None"
    unfolding assms(6) resp online_ids_of_status assms(2) using assms(4) by auto
  moreover have "set (peer_checks env p) \<subseteq> set (doctor_run cfg0 env)"
    using assms(3,4) by (auto simp: doctor_run_def Let_def)
  ultimately show ?thesis using resp(2) by (auto simp: peer_checks_def check_defs Let_def)
qed

definition ex_doctor :: doctor_env where
  "ex_doctor = \<lparr>dc_config = Inr (config_default None None), dc_identity = Inr None,
     dc_status = Some (status_obj ''1'' (status_json ct_env (ct_daemon (RestoredText [])))), dc_bind = (\<lambda>_. Inr ()), dc_services = [],
     dc_own = None, dc_reg = dm_reg (ct_daemon (RestoredText [])), dc_downloads = Inr ''/dl'', dc_probe = (\<lambda>_. Inr ())\<rparr>"

theorem doctor_reports_the_links_witness:
  "check_ok ''peer:a'' ''connected'' \<in> set (peer_checks ex_doctor (peer_new (\<lambda>_. []) ''a'' ''id-a'' []))"
proof -
  let ?d = "ct_daemon (RestoredText [])" and ?p = "peer_new (\<lambda>_. []) ''a'' ''id-a'' []"
  have reg: "dm_reg ?d = Inr [?p, peer_new (\<lambda>_. []) ''b'' ''id-b'' []]" by (simp add: ct_daemon_def)
  have ask: "request_json num_wire (\<lambda>b. b) ct_env (Inr ()) (simple_req ''status'') ?d = (Inr (status_obj ''1'' (status_json ct_env ?d)), ?d)"
    using ask_daemon[OF num_wire_ok, of "\<lambda>b. b" ct_env Status ?d] by (simp add: num_wire_def)
  have "sender (dm_bus ?d) (peer_id ?p) \<noteq> None" by (simp add: ct_daemon_def ct_bus_def sender_def peer_new_def)
  with doctor_reports_the_links[OF num_wire_ok reg _ _ ask, of ex_doctor ?p] show ?thesis
    by (simp add: ex_doctor_def reg) (simp add: peer_new_def)
qed

end
