(* ===== verification/Links.thy ===== *)
theory Links
  imports Secure
begin

text \<open>
  \<open>crates/qdropd/src/transport.rs\<close>, the manager together with the tasks around it: the accept
  loop, the forwarders, the dial loops and the tasks that drive connections all send into the
  manager's one channel. A step is one thing one of these tasks does, at the moment the
  environment chooses; a full channel makes its sender wait, so the queue keeps the order and
  loses nothing. The shared roster is what the last reload made of the registry.
\<close>

section \<open>State\<close>

record net =
  n_mgr :: mgr
  n_rosters :: "roster list"
  n_queue :: "internal list"
  n_accepted :: "(nat \<times> hello \<times> caps) list"
  n_open :: "(nat \<times> string) list"
  n_backoff :: "nat \<Rightarrow> backoff"

text \<open>
  All values of the shared roster, the newest first; the channel of the manager; the tasks
  spawned for accepted connections that have not announced themselves; the tasks whose
  connection is up, with the id its frames are routed under; the back-off of each dial loop.

  An event of the accept loop carries what \<open>accept\<close> returned and at which values of the roster
  the task looked: during the handshake, after it, and for the expected identity.
\<close>

datatype 'tcp net_event =
    Accept bool "nat \<times> nat \<times> nat" "'tcp option"
  | Dial nat "'tcp dial_env"
  | Announce nat nat
  | ConnEnds nat disconnect_reason
  | Mdns internal
  | RosterTold "bytes list"
  | Reload peers
  | Take

section \<open>Operations\<close>

definition post :: "internal \<Rightarrow> net \<Rightarrow> net" where
  "post msg s = s\<lparr>n_queue := n_queue s @ [msg]\<rparr>"

text \<open>One turn of the accept loop and the task it spawns; an accept error is waited out.\<close>

definition accept_loop ::
  "'tcp tls_stack \<Rightarrow> (bytes \<Rightarrow> bytes option) \<Rightarrow> codec \<Rightarrow> hello \<Rightarrow> bool \<Rightarrow> nat \<times> nat \<times> nat \<Rightarrow> 'tcp option
     \<Rightarrow> net \<Rightarrow> net" where
  "accept_loop tls x509 codec local late at tcp s =
    (case (at, tcp) of
       ((i, j, k), Some t) \<Rightarrow>
         if k \<le> j \<and> j \<le> i \<and> i < length (n_rosters s)
         then (case accept_one tls x509 codec late local (n_rosters s ! i, n_rosters s ! j, n_rosters s ! k) t of
                 Some msg \<Rightarrow> post msg s
               | None \<Rightarrow> s)
         else s
     | (_, None) \<Rightarrow> s)"

text \<open>The two forwarders.\<close>

definition discovery_forwarder :: "internal \<Rightarrow> net \<Rightarrow> net" where
  "discovery_forwarder ev s = (case ev of Found _ \<Rightarrow> post ev s | Lost _ \<Rightarrow> post ev s | _ \<Rightarrow> s)"

definition roster_watcher :: "bytes list \<Rightarrow> net \<Rightarrow> net" where
  "roster_watcher ks s = post (RosterChanged ks) s"

text \<open>
  A turn of a dial loop that is alive and has no connection up: the address book is the one
  the manager keeps for the peer. The end of the connection is a later event.
\<close>

definition after_turn :: "nat \<Rightarrow> string \<Rightarrow> (dial_result \<times> backoff) option \<Rightarrow> net \<Rightarrow> net" where
  "after_turn n d turn s =
    (case turn of
       None \<Rightarrow> s\<lparr>n_mgr := abort (Some n) (n_mgr s)\<rparr>
     | Some (WaitAddrs, b) \<Rightarrow> s
     | Some (Dialled ok msgs delay, b) \<Rightarrow>
         let s = s\<lparr>n_backoff := (n_backoff s)(n := b)\<rparr>
         in (case msgs of up # _ \<Rightarrow> post up (s\<lparr>n_open := (n, d) # n_open s\<rparr>) | [] \<Rightarrow> s))"

definition dial_task ::
  "'tcp tls_stack \<Rightarrow> (bytes \<Rightarrow> bytes option) \<Rightarrow> codec \<Rightarrow> hello \<Rightarrow> nat \<Rightarrow> 'tcp dial_env \<Rightarrow> net \<Rightarrow> net" where
  "dial_task tls x509 codec local n env s =
    (case (map_of (m_live (n_mgr s)) n, map_of (n_open s) n) of
       (Some (DialTask d), None) \<Rightarrow>
         let book = (case Option.bind (map_of (m_peers (n_mgr s)) d) pe_addrs of Some as \<Rightarrow> as | None \<Rightarrow> []);
             env = env\<lparr>de_roster := m_roster (n_mgr s), de_addrs := book\<rparr>
         in after_turn n d (dial_turn tls x509 codec local d env (n_backoff s n)) s
     | _ \<Rightarrow> s)"

text \<open>The task of an accepted connection: its announcement, and the end of a connection.\<close>

definition announce :: "nat \<Rightarrow> nat \<Rightarrow> net \<Rightarrow> net" where
  "announce n ch s =
    (case (map_of (m_live (n_mgr s)) n, map_of (n_accepted s) n) of
       (Some (ConnTask d), Some (peer, cs)) \<Rightarrow>
         post (ConnUp d (hello_name peer) cs None ch)
           (s\<lparr>n_accepted := AList.delete n (n_accepted s), n_open := (n, d) # n_open s\<rparr>)
     | _ \<Rightarrow> s)"

definition conn_ends :: "nat \<Rightarrow> disconnect_reason \<Rightarrow> net \<Rightarrow> net" where
  "conn_ends n reason s =
    (case (map_of (m_live (n_mgr s)) n, map_of (n_open s) n) of
       (Some t, Some d) \<Rightarrow>
         let s = post (ConnDown d reason) (s\<lparr>n_open := AList.delete n (n_open s)\<rparr>)
         in (case t of
               ConnTask _ \<Rightarrow> s\<lparr>n_mgr := abort (Some n) (n_mgr s)\<rparr>
             | DialTask _ \<Rightarrow> s)
     | _ \<Rightarrow> s)"

text \<open>The manager takes a message; tasks it aborts have no connection any more.\<close>

definition take_internal :: "net \<Rightarrow> net" where
  "take_internal s =
    (case n_queue s of
       [] \<Rightarrow> s
     | msg # q \<Rightarrow>
         let m = manager_step (n_mgr s) msg;
             acc = (case msg of
                InboundReady peer cs \<Rightarrow>
                  if role_for (m_own (n_mgr s)) (hello_id peer) = Dialer then n_accepted s
                  else (m_next (n_mgr s), peer, cs) # n_accepted s
              | _ \<Rightarrow> n_accepted s)
         in s\<lparr>n_queue := q, n_mgr := m, n_accepted := acc,
              n_open := filter (\<lambda>(n, _). map_of (m_live m) n \<noteq> None) (n_open s)\<rparr>)"

definition reload ::
  "(string \<Rightarrow> bytes option) \<Rightarrow> (string \<Rightarrow> socket_addr list option) \<Rightarrow> peers \<Rightarrow> net \<Rightarrow> net" where
  "reload unb64 resolve ps s =
    (let r = roster_load unb64 resolve (m_roster (n_mgr s)) ps
     in s\<lparr>n_mgr := (n_mgr s)\<lparr>m_roster := r\<rparr>, n_rosters := r # n_rosters s\<rparr>)"

text \<open>The libraries the tasks use: TLS, certificates, the codec, base64 and name resolution.\<close>

record 'tcp net_libs =
  nl_tls :: "'tcp tls_stack"
  nl_x509 :: "bytes \<Rightarrow> bytes option"
  nl_codec :: codec
  nl_unb64 :: "string \<Rightarrow> bytes option"
  nl_resolve :: "string \<Rightarrow> socket_addr list option"

fun net_step :: "'tcp net_libs \<Rightarrow> hello \<Rightarrow> net \<Rightarrow> 'tcp net_event \<Rightarrow> net" where
  "net_step lib local s (Accept late at tcp) = accept_loop (nl_tls lib) (nl_x509 lib) (nl_codec lib) local late at tcp s"
| "net_step lib local s (Dial n env) = dial_task (nl_tls lib) (nl_x509 lib) (nl_codec lib) local n env s"
| "net_step lib local s (Announce n ch) = announce n ch s"
| "net_step lib local s (ConnEnds n reason) = conn_ends n reason s"
| "net_step lib local s (Mdns ev) = discovery_forwarder ev s"
| "net_step lib local s (RosterTold ks) = roster_watcher ks s"
| "net_step lib local s (Reload ps) = reload (nl_unb64 lib) (nl_resolve lib) ps s"
| "net_step lib local s Take = take_internal s"

definition net_start :: "'tcp net_libs \<Rightarrow> hello \<Rightarrow> peers \<Rightarrow> bytes list \<Rightarrow> net" where
  "net_start lib local ps ks =
    (let cfg = transport_config_new local;
         r = roster_load (nl_unb64 lib) (nl_resolve lib) roster_empty ps
     in \<lparr>n_mgr = mgr_start (hello_id local) r ks bus_new, n_rosters = [r], n_queue = [], n_accepted = [], n_open = [],
         n_backoff = (\<lambda>_. backoff_new (backoff_base cfg) (backoff_max cfg))\<rparr>)"

section \<open>What vouches for a peer\<close>

text \<open>
  A TLS handshake in which the other side held the key, judged by the rosters an event could see
  (all values up to its time, the newest first). An accepted one: with \<open>(i, j, k)\<close> the positions the
  event names, the key was accepted by the roster at \<open>i\<close> during the handshake, trusted by the one at
  \<open>j\<close> after it, and the one at \<open>k\<close>, read last, pinned it for exactly this id or did not know it any
  more. A dialled one: the key is what the roster of that moment pins for the id.
\<close>

definition accepted_with :: "'tcp net_libs \<Rightarrow> roster list \<Rightarrow> nat \<times> nat \<times> nat \<Rightarrow> string \<Rightarrow> bytes \<Rightarrow> 'tcp \<Rightarrow> bool" where
  "accepted_with lib rs at d key t \<longleftrightarrow>
     (case at of (i, j, k) \<Rightarrow>
        k \<le> j \<and> j \<le> i \<and> i < length rs
        \<and> (\<exists>c certs s. nl_tls lib (verify_client_cert (nl_x509 lib) (rs ! i)) t = Done (c # certs, s)
             \<and> peer_key_from_cert (nl_x509 lib) c = Inr key)
        \<and> is_trusted_key (rs ! j) key
        \<and> (key_for_id (rs ! k) d = Some key \<or> \<not> is_trusted_key (rs ! k) key))"

definition dialled_with :: "'tcp net_libs \<Rightarrow> roster list \<Rightarrow> string \<Rightarrow> bytes \<Rightarrow> 'tcp dial_env \<Rightarrow> bool" where
  "dialled_with lib rs d key env \<longleftrightarrow> rs \<noteq> [] \<and> key_for_id (hd rs) d = Some key
     \<and> (\<exists>addr t certs s. de_connect env addr = Done t
        \<and> nl_tls lib (verify_server_cert (nl_x509 lib) key) t = Done (certs, s)
        \<and> peer_key_from_cert (nl_x509 lib) (hd certs) = Inr key)"

fun vouches :: "'tcp net_libs \<Rightarrow> roster list \<Rightarrow> string \<Rightarrow> bytes \<Rightarrow> 'tcp net_event \<Rightarrow> bool" where
  "vouches lib rs d key (Accept late at (Some t)) = accepted_with lib rs at d key t"
| "vouches lib rs d key (Dial n env) = dialled_with lib rs d key env"
| "vouches lib rs d key _ = False"

text \<open>A run as the list of its events, each with the rosters up to its time.\<close>

fun seen :: "'tcp net_libs \<Rightarrow> hello \<Rightarrow> net \<Rightarrow> 'tcp net_event list \<Rightarrow> (roster list \<times> 'tcp net_event) list" where
  "seen lib local s [] = []"
| "seen lib local s (e # es) = (n_rosters s, e) # seen lib local (net_step lib local s e) es"

definition vouched :: "'tcp net_libs \<Rightarrow> (roster list \<times> 'tcp net_event) list \<Rightarrow> string \<Rightarrow> bool" where
  "vouched lib log d \<longleftrightarrow> (\<exists>key. list_ex (\<lambda>(rs, e). vouches lib rs d key e) log)"

fun claims :: "internal \<Rightarrow> string set" where
  "claims (InboundReady peer cs) = {hello_id peer}"
| "claims (ConnUp d name cs addr ch) = {d}"
| "claims _ = {}"

text \<open>Every place an id can come from is vouched for.\<close>

definition authentic :: "'tcp net_libs \<Rightarrow> (roster list \<times> 'tcp net_event) list \<Rightarrow> net \<Rightarrow> bool" where
  "authentic lib log s \<longleftrightarrow>
     (\<forall>d. (\<exists>msg\<in>set (n_queue s). d \<in> claims msg) \<or> (\<exists>n. (n, d) \<in> set (n_open s))
        \<or> (\<exists>n. (n, ConnTask d) \<in> set (m_live (n_mgr s))) \<or> sender (m_bus (n_mgr s)) d \<noteq> None
        \<longrightarrow> vouched lib log d)"

definition rosters_ok :: "net \<Rightarrow> bool" where
  "rosters_ok s \<longleftrightarrow> n_rosters s \<noteq> [] \<and> hd (n_rosters s) = m_roster (n_mgr s)
     \<and> (\<forall>r\<in>set (n_rosters s). roster_wf r \<and> (\<forall>d key. key_for_id r d = Some key \<longrightarrow> arr32 key))"

definition tls_sound :: "'tcp tls_stack \<Rightarrow> bool" where
  "tls_sound tls \<longleftrightarrow> (\<forall>v t certs s. tls v t = Done (certs, s) \<longrightarrow> certs \<noteq> [] \<and> v (hd certs) = Inr ())"

section \<open>Lemmas\<close>

lemma seen_snoc: "seen lib local s (es @ [e]) = seen lib local s es @ [(n_rosters (foldl (net_step lib local) s es), e)]"
  by (induction es arbitrary: s) simp_all

lemma vouched_mono: "vouched lib log d \<Longrightarrow> vouched lib (log @ [x]) d"
  unfolding vouched_def by auto

lemma vouched_last: "vouches lib rs d key e \<Longrightarrow> vouched lib (log @ [(rs, e)]) d"
  unfolding vouched_def by auto

text \<open>What the manager can add: a task for the id of an inbound connection, a link for the id of an announcement.\<close>

lemma ensure_trusted_conn: "(n, ConnTask d) \<in> set (m_live (ensure_trusted m p)) \<longleftrightarrow> (n, ConnTask d) \<in> set (m_live m)"
  by (auto simp: ensure_trusted_def ensure_peer_def Let_def put_entry_def case_prod_beta split: role.splits option.splits)

lemma ensure_all_conn: "(n, ConnTask d) \<in> set (m_live (foldl ensure_trusted m ps)) \<longleftrightarrow> (n, ConnTask d) \<in> set (m_live m)"
  by (induction ps arbitrary: m) (simp_all add: ensure_trusted_conn)

lemma manager_conn:
  assumes "(n, ConnTask d) \<in> set (m_live (manager_step m msg))"
  shows "(n, ConnTask d) \<in> set (m_live m) \<or> d \<in> claims msg"
proof (cases msg)
  case (RosterChanged ks)
  with assms show ?thesis
    using drop_all_facts[of m "filter (\<lambda>d. \<not> is_trusted_id (m_roster m) d) (map fst (m_peers m))"]
    by (auto simp: roster_changed_def Let_def ensure_all_conn)
next
  case (InboundReady peer cs)
  with assms show ?thesis
    by (auto simp: inbound_ready_def Let_def put_entry_def case_prod_beta emit_def live_abort spawn_def abort_def
        split: option.splits if_splits)
qed (use assms in \<open>auto simp: Let_def ensure_trusted_conn put_entry_def conn_up_def conn_down_def emit_def split: option.splits\<close>)

lemma manager_sender:
  assumes "sender (m_bus (manager_step m msg)) d \<noteq> None"
  shows "sender (m_bus m) d \<noteq> None \<or> d \<in> claims msg"
proof (cases msg)
  case (RosterChanged ks)
  let ?ds = "filter (\<lambda>d. \<not> is_trusted_id (m_roster m) d) (map fst (m_peers m))"
  from RosterChanged assms show ?thesis
    using drop_all_facts[of m ?ds] ensure_all_facts[of "foldl drop_peer m ?ds"]
    by (auto simp: roster_changed_def Let_def split: if_splits)
next
  case (InboundReady peer cs)
  have "m_bus (inbound_ready peer cs m) = m_bus m"
    by (auto simp: inbound_ready_def Let_def put_entry_def case_prod_beta emit_def split: option.splits)
  with InboundReady assms show ?thesis by simp
next
  case (Found p)
  with assms show ?thesis by (simp add: Let_def ensure_trusted_facts)
qed (use assms in \<open>auto simp: Let_def put_entry_def conn_up_def conn_down_def emit_def sender_insert sender_remove
      split: option.splits if_splits\<close>)

lemma manager_roster: "m_roster (manager_step m msg) = m_roster m"
proof (cases msg)
  case (RosterChanged ks)
  let ?ds = "filter (\<lambda>d. \<not> is_trusted_id (m_roster m) d) (map fst (m_peers m))"
  from RosterChanged show ?thesis
    using drop_all_facts[of m ?ds] ensure_all_facts[of "foldl drop_peer m ?ds"]
    by (simp add: roster_changed_def Let_def)
next
  case (InboundReady peer cs)
  then show ?thesis
    by (auto simp: inbound_ready_def Let_def put_entry_def case_prod_beta emit_def split: option.splits)
next
  case (Found p)
  then show ?thesis by (simp add: Let_def ensure_trusted_facts)
qed (auto simp: Let_def put_entry_def conn_up_def conn_down_def emit_def split: option.splits)

lemma loaded_roster_ok:
  assumes "peers_wf ps" "r = roster_load unb64 resolve r0 ps"
  shows "roster_wf r \<and> (\<forall>d key. key_for_id r d = Some key \<longrightarrow> arr32 key)"
  using load_wf[OF assms(1)] unfolding assms(2)
  by (auto dest!: load_key_for_id simp: key_bytes_def arr32_def split: option.splits if_splits)

text \<open>What the accept task and a dial loop put into the channel is vouched for.\<close>

lemma accept_one_vouches:
  assumes "accept_one (nl_tls lib) (nl_x509 lib) codec late local (rs ! i, rs ! j, rs ! k) t = Some msg"
    and "roster_wf (rs ! k)" "k \<le> j" "j \<le> i" "i < length rs"
  shows "\<exists>peer cs key. msg = InboundReady peer cs \<and> vouches lib rs (hello_id peer) key (Accept late (i, j, k) (Some t))"
proof -
  from assms(1) obtain s w key hs v v' where a: "secure_accept (nl_tls lib) (nl_x509 lib) (rs ! i) (rs ! j) t = Inr ((s, w), key)"
    and h: "handshake (fst codec) (snd codec) late local (map_option rp_id (peer_for_key (rs ! k) key)) s w = (Inr hs, v, v')"
    and m: "msg = InboundReady (hs_peer hs) (hs_caps hs)"
    by (auto simp: accept_one_def Let_def split: sum.splits prod.splits)
  have "key_for_id (rs ! k) (hello_id (hs_peer hs)) = Some key \<or> \<not> is_trusted_key (rs ! k) key"
  proof (cases "peer_for_key (rs ! k) key")
    case None
    then show ?thesis by (simp add: peer_for_key_def is_trusted_key_def)
  next
    case (Some q)
    with handshake_Inr[OF h] ros.owner_key[OF assms(2)] show ?thesis by fastforce
  qed
  moreover from secure_accept_Inr[OF a] obtain c certs where
    "nl_tls lib (verify_client_cert (nl_x509 lib) (rs ! i)) t = Done (c # certs, (s, w))"
    "peer_key_from_cert (nl_x509 lib) c = Inr key" "is_trusted_key (rs ! j) key" by blast
  ultimately have "accepted_with lib rs (i, j, k) (hello_id (hs_peer hs)) key t"
    unfolding accepted_with_def using assms(3-5) by auto
  with m show ?thesis by auto
qed

lemma dial_turn_vouches:
  assumes "tls_sound (nl_tls lib)" "\<And>key. key_for_id r d = Some key \<Longrightarrow> arr32 key"
    and "dial_turn (nl_tls lib) (nl_x509 lib) codec local d (env\<lparr>de_roster := r, de_addrs := as\<rparr>) b = Some (Dialled ok msgs delay, b')"
    and "msgs = up # rest" "rs \<noteq> []" "r = hd rs"
  shows "claims up = {d} \<and> (\<exists>key. vouches lib rs d key (Dial n env))"
proof -
  from assms(3) obtain key where k: "key_for_id r d = Some key"
    and o: "dial_once (nl_tls lib) (nl_x509 lib) codec local (env\<lparr>de_roster := r, de_addrs := as\<rparr>) key d as = (ok, msgs)"
    by (auto simp: dial_turn_def Let_def split: bool.splits option.splits prod.splits)
  with assms(4) have "dial_once (nl_tls lib) (nl_x509 lib) codec local (env\<lparr>de_roster := r, de_addrs := as\<rparr>) key d as = (True, msgs)"
    by (cases ok) (auto dest: dial_once_False)
  from dial_once_True[OF this] obtain addr tcp s w where a: "de_connect env addr = Done tcp"
    "secure_connect (nl_tls lib) (nl_x509 lib) key tcp = Inr (s, w)" and up: "claims up = {d}"
    using assms(4) by auto
  from secure_connect_Inr[OF a(2)] obtain certs where c: "nl_tls lib (verify_server_cert (nl_x509 lib) key) tcp = Done (certs, (s, w))"
    by blast
  have "peer_key_from_cert (nl_x509 lib) (hd certs) = Inr key"
    using assms(1) c verify_server_Inr[OF assms(2)[OF k]] unfolding tls_sound_def by blast
  with a c k assms(5,6) have "dialled_with lib rs d key env" unfolding dialled_with_def by blast
  with up show ?thesis by auto
qed

section \<open>The invariant\<close>

lemma authenticI:
  assumes "authentic lib log s"
    and "\<And>msg d. msg \<in> set (n_queue s') \<Longrightarrow> d \<in> claims msg \<Longrightarrow>
           (\<exists>msg\<in>set (n_queue s). d \<in> claims msg) \<or> (\<exists>n. (n, ConnTask d) \<in> set (m_live (n_mgr s)))
           \<or> (\<exists>key. vouches lib (n_rosters s) d key e)"
    and "\<And>n d. (n, d) \<in> set (n_open s') \<Longrightarrow>
           (\<exists>n. (n, d) \<in> set (n_open s)) \<or> (\<exists>n. (n, ConnTask d) \<in> set (m_live (n_mgr s)))
           \<or> (\<exists>key. vouches lib (n_rosters s) d key e)"
    and "\<And>n d. (n, ConnTask d) \<in> set (m_live (n_mgr s')) \<Longrightarrow>
           (\<exists>n. (n, ConnTask d) \<in> set (m_live (n_mgr s))) \<or> (\<exists>msg\<in>set (n_queue s). d \<in> claims msg)"
    and "\<And>d. sender (m_bus (n_mgr s')) d \<noteq> None \<Longrightarrow>
           sender (m_bus (n_mgr s)) d \<noteq> None \<or> (\<exists>msg\<in>set (n_queue s). d \<in> claims msg)"
  shows "authentic lib (log @ [(n_rosters s, e)]) s'"
  using assms unfolding authentic_def by (metis (no_types, lifting) vouched_last vouched_mono)

lemmas net_defs = accept_loop_def announce_def conn_ends_def discovery_forwarder_def roster_watcher_def
  reload_def take_internal_def post_def

lemma after_turn_same:
  "m_bus (n_mgr (after_turn n d turn s)) = m_bus (n_mgr s) \<and> n_rosters (after_turn n d turn s) = n_rosters s
   \<and> m_roster (n_mgr (after_turn n d turn s)) = m_roster (n_mgr s)
   \<and> set (m_live (n_mgr (after_turn n d turn s))) \<subseteq> set (m_live (n_mgr s))"
  by (auto simp: after_turn_def post_def Let_def live_abort split: option.splits prod.splits dial_result.splits list.splits)

lemma dial_same:
  "m_bus (n_mgr (dial_task tls x509 codec local n env s)) = m_bus (n_mgr s)
   \<and> n_rosters (dial_task tls x509 codec local n env s) = n_rosters s
   \<and> m_roster (n_mgr (dial_task tls x509 codec local n env s)) = m_roster (n_mgr s)
   \<and> set (m_live (n_mgr (dial_task tls x509 codec local n env s))) \<subseteq> set (m_live (n_mgr s))"
  using after_turn_same by (simp add: dial_task_def Let_def split: option.splits task.splits)

lemma rosters_step:
  assumes "rosters_ok s" "case e of Reload ps \<Rightarrow> peers_wf ps | _ \<Rightarrow> True"
  shows "rosters_ok (net_step lib local s e)"
proof (cases e)
  case (Reload ps)
  with assms loaded_roster_ok[OF _ refl, of ps "nl_unb64 lib" "nl_resolve lib" "m_roster (n_mgr s)"] show ?thesis
    by (simp add: rosters_ok_def reload_def Let_def)
next
  case Take
  with assms show ?thesis
    by (simp add: rosters_ok_def take_internal_def Let_def manager_roster split: list.splits)
next
  case (Dial n env)
  with assms show ?thesis by (simp add: rosters_ok_def dial_same)
qed (use assms in \<open>auto simp: rosters_ok_def net_defs Let_def split: prod.splits option.splits internal.splits task.splits
      dial_result.splits list.splits\<close>)

lemma accept_authentic:
  assumes "authentic lib log s" "rosters_ok s" "e = Accept late at tcp"
  shows "authentic lib (log @ [(n_rosters s, e)]) (net_step lib local s e)"
proof (cases "net_step lib local s e = s")
  case True
  with assms(1) show ?thesis by (intro authenticI[OF assms(1)]) auto
next
  case False
  then obtain i j k t msg where at: "at = (i, j, k)" "tcp = Some t" "k \<le> j" "j \<le> i" "i < length (n_rosters s)"
    and one: "accept_one (nl_tls lib) (nl_x509 lib) (nl_codec lib) late local
        (n_rosters s ! i, n_rosters s ! j, n_rosters s ! k) t = Some msg"
    and step: "net_step lib local s e = post msg s"
    unfolding assms(3) by (auto simp: accept_loop_def split: prod.splits option.splits if_splits)
  have "n_rosters s ! k \<in> set (n_rosters s)" using at by simp
  with assms(2) have "roster_wf (n_rosters s ! k)" unfolding rosters_ok_def by blast
  from accept_one_vouches[OF one this at(3-5)] show ?thesis
    unfolding step by (intro authenticI[OF assms(1)]) (auto simp: post_def at assms(3))
qed

text \<open>A dial turn leaves the queue alone, or opens a connection that is vouched for and announces it.\<close>

lemma after_turn_cases:
  "n_queue (after_turn n d turn s) = n_queue s \<and> n_open (after_turn n d turn s) = n_open s
   \<or> (\<exists>ok up rest delay b. turn = Some (Dialled ok (up # rest) delay, b)
        \<and> n_queue (after_turn n d turn s) = n_queue s @ [up] \<and> n_open (after_turn n d turn s) = (n, d) # n_open s)"
  by (simp add: after_turn_def post_def Let_def split: option.splits prod.splits dial_result.splits list.splits)

lemma dial_task_cases:
  assumes "rosters_ok s" "tls_sound (nl_tls lib)"
  obtains (quiet) "n_queue (net_step lib local s (Dial n env)) = n_queue s" "n_open (net_step lib local s (Dial n env)) = n_open s"
    | (up) up d key where "n_queue (net_step lib local s (Dial n env)) = n_queue s @ [up]"
      "n_open (net_step lib local s (Dial n env)) = (n, d) # n_open s" "claims up = {d}"
      "vouches lib (n_rosters s) d key (Dial n env)"
proof -
  let ?r = "m_roster (n_mgr s)"
  have r: "n_rosters s \<noteq> []" "?r = hd (n_rosters s)" "\<And>d key. key_for_id ?r d = Some key \<Longrightarrow> arr32 key"
    using assms(1) unfolding rosters_ok_def by (metis hd_in_set)+
  have "net_step lib local s (Dial n env) = s
    \<or> (\<exists>d as. net_step lib local s (Dial n env) = after_turn n d
        (dial_turn (nl_tls lib) (nl_x509 lib) (nl_codec lib) local d (env\<lparr>de_roster := ?r, de_addrs := as\<rparr>) (n_backoff s n)) s)"
    by (simp add: dial_task_def Let_def split: option.splits task.splits) blast
  then consider "net_step lib local s (Dial n env) = s"
    | d as where "net_step lib local s (Dial n env) = after_turn n d
        (dial_turn (nl_tls lib) (nl_x509 lib) (nl_codec lib) local d (env\<lparr>de_roster := ?r, de_addrs := as\<rparr>) (n_backoff s n)) s"
    by blast
  then show ?thesis
  proof cases
    case 1
    with that(1) show ?thesis by simp
  next
    case (2 d as)
    let ?turn = "dial_turn (nl_tls lib) (nl_x509 lib) (nl_codec lib) local d (env\<lparr>de_roster := ?r, de_addrs := as\<rparr>) (n_backoff s n)"
    from after_turn_cases[of n d ?turn s] show ?thesis
    proof
      assume "\<exists>ok up rest delay b. ?turn = Some (Dialled ok (up # rest) delay, b)
        \<and> n_queue (after_turn n d ?turn s) = n_queue s @ [up] \<and> n_open (after_turn n d ?turn s) = (n, d) # n_open s"
      then obtain ok up rest delay b where t: "?turn = Some (Dialled ok (up # rest) delay, b)"
        and q: "n_queue (after_turn n d ?turn s) = n_queue s @ [up]" "n_open (after_turn n d ?turn s) = (n, d) # n_open s"
        by blast
      from dial_turn_vouches[OF assms(2) _ t refl r(1,2), of n] r(3)
      have "claims up = {d} \<and> (\<exists>key. vouches lib (n_rosters s) d key (Dial n env))" by blast
      with that(2)[of up d] q show ?thesis unfolding 2 by blast
    qed (use that(1)[unfolded 2] in blast)
  qed
qed

lemma dial_authentic:
  assumes "authentic lib log s" "rosters_ok s" "tls_sound (nl_tls lib)" "e = Dial n env"
  shows "authentic lib (log @ [(n_rosters s, e)]) (net_step lib local s e)"
proof (rule dial_task_cases[OF assms(2,3), of local n env])
  assume "n_queue (net_step lib local s (Dial n env)) = n_queue s" "n_open (net_step lib local s (Dial n env)) = n_open s"
  then show ?thesis
    using dial_same[of "nl_tls lib" "nl_x509 lib" "nl_codec lib" local n env s] unfolding assms(4)
    by (intro authenticI[OF assms(1)]) auto
next
  fix up d key
  assume "n_queue (net_step lib local s (Dial n env)) = n_queue s @ [up]"
    "n_open (net_step lib local s (Dial n env)) = (n, d) # n_open s" "claims up = {d}"
    "vouches lib (n_rosters s) d key (Dial n env)"
  then show ?thesis
    using dial_same[of "nl_tls lib" "nl_x509 lib" "nl_codec lib" local n env s] unfolding assms(4)
    by (intro authenticI[OF assms(1)]) (auto split: if_splits)
qed

lemma take_authentic:
  assumes "authentic lib log s"
  shows "authentic lib (log @ [(n_rosters s, Take)]) (net_step lib local s Take)"
proof (cases "n_queue s")
  case Nil
  then show ?thesis by (intro authenticI[OF assms]) (auto simp: take_internal_def)
next
  case (Cons msg q)
  let ?m = "manager_step (n_mgr s) msg"
  have s': "n_queue (net_step lib local s Take) = q" "n_mgr (net_step lib local s Take) = ?m"
    "n_rosters (net_step lib local s Take) = n_rosters s" "set (n_open (net_step lib local s Take)) \<subseteq> set (n_open s)"
    by (auto simp: Cons take_internal_def Let_def)
  show ?thesis
  proof (rule authenticI[OF assms], unfold s')
    fix n d assume "(n, ConnTask d) \<in> set (m_live ?m)"
    from manager_conn[OF this]
    show "(\<exists>n. (n, ConnTask d) \<in> set (m_live (n_mgr s))) \<or> (\<exists>msg\<in>set (n_queue s). d \<in> claims msg)"
      unfolding Cons by auto
  next
    fix d assume "sender (m_bus ?m) d \<noteq> None"
    from manager_sender[OF this]
    show "sender (m_bus (n_mgr s)) d \<noteq> None \<or> (\<exists>msg\<in>set (n_queue s). d \<in> claims msg)"
      unfolding Cons by auto
  qed (use s'(4) Cons in auto)
qed

lemma other_authentic:
  assumes "authentic lib log s" "\<And>late at tcp. e \<noteq> Accept late at tcp" "\<And>n env. e \<noteq> Dial n env" "e \<noteq> Take"
  shows "authentic lib (log @ [(n_rosters s, e)]) (net_step lib local s e)"
proof (cases e)
  case (Announce n ch)
  then show ?thesis
    by (intro authenticI[OF assms(1)])
      (auto simp: announce_def post_def dest!: map_of_SomeD split: option.splits task.splits prod.splits)
next
  case (ConnEnds n reason)
  have "set (AList.delete n (n_open s)) \<subseteq> set (n_open s)" by (auto simp: AList.delete_eq)
  with ConnEnds show ?thesis
    by (intro authenticI[OF assms(1)])
      (auto simp: conn_ends_def post_def Let_def live_abort split: option.splits task.splits prod.splits)
next
  case (Mdns ev)
  then show ?thesis
    by (intro authenticI[OF assms(1)]) (auto simp: discovery_forwarder_def post_def split: internal.splits)
next
  case (RosterTold ks)
  then show ?thesis by (intro authenticI[OF assms(1)]) (auto simp: roster_watcher_def post_def)
next
  case (Reload ps)
  then show ?thesis by (intro authenticI[OF assms(1)]) (auto simp: reload_def Let_def)
qed (use assms in auto)

lemma step_authentic:
  assumes "authentic lib log s" "rosters_ok s" "tls_sound (nl_tls lib)"
  shows "authentic lib (log @ [(n_rosters s, e)]) (net_step lib local s e)"
  using assms accept_authentic dial_authentic take_authentic other_authentic by metis

fun reload_ok :: "'tcp net_event \<Rightarrow> bool" where
  "reload_ok (Reload ps) = peers_wf ps"
| "reload_ok _ = True"

lemma start_authentic:
  assumes "peers_wf ps"
  shows "rosters_ok (net_start lib local ps ks) \<and> authentic lib [] (net_start lib local ps ks)"
proof -
  let ?r = "roster_load (nl_unb64 lib) (nl_resolve lib) roster_empty ps"
  let ?m = "\<lparr>m_own = hello_id local, m_roster = ?r, m_peers = [], m_discovered = [], m_bus = bus_new, m_next = 0,
      m_live = [], m_events = []\<rparr>"
  have "m_roster (mgr_start (hello_id local) ?r ks bus_new) = ?r" "m_bus (mgr_start (hello_id local) ?r ks bus_new) = bus_new"
    using ensure_all_facts[of ?m "static_peers ?r ks"] by (simp_all add: mgr_start_def)
  moreover have "(n, ConnTask d) \<notin> set (m_live (mgr_start (hello_id local) ?r ks bus_new))" for n d
    by (simp add: mgr_start_def ensure_all_conn)
  ultimately show ?thesis
    using loaded_roster_ok[OF assms refl, of "nl_unb64 lib" "nl_resolve lib" roster_empty]
    by (simp add: net_start_def Let_def rosters_ok_def authentic_def sender_def bus_new_def)
qed

lemma run_authentic:
  assumes "tls_sound (nl_tls lib)" "peers_wf ps" "list_all reload_ok evs"
  shows "rosters_ok (foldl (net_step lib local) (net_start lib local ps ks) evs)
    \<and> authentic lib (seen lib local (net_start lib local ps ks) evs) (foldl (net_step lib local) (net_start lib local ps ks) evs)"
  using assms(3)
proof (induction evs rule: rev_induct)
  case Nil
  then show ?case using start_authentic[OF assms(2)] by simp
next
  case (snoc e evs)
  moreover have "case e of Reload ps \<Rightarrow> peers_wf ps | _ \<Rightarrow> True" using snoc.prems by (cases e) simp_all
  ultimately show ?case using rosters_step[where e = e] step_authentic[OF _ _ assms(1)] by (simp add: seen_snoc)
qed

section \<open>Properties\<close>

text \<open>
  C5. Nobody gets a link without the pinned key: over any interleaving of accepted and dialled
  connections, announcements, disconnects, mDNS reports, pairings and unpairings, provided
  TLS completes a handshake only if the verifier accepted the certificate, every device on the
  bus, and every device under whose id frames reach the router, went through a handshake of
  this run in which it held a key. If it was dialled, that key is the one the roster pinned for
  exactly that device at the time of the dial. If it was accepted, the key was trusted by the
  roster read after the handshake, and by the roster read last, for the identity check of the
  same event, it was pinned for exactly that device or not trusted at all any more (the device
  was unpaired between the two reads).
\<close>

theorem links_are_authenticated:
  assumes "tls_sound (nl_tls lib)" "peers_wf ps" "list_all reload_ok evs"
    and "s = foldl (net_step lib local) (net_start lib local ps ks) evs"
    and "d \<in> set (connected_ids (m_bus (n_mgr s))) \<or> d \<in> snd ` set (n_open s)"
  shows "\<exists>key. list_ex (\<lambda>(rs, e). case e of
      Accept late at (Some t) \<Rightarrow> accepted_with lib rs at d key t
    | Dial n env \<Rightarrow> dialled_with lib rs d key env
    | _ \<Rightarrow> False) (seen lib local (net_start lib local ps ks) evs)"
proof -
  let ?log = "seen lib local (net_start lib local ps ks) evs"
  have "sender (m_bus (n_mgr s)) d \<noteq> None \<or> (\<exists>n. (n, d) \<in> set (n_open s))"
    using assms(5) by (auto simp: connected_ids_def sender_def map_of_eq_None_iff)
  then have "vouched lib ?log d"
    using run_authentic[OF assms(1-3), of local ks] unfolding assms(4)[symmetric] authentic_def by blast
  then obtain key rs e where e: "(rs, e) \<in> set ?log" "vouches lib rs d key e" unfolding vouched_def list_ex_iff by blast
  then have "case e of Accept late at (Some t) \<Rightarrow> accepted_with lib rs at d key t
    | Dial n env \<Rightarrow> dialled_with lib rs d key env | _ \<Rightarrow> False"
    by (cases "(lib, rs, d, key, e)" rule: vouches.cases) simp_all
  with e(1) show ?thesis unfolding list_ex_iff by blast
qed

definition ln_libs :: "(bytes \<times> string) net_libs" where
  "ln_libs = \<lparr>nl_tls = sec_tls, nl_x509 = Some, nl_codec = (hello_enc, hello_dec), nl_unb64 = ex_unb64, nl_resolve = (\<lambda>_. None)\<rparr>"

text \<open>The device \<open>aa\<close> is paired and connects to \<open>cc\<close>, which accepts it.\<close>

definition ln_run :: "(bytes \<times> string) net_event list" where
  "ln_run = [Accept False (0, 0, 0) (Some (str_bytes (ex_key (CHR ''1'')), ''aa'')), Take, Announce 0 0, Take]"

lemma ln_start: "net_start ln_libs (ex_hello ''cc'') sec_ps [] =
    \<lparr>n_mgr = \<lparr>m_own = ''cc'', m_roster = sec_roster, m_peers = [], m_discovered = [], m_bus = bus_new, m_next = 0,
       m_live = [], m_events = []\<rparr>,
     n_rosters = [sec_roster], n_queue = [], n_accepted = [], n_open = [],
     n_backoff = (\<lambda>_. backoff_new 1000000000 60000000000)\<rparr>"
  by (simp add: net_start_def Let_def ln_libs_def sec_roster_def[symmetric] mgr_start_def static_peers_def
      peers_with_static_addrs_def map_filter_def transport_config_new_def ex_hello_def)

lemma ln_accept:
  "accept_one sec_tls Some (hello_enc, hello_dec) False (ex_hello ''cc'') (sec_roster, sec_roster, sec_roster)
      (str_bytes (ex_key (CHR ''1'')), ''aa'') = Some (InboundReady (ex_hello ''aa'') (intersect caps_ALL caps_ALL))"
  by (rule sec_accept) (simp_all add: sec_owner)

lemma ln_hello: "hello_id (ex_hello d) = d"
  by (simp add: ex_hello_def)

lemma ln_run_link:
  "connected_ids (m_bus (n_mgr (foldl (net_step ln_libs (ex_hello ''cc'')) (net_start ln_libs (ex_hello ''cc'') sec_ps []) ln_run)))
     = [''aa'']"
  unfolding ln_start ln_run_def
  by (simp add: accept_loop_def ln_libs_def ln_accept post_def take_internal_def inbound_ready_def Let_def ln_hello
      role_for_def entry_or_def entry_new_def spawn_def put_entry_def announce_def conn_up_def emit_def bus_insert_def
      connected_ids_def bus_new_def)

theorem links_are_authenticated_witness:
  "\<exists>key. list_ex (\<lambda>(rs, e). case e of
      Accept late at (Some t) \<Rightarrow> accepted_with ln_libs rs at ''aa'' key t
    | Dial n env \<Rightarrow> dialled_with ln_libs rs ''aa'' key env
    | _ \<Rightarrow> False) (seen ln_libs (ex_hello ''cc'') (net_start ln_libs (ex_hello ''cc'') sec_ps []) ln_run)"
proof -
  have "tls_sound (nl_tls ln_libs)" by (simp add: tls_sound_def ln_libs_def sec_tls_def)
  moreover have "peers_wf sec_ps" by (simp add: sec_ps_def peers_wf_def)
  moreover have "list_all reload_ok ln_run" by (simp add: ln_run_def)
  ultimately show ?thesis
    using links_are_authenticated[OF _ _ _ refl, of ln_libs sec_ps ln_run "''aa''" "ex_hello ''cc''" "[]"] ln_run_link by simp
qed

end
