(* ===== verification/Discovery.thy ===== *)
theory Discovery
  imports Links Pairing
begin

text \<open>
  \<open>crates/qdropd/src/discovery.rs\<close> and the advertisement of \<open>crates/qdrop-core/src/pairing.rs\<close>:
  what a device registers with mDNS, what another one makes of the service when it resolves,
  and the loop that forwards mDNS events to the manager. The mDNS daemon (\<open>mdns-sd\<close>) is a
  parameter: whether its calls succeed and the full name it gives a service.
\<close>

section \<open>Advertising\<close>

definition SERVICE_TYPE :: string where
  "SERVICE_TYPE = ''_qdrop._tcp.local.''"

text \<open>What is handed to \<open>ServiceInfo::new\<close>; the addresses are filled in by the library.\<close>

record service =
  sv_type :: string
  sv_instance :: string
  sv_host :: string
  sv_port :: u16
  sv_txt :: "(string \<times> string) list"

definition qdrop_service :: "string \<Rightarrow> string \<Rightarrow> u16 \<Rightarrow> service" where
  "qdrop_service device_id device_name advertise_port =
    \<lparr>sv_type = SERVICE_TYPE, sv_instance = device_id, sv_host = device_id @ ''.local.'', sv_port = advertise_port,
     sv_txt = [(''id'', device_id), (''name'', device_name), (''fp'', device_id)]\<rparr>"

definition pair_service :: "string \<Rightarrow> string \<Rightarrow> service" where
  "pair_service device_id device_name =
    \<lparr>sv_type = PAIR_SERVICE_TYPE, sv_instance = device_id, sv_host = device_id @ ''.local.'', sv_port = PAIR_PORT,
     sv_txt = [(''id'', device_id), (''name'', device_name)]\<rparr>"

record mdns_lib =
  md_new :: "(string, unit) res"
  md_info :: "service \<Rightarrow> (string, string) res"
  md_register :: "service \<Rightarrow> (string, unit) res"
  md_browse :: "string \<Rightarrow> (string, unit) res"
  md_unregister :: "string \<Rightarrow> (string, unit) res"

text \<open>The handle keeps the daemon, with what is registered there, and the full name.\<close>

record advert =
  ad_registered :: "(string \<times> service) list"
  ad_fullname :: string
  ad_running :: bool

definition register_service :: "mdns_lib \<Rightarrow> string \<times> string \<times> string \<Rightarrow> service \<Rightarrow> (string, advert) res" where
  "register_service lib contexts sv =
    (case contexts of (starting, building, registering) \<Rightarrow>
     case md_new lib of
       Inl e \<Rightarrow> Inl (starting @ '': '' @ e)
     | Inr _ \<Rightarrow>
         (case md_info lib sv of
            Inl e \<Rightarrow> Inl (building @ '': '' @ e)
          | Inr full \<Rightarrow>
              (case md_register lib sv of
                 Inl e \<Rightarrow> Inl (registering @ '': '' @ e)
               | Inr _ \<Rightarrow> Inr \<lparr>ad_registered = [(full, sv)], ad_fullname = full, ad_running = True\<rparr>)))"

definition discovery_start :: "mdns_lib \<Rightarrow> string \<Rightarrow> string \<Rightarrow> u16 \<Rightarrow> (string, advert) res" where
  "discovery_start lib device_id device_name advertise_port =
    (case register_service lib (''starting mDNS daemon'', ''building service info'', ''registering mDNS service'')
            (qdrop_service device_id device_name advertise_port) of
       Inl e \<Rightarrow> Inl e
     | Inr ad \<Rightarrow>
         (case md_browse lib SERVICE_TYPE of
            Inl e \<Rightarrow> Inl (''starting mDNS browse: '' @ e)
          | Inr _ \<Rightarrow> Inr ad))"

definition pair_advert_start :: "mdns_lib \<Rightarrow> string \<Rightarrow> string \<Rightarrow> (string, advert) res" where
  "pair_advert_start lib device_id device_name =
     register_service lib (''starting mDNS for pairing'', ''building pairing service info'', ''registering pairing service'')
       (pair_service device_id device_name)"

definition advert_stop :: "mdns_lib \<Rightarrow> advert \<Rightarrow> advert" where
  "advert_stop lib ad =
    (let ad = (case md_unregister lib (ad_fullname ad) of
           Inr _ \<Rightarrow> ad\<lparr>ad_registered := filter (\<lambda>(full, _). full \<noteq> ad_fullname ad) (ad_registered ad)\<rparr>
         | Inl _ \<Rightarrow> ad)
     in ad\<lparr>ad_running := False\<rparr>)"

section \<open>Browsing\<close>

record resolved_service =
  rs_id :: "string option"
  rs_name :: "string option"
  rs_fp :: "string option"
  rs_addresses :: "ip_addr list"
  rs_port :: u16

definition to_peer :: "resolved_service \<Rightarrow> string \<Rightarrow> discovered_peer option" where
  "to_peer info own_id =
    (case rs_id info of
       None \<Rightarrow> None
     | Some d \<Rightarrow>
         if d = own_id then None
         else (let addrs = map (\<lambda>ip. socket_new ip (rs_port info)) (rs_addresses info) in
           if addrs = [] then None
           else Some \<lparr>dp_id = d, dp_name = (case rs_name info of Some n \<Rightarrow> n | None \<Rightarrow> d),
                      dp_fingerprint = (case rs_fp info of Some f \<Rightarrow> f | None \<Rightarrow> d), dp_addrs = addrs\<rparr>))"

definition instance_of :: "string \<Rightarrow> string option" where
  "instance_of full = strip_suffix full (''.'' @ SERVICE_TYPE)"

datatype mdns_event = MdnsResolved resolved_service | MdnsRemoved string | MdnsOther

definition discovery_step :: "string \<Rightarrow> mdns_event \<Rightarrow> internal option" where
  "discovery_step own_id ev =
    (case ev of
       MdnsResolved info \<Rightarrow> map_option Found (to_peer info own_id)
     | MdnsRemoved full \<Rightarrow>
         (case instance_of full of
            Some d \<Rightarrow> if d \<noteq> own_id then Some (Lost d) else None
          | None \<Rightarrow> None)
     | MdnsOther \<Rightarrow> None)"

text \<open>The browse loop: it ends with the mDNS daemon, or when the manager no longer listens.\<close>

fun discovery_loop :: "string \<Rightarrow> (mdns_event \<times> bool) list \<Rightarrow> internal list" where
  "discovery_loop own_id [] = []"
| "discovery_loop own_id ((ev, listening) # evs) =
     (case discovery_step own_id ev of
        None \<Rightarrow> discovery_loop own_id evs
      | Some msg \<Rightarrow> if listening then msg # discovery_loop own_id evs else [])"

section \<open>What mDNS carries from one device to the other\<close>

text \<open>
  A registered service resolves, on another machine, to its TXT records and its port, with
  addresses of the host; its full name is the instance followed by the type.
\<close>

definition names_ok :: "mdns_lib \<Rightarrow> bool" where
  "names_ok lib \<longleftrightarrow> (\<forall>sv full. md_info lib sv = Inr full \<longrightarrow> full = sv_instance sv @ ''.'' @ sv_type sv)"

definition as_resolved :: "service \<Rightarrow> ip_addr list \<Rightarrow> resolved_service" where
  "as_resolved sv ips =
    \<lparr>rs_id = map_of (sv_txt sv) ''id'', rs_name = map_of (sv_txt sv) ''name'', rs_fp = map_of (sv_txt sv) ''fp'',
     rs_addresses = ips, rs_port = sv_port sv\<rparr>"

definition as_pairing :: "string \<Rightarrow> service \<Rightarrow> ip_addr list \<Rightarrow> service_info" where
  "as_pairing full sv ips =
    \<lparr>txt_name = map_of (sv_txt sv) ''name'', fullname = full, addresses = ips, svc_port = sv_port sv\<rparr>"

section \<open>Lemmas\<close>

lemma found_peer:
  assumes "d \<noteq> own" "ips \<noteq> []"
  shows "discovery_step own (MdnsResolved (as_resolved (qdrop_service d name port) ips))
    = Some (Found \<lparr>dp_id = d, dp_name = name, dp_fingerprint = d, dp_addrs = map (\<lambda>ip. socket_new ip port) ips\<rparr>)"
  using assms by (simp add: discovery_step_def to_peer_def as_resolved_def qdrop_service_def)

lemma strip_suffix_append: "strip_suffix (a @ b) b = Some a"
  by (simp add: strip_suffix_def)

lemma register_fullname:
  "names_ok lib \<Longrightarrow> register_service lib cs sv = Inr ad \<Longrightarrow> ad_fullname ad = sv_instance sv @ ''.'' @ sv_type sv"
  by (auto simp: register_service_def names_ok_def split: sum.splits prod.splits)

lemma start_fullname:
  "names_ok lib \<Longrightarrow> discovery_start lib d name port = Inr ad \<Longrightarrow> ad_fullname ad = d @ ''.'' @ SERVICE_TYPE"
  using register_fullname by (fastforce simp: discovery_start_def qdrop_service_def split: sum.splits)

lemma lost_peer:
  assumes "names_ok lib" "discovery_start lib d name port = Inr ad" "d \<noteq> own"
  shows "discovery_step own (MdnsRemoved (ad_fullname ad)) = Some (Lost d)"
  using assms(3) strip_suffix_append[of d "''.'' @ SERVICE_TYPE"]
  by (simp add: start_fullname[OF assms(1,2)] discovery_step_def instance_of_def)

lemma ensure_peer_book:
  assumes "role_for (m_own m) (dp_id p) = Dialer"
  shows "\<exists>e. map_of (m_peers (ensure_peer p m)) (dp_id p) = Some e \<and> pe_name e = dp_name p
      \<and> pe_addrs e = Some (dial_addrs (m_roster m) p)"
    and "map_of (m_peers m) (dp_id p) = None \<Longrightarrow> (m_next m, DialTask (dp_id p)) \<in> set (m_live (ensure_peer p m))"
  using assms
  by (auto simp: ensure_peer_def Let_def entry_or_def entry_new_def put_entry_def update_conv' case_prod_beta split: option.splits)

lemma dial_addrs_prefix: "\<exists>more. dial_addrs r p = dp_addrs p @ more"
proof -
  have "\<exists>more. foldl (\<lambda>as sa. if sa \<in> set as then as else as @ [sa]) xs ys = xs @ more" for xs ys :: "socket_addr list"
  proof (induction ys arbitrary: xs)
    case (Cons y ys)
    show ?case using Cons[of xs] Cons[of "xs @ [y]"] by auto
  qed simp
  then show ?thesis by (simp add: dial_addrs_def)
qed

section \<open>Properties\<close>

text \<open>
  C29. An advertised device is found and dialled: when a device has started advertising and its
  service resolves on another one that trusts it and is the one to dial, the manager there
  gives it an address book that begins with its addresses at the advertised port, under its
  own name, and starts a dial loop if it did not know the device yet; when the service is
  withdrawn, the book falls back to the configured addresses. A device never finds itself.
\<close>

theorem advertised_device_is_dialled:
  assumes "names_ok lib" "discovery_start lib d name port = Inr ad" "ips \<noteq> []" "d \<noteq> m_own m"
    and "is_trusted_id (m_roster m) d" "role_for (m_own m) d = Dialer"
    and "m' = foldl manager_step m (discovery_loop (m_own m) [(MdnsResolved (as_resolved (qdrop_service d name port) ips), True)])"
    and "m'' = foldl manager_step m' (discovery_loop (m_own m) [(MdnsRemoved (ad_fullname ad), True)])"
  shows "(\<exists>e more. map_of (m_peers m') d = Some e \<and> pe_name e = name
        \<and> pe_addrs e = Some (map (\<lambda>ip. socket_new ip port) ips @ more))
    \<and> (map_of (m_peers m) d = None \<longrightarrow> (m_next m, DialTask d) \<in> set (m_live m'))
    \<and> (\<exists>e. map_of (m_peers m'') d = Some e \<and> pe_addrs e = Some (static_addrs_for (m_roster m) d))
    \<and> discovery_loop d [(MdnsResolved (as_resolved (qdrop_service d name port) ips), True), (MdnsRemoved (ad_fullname ad), True)] = []"
proof -
  let ?p = "\<lparr>dp_id = d, dp_name = name, dp_fingerprint = d, dp_addrs = map (\<lambda>ip. socket_new ip port) ips\<rparr>"
  let ?m = "m\<lparr>m_discovered := AList.update d ?p (m_discovered m)\<rparr>"
  have m': "m' = ensure_peer ?p ?m"
    using assms(5) by (simp add: assms(7) found_peer[OF assms(4,3)] Let_def ensure_trusted_def)
  have r: "role_for (m_own ?m) (dp_id ?p) = Dialer" using assms(6) by simp
  from ensure_peer_book(1)[OF r] obtain e where e: "map_of (m_peers m') d = Some e" "pe_name e = name"
    "pe_addrs e = Some (dial_addrs (m_roster m) ?p)" unfolding m' by auto
  have roster: "m_roster m' = m_roster m"
    using ensure_trusted_facts(1)[of ?m ?p] assms(5) unfolding m' by (simp add: ensure_trusted_def)
  have "m'' = manager_step m' (Lost d)"
    by (simp add: assms(8) lost_peer[OF assms(1,2,4)])
  with e have "\<exists>e. map_of (m_peers m'') d = Some e \<and> pe_addrs e = Some (static_addrs_for (m_roster m) d)"
    by (simp add: Let_def map_of_put roster)
  moreover have "map_of (m_peers m) d = None \<longrightarrow> (m_next m, DialTask d) \<in> set (m_live m')"
    using ensure_peer_book(2)[OF r] unfolding m' by simp
  moreover have "discovery_loop d [(MdnsResolved (as_resolved (qdrop_service d name port) ips), True), (MdnsRemoved (ad_fullname ad), True)] = []"
    using strip_suffix_append[of d "''.'' @ SERVICE_TYPE"]
    by (simp add: discovery_step_def to_peer_def as_resolved_def qdrop_service_def start_fullname[OF assms(1,2)] instance_of_def)
  ultimately show ?thesis using e dial_addrs_prefix[of "m_roster m" ?p] by auto
qed

definition ex_mdns :: mdns_lib where
  "ex_mdns = \<lparr>md_new = Inr (), md_info = (\<lambda>sv. Inr (sv_instance sv @ ''.'' @ sv_type sv)), md_register = (\<lambda>_. Inr ()),
     md_browse = (\<lambda>_. Inr ()), md_unregister = (\<lambda>_. Inr ())\<rparr>"

definition ex_mgr :: mgr where
  "ex_mgr = mgr_start ''cccc'' (tr_roster ''dddd'') [] bus_new"

theorem advertised_device_is_dialled_witness:
  "(0, DialTask ''dddd'') \<in> set (m_live (foldl manager_step ex_mgr (discovery_loop ''cccc''
     [(MdnsResolved (as_resolved (qdrop_service ''dddd'' ''n'' 4711) [V4 [10, 0, 0, 1]]), True)])))"
proof -
  have n: "names_ok ex_mdns" by (simp add: names_ok_def ex_mdns_def)
  have s: "discovery_start ex_mdns ''dddd'' ''n'' 4711
      = Inr \<lparr>ad_registered = [(''dddd.'' @ SERVICE_TYPE, qdrop_service ''dddd'' ''n'' 4711)],
             ad_fullname = ''dddd.'' @ SERVICE_TYPE, ad_running = True\<rparr>"
    by (simp add: discovery_start_def register_service_def ex_mdns_def qdrop_service_def)
  have m: "m_own ex_mgr = ''cccc''" "m_roster ex_mgr = tr_roster ''dddd''" "m_peers ex_mgr = []" "m_next ex_mgr = 0"
    by (simp_all add: ex_mgr_def mgr_start_def static_peers_def peers_with_static_addrs_def map_filter_def)
  have t: "is_trusted_id (tr_roster ''dddd'') ''dddd''"
    by (simp add: tr_roster_def is_trusted_id_def roster_insert_def)
  show ?thesis
    using advertised_device_is_dialled[OF n s _ _ _ _ refl refl, of "[V4 [10, 0, 0, 1]]" ex_mgr] t
    by (simp add: m role_for_def)
qed

text \<open>
  mDNS is not authenticated, and the last record wins: whatever record names a paired device
  (its id is all that is needed) replaces the addresses the device itself announced. For a
  device without configured address nothing of them is left, until it announces itself again.
\<close>

theorem forged_record_displaces_the_address:
  assumes "forged \<noteq> []" "d \<noteq> m_own m" "is_trusted_id (m_roster m) d" "role_for (m_own m) d = Dialer"
    and "static_addrs_for (m_roster m) d = []"
    and "m' = foldl manager_step m (discovery_loop (m_own m) [(MdnsResolved (as_resolved (qdrop_service d name port) forged), True)])"
  shows "\<exists>e. map_of (m_peers m') d = Some e \<and> pe_addrs e = Some (map (\<lambda>ip. socket_new ip port) forged)"
proof -
  let ?p = "\<lparr>dp_id = d, dp_name = name, dp_fingerprint = d, dp_addrs = map (\<lambda>ip. socket_new ip port) forged\<rparr>"
  let ?m = "m\<lparr>m_discovered := AList.update d ?p (m_discovered m)\<rparr>"
  have m': "m' = ensure_peer ?p ?m"
    using assms(3) by (simp add: assms(6) found_peer[OF assms(2,1)] Let_def ensure_trusted_def)
  have r: "role_for (m_own ?m) (dp_id ?p) = Dialer" using assms(4) by simp
  show ?thesis using ensure_peer_book(1)[OF r] assms(5) unfolding m' by (auto simp: dial_addrs_def)
qed

text \<open>
  The offering device can be paired with by its name: when its pairing service resolves before
  the search ends, the requesting side gets exactly its dialable addresses at the pairing port,
  the best first, whatever the case of the letters typed.
\<close>

theorem pairing_target_is_found:
  assumes "pair_advert_start lib d name = Inr ad" "eq_ignore_ascii_case name target" "parse_ip target = None"
    and "sorted_dialable (map (\<lambda>ip. socket_new ip PAIR_PORT) ips) \<noteq> []"
    and "list_all (\<lambda>ev. case ev of ServiceResolved info \<Rightarrow> \<not> offers target info | OtherEvent \<Rightarrow> True | DaemonGone \<Rightarrow> False) before"
  shows "resolve_target (Inr (before @ ServiceResolved (as_pairing (ad_fullname ad) (pair_service d name) ips) # after)) target
    = Inr (sorted_dialable (map (\<lambda>ip. socket_new ip PAIR_PORT) ips))"
proof -
  have "browse target (before @ ServiceResolved (as_pairing (ad_fullname ad) (pair_service d name) ips) # after)
    = Some (sorted_dialable (map (\<lambda>ip. socket_new ip PAIR_PORT) ips))"
    using assms(5)
  proof (induction before)
    case Nil
    then show ?case using assms(2,4) by (simp add: offers_def as_pairing_def pair_service_def Let_def)
  next
    case (Cons ev before)
    then show ?case by (cases ev) (simp_all add: Let_def)
  qed
  then show ?thesis using assms(3) by (simp add: resolve_target_def)
qed

theorem pairing_target_is_found_witness:
  "resolve_target (Inr [OtherEvent, ServiceResolved (as_pairing (''dddd.'' @ PAIR_SERVICE_TYPE) (pair_service ''dddd'' ''Box'') [V4 [10, 0, 0, 1]])])
     ''bOX'' = Inr (sorted_dialable [socket_new (V4 [10, 0, 0, 1]) PAIR_PORT])"
proof -
  have s: "pair_advert_start ex_mdns ''dddd'' ''Box''
      = Inr \<lparr>ad_registered = [(''dddd.'' @ PAIR_SERVICE_TYPE, pair_service ''dddd'' ''Box'')],
             ad_fullname = ''dddd.'' @ PAIR_SERVICE_TYPE, ad_running = True\<rparr>"
    by (simp add: pair_advert_start_def register_service_def ex_mdns_def pair_service_def)
  have p: "parse_ip ''bOX'' = None" "eq_ignore_ascii_case ''Box'' ''bOX''" by code_simp+
  have "sorted_dialable (map (\<lambda>ip. socket_new ip PAIR_PORT) [V4 [10, 0, 0, 1]]) \<noteq> []"
    by (simp add: sorted_dialable_def socket_new_def)
  from pairing_target_is_found[OF s p(2,1) this, of "[OtherEvent]" "[]"] show ?thesis by simp
qed

text \<open>Withdrawing the advertisement leaves nothing registered, provided the library lets it.\<close>

theorem stopped_advert_is_withdrawn:
  assumes "pair_advert_start lib d name = Inr ad" "md_unregister lib (ad_fullname ad) = Inr ()"
  shows "ad_registered (advert_stop lib ad) = [] \<and> \<not> ad_running (advert_stop lib ad)"
  using assms
  by (auto simp: pair_advert_start_def register_service_def advert_stop_def Let_def split: sum.splits)

text \<open>We never discover ourselves, and what is discovered has an address.\<close>

theorem discovery_never_finds_itself:
  "discovery_step own ev \<noteq> Some (Lost own)
   \<and> (discovery_step own ev = Some (Found p) \<longrightarrow> dp_id p \<noteq> own \<and> dp_addrs p \<noteq> [])"
  by (auto simp: discovery_step_def to_peer_def Let_def split: mdns_event.splits option.splits if_splits)

end
