(* ===== verification/Process.thy ===== *)
theory Process
  imports Discovery Daemon Cli
begin

text \<open>
  The life of daemon processes on one machine: \<open>crates/qdropd/src/main.rs\<close> around
  \<open>real\_main\<close> (exit status, signals, the order of stopping) and \<open>spawn\<close> of
  \<open>crates/qdropd/src/control.rs\<close> (binding the control socket). What processes share is the
  socket in the file system and \<open>state.json\<close>; a process that is killed leaves both behind.
\<close>

section \<open>State\<close>

text \<open>
  A process: where its environment puts the control socket, which of its tasks run, for which
  of SIGTERM and SIGINT it has a handler, its mDNS registration and its publisher. The socket at a path belongs to the process that bound it,
  also when that process is gone.
\<close>

record process =
  pr_alive :: bool
  pr_path :: "(string, string) res"
  pr_manager :: bool
  pr_events :: bool
  pr_control :: bool
  pr_term :: bool
  pr_ctrlc :: bool
  pr_advert :: advert
  pr_pub :: publisher

record host =
  ho_socks :: "string \<rightharpoonup> nat"
  ho_file :: state_file_read
  ho_procs :: "nat \<rightharpoonup> process"

section \<open>Operations\<close>

text \<open>
  \<open>control::spawn\<close>: what is there is removed (\<open>rm\<close> says whether the system allows it), then the
  path is bound, which fails while a file is there; \<open>may_bind\<close> stands for its other failures.
\<close>

definition control_spawn ::
  "nat \<Rightarrow> bool \<Rightarrow> bool \<Rightarrow> (string, string) res \<Rightarrow> (string \<rightharpoonup> nat) \<Rightarrow> (string, unit) res \<times> (string \<rightharpoonup> nat)" where
  "control_spawn n rm may_bind path socks =
    (case path of
       Inl e \<Rightarrow> (Inl e, socks)
     | Inr p \<Rightarrow>
         let socks = (if rm then socks(p := None) else socks)
         in if may_bind \<and> socks p = None then (Inr (), socks(p \<mapsto> n))
            else (Inl (''binding control socket '' @ p), socks))"

text \<open>
  \<open>real\_main\<close> once discovery runs: the tasks are spawned, the control socket is optional, the
  publisher takes over \<open>state.json\<close> (\<open>la\_save\<close> says whether the write works), the handlers for
  signals are installed where the system allows it.
\<close>

record launch =
  la_path :: "(string, string) res"
  la_rm :: bool
  la_bind :: bool
  la_advert :: "(string, advert) res"
  la_save :: bool
  la_term :: bool
  la_ctrlc :: bool
  la_unlink :: bool

definition file_of :: "publisher \<Rightarrow> state_file_read \<Rightarrow> state_file_read" where
  "file_of p f = (case pb_file p of Some st \<Rightarrow> StateBytes (Some st) | None \<Rightarrow> f)"

definition process_start :: "nat \<Rightarrow> launch \<Rightarrow> host \<Rightarrow> host" where
  "process_start n la h =
    (case la_advert la of
       Inl e \<Rightarrow> h
     | Inr ad \<Rightarrow>
         (case control_spawn n (la_rm la) (la_bind la) (la_path la) (ho_socks h) of
            (ctl, socks) \<Rightarrow>
              let pub = publish_start (ho_file h) (la_save la);
                  p = \<lparr>pr_alive = True, pr_path = la_path la, pr_manager = True, pr_events = True,
                       pr_control = (case ctl of Inr _ \<Rightarrow> True | Inl _ \<Rightarrow> False), pr_term = la_term la, pr_ctrlc = la_ctrlc la,
                       pr_advert = ad, pr_pub = pub\<rparr>
              in h\<lparr>ho_socks := socks, ho_file := file_of pub (ho_file h), ho_procs := (ho_procs h)(n \<mapsto> p)\<rparr>))"

text \<open>A transport event of a process, for its publisher.\<close>

definition process_event :: "nat \<Rightarrow> u64 \<times> bool \<times> transport_event \<Rightarrow> host \<Rightarrow> host" where
  "process_event n e h =
    (case ho_procs h n of
       Some p \<Rightarrow>
         if pr_alive p \<and> pr_events p
         then (let pub = publish_step ((pr_pub p)\<lparr>pb_file := None\<rparr>) e
               in h\<lparr>ho_file := file_of pub (ho_file h), ho_procs := (ho_procs h)(n \<mapsto> p\<lparr>pr_pub := pub\<rparr>)\<rparr>)
         else h
     | None \<Rightarrow> h)"

text \<open>
  \<open>wait\_for\_shutdown\<close>: whether the process goes on to stop in an orderly way (\<open>Some True\<close>), is
  killed (\<open>Some False\<close>), or waits. \<open>term\<close> and \<open>ctrlc\<close> say whether the handlers could be installed;
  without the second one the wait is over at once, before any signal.
\<close>

datatype os_signal = SigInt | SigTerm | SigKill

definition wait_for_shutdown :: "bool \<Rightarrow> bool \<Rightarrow> os_signal option \<Rightarrow> bool option" where
  "wait_for_shutdown term ctrlc sig =
    (if sig = Some SigKill then Some False
     else if \<not> ctrlc then Some True
     else (case sig of
             Some SigInt \<Rightarrow> Some True
           | Some SigTerm \<Rightarrow> Some term
           | _ \<Rightarrow> None))"

text \<open>
  What follows the wait: the tasks are aborted, the file at the socket's path is removed,
  discovery is shut down and the process exits.
\<close>

definition shutdown :: "mdns_lib \<Rightarrow> bool \<Rightarrow> nat \<Rightarrow> host \<Rightarrow> host" where
  "shutdown lib rm n h =
    (case ho_procs h n of
       Some p \<Rightarrow>
         let p = p\<lparr>pr_manager := False, pr_events := False, pr_control := False\<rparr>;
             path = (case pr_path p of Inr q \<Rightarrow> q | Inl _ \<Rightarrow> []);
             socks = (if rm then (ho_socks h)(path := None) else ho_socks h);
             p = p\<lparr>pr_advert := advert_stop lib (pr_advert p)\<rparr>
         in h\<lparr>ho_socks := socks, ho_procs := (ho_procs h)(n \<mapsto> p\<lparr>pr_alive := False\<rparr>)\<rparr>
     | None \<Rightarrow> h)"

definition killed :: "nat \<Rightarrow> host \<Rightarrow> host" where
  "killed n h =
    (case ho_procs h n of
       Some p \<Rightarrow> h\<lparr>ho_procs := (ho_procs h)(n \<mapsto> p\<lparr>pr_alive := False, pr_manager := False, pr_events := False,
                    pr_control := False\<rparr>)\<rparr>
     | None \<Rightarrow> h)"

text \<open>The wait of a running process, with the signal that has arrived, if any.\<close>

definition process_wait :: "mdns_lib \<Rightarrow> bool \<Rightarrow> nat \<Rightarrow> os_signal option \<Rightarrow> host \<Rightarrow> host" where
  "process_wait lib rm n sig h =
    (case ho_procs h n of
       Some p \<Rightarrow>
         if pr_alive p
         then (case wait_for_shutdown (pr_term p) (pr_ctrlc p) sig of
                 Some True \<Rightarrow> shutdown lib rm n h
               | Some False \<Rightarrow> killed n h
               | None \<Rightarrow> h)
         else h
     | None \<Rightarrow> h)"

text \<open>\<open>main\<close> of both programs: the exit status and what is printed of an error.\<close>

definition exit_code :: "string \<Rightarrow> (string, 'a) res \<Rightarrow> nat \<times> string" where
  "exit_code prog r = (case r of Inr _ \<Rightarrow> (0, []) | Inl e \<Rightarrow> (1, prog @ '': '' @ e @ [CHR 0x0A]))"

text \<open>A client that connects to the socket at a path reaches the process that listens there.\<close>

definition connect :: "host \<Rightarrow> string \<Rightarrow> (string, nat) res" where
  "connect h path =
    (case ho_socks h path of
       None \<Rightarrow> Inl ''no such file''
     | Some n \<Rightarrow>
         (case ho_procs h n of
            Some p \<Rightarrow> if pr_alive p \<and> pr_control p then Inr n else Inl ''connection refused''
          | None \<Rightarrow> Inl ''connection refused''))"

datatype host_event =
    Launch nat launch
  | Transported nat "u64 \<times> bool \<times> transport_event"
  | Signalled bool nat os_signal

fun host_step :: "mdns_lib \<Rightarrow> host \<Rightarrow> host_event \<Rightarrow> host" where
  "host_step lib h (Launch n la) = process_wait lib (la_unlink la) n None (process_start n la h)"
| "host_step lib h (Transported n e) = process_event n e h"
| "host_step lib h (Signalled rm n sig) = process_wait lib rm n (Some sig) h"

definition host_new :: "state_file_read \<Rightarrow> host" where
  "host_new f = \<lparr>ho_socks = Map.empty, ho_file = f, ho_procs = Map.empty\<rparr>"

section \<open>Lemmas\<close>

text \<open>Daemons of one user run one after the other, with one path that the user may write to.\<close>

definition running :: "host \<Rightarrow> nat \<Rightarrow> bool" where
  "running h n \<longleftrightarrow> (\<exists>p. ho_procs h n = Some p \<and> pr_alive p)"

fun orderly :: "string \<Rightarrow> host \<Rightarrow> host_event \<Rightarrow> bool" where
  "orderly path h (Launch n la) \<longleftrightarrow> (\<forall>k. \<not> running h k) \<and> la_path la = Inr path \<and> la_rm la \<and> la_bind la"
| "orderly path h _ \<longleftrightarrow> True"

text \<open>The process that runs owns the socket and has all its tasks.\<close>

definition host_ok :: "string \<Rightarrow> host \<Rightarrow> bool" where
  "host_ok path h \<longleftrightarrow>
     (\<forall>n p. ho_procs h n = Some p \<longrightarrow>
        (if pr_alive p then ho_socks h path = Some n \<and> pr_control p \<and> pr_manager p \<and> pr_events p \<and> pr_path p = Inr path
         else \<not> pr_manager p \<and> \<not> pr_events p \<and> \<not> pr_control p))"

lemma host_okI:
  "(\<And>n p. ho_procs h n = Some p \<Longrightarrow> pr_alive p \<Longrightarrow>
      ho_socks h path = Some n \<and> pr_control p \<and> pr_manager p \<and> pr_events p \<and> pr_path p = Inr path) \<Longrightarrow>
   (\<And>n p. ho_procs h n = Some p \<Longrightarrow> \<not> pr_alive p \<Longrightarrow> \<not> pr_manager p \<and> \<not> pr_events p \<and> \<not> pr_control p) \<Longrightarrow>
   host_ok path h"
  by (simp add: host_ok_def)

lemma host_okD:
  "host_ok path h \<Longrightarrow> ho_procs h n = Some p \<Longrightarrow>
     (if pr_alive p then ho_socks h path = Some n \<and> pr_control p \<and> pr_manager p \<and> pr_events p \<and> pr_path p = Inr path
      else \<not> pr_manager p \<and> \<not> pr_events p \<and> \<not> pr_control p)"
  unfolding host_ok_def by blast

lemma start_ok:
  assumes "host_ok path h" "orderly path h (Launch n la)"
  shows "host_ok path (process_start n la h)"
proof (cases "la_advert la")
  case (Inl e)
  with assms(1) show ?thesis by (simp add: process_start_def)
next
  case (Inr ad)
  have idle: "ho_procs h k = Some q \<Longrightarrow> \<not> pr_alive q" for k q using assms(2) by (auto simp: running_def)
  show ?thesis
    by (rule host_okI) (use assms(2) Inr idle host_okD[OF assms(1)] in
      \<open>auto simp: process_start_def control_spawn_def Let_def split: if_splits\<close>)
qed

lemma event_ok:
  assumes "host_ok path h"
  shows "host_ok path (process_event n e h)"
proof (rule host_okI, goal_cases)
  case (1 k p)
  then show ?case using host_okD[OF assms, of k]
    by (cases "k = n") (auto simp: process_event_def Let_def split: option.splits if_splits)
next
  case (2 k p)
  then show ?case using host_okD[OF assms, of k]
    by (cases "k = n") (auto simp: process_event_def Let_def split: option.splits if_splits)
qed

lemma only_one: "host_ok path h \<Longrightarrow> running h n \<Longrightarrow> running h k \<Longrightarrow> n = k"
  using host_okD[of path h n] host_okD[of path h k] by (auto simp: running_def)

lemma others_idle:
  assumes "host_ok path h" "running h n" "ho_procs h k = Some q" "k \<noteq> n"
  shows "\<not> pr_alive q \<and> \<not> pr_manager q \<and> \<not> pr_events q \<and> \<not> pr_control q"
proof -
  have "\<not> pr_alive q" using only_one[OF assms(1,2), of k] assms(3,4) by (auto simp: running_def)
  with assms(1,3) show ?thesis by (simp add: host_ok_def)
qed

lemma all_idle_ok:
  "(\<And>k q. ho_procs h k = Some q \<Longrightarrow> \<not> pr_alive q \<and> \<not> pr_manager q \<and> \<not> pr_events q \<and> \<not> pr_control q) \<Longrightarrow> host_ok path h"
  by (simp add: host_ok_def)

lemma stopped_ok:
  assumes "host_ok path h" "running h n"
  shows "host_ok path (shutdown lib rm n h)" "host_ok path (killed n h)"
proof -
  obtain p where p: "ho_procs h n = Some p" using assms(2) by (auto simp: running_def)
  show "host_ok path (shutdown lib rm n h)"
    by (rule all_idle_ok) (use others_idle[OF assms] in \<open>auto simp: shutdown_def p Let_def split: if_splits\<close>)
  show "host_ok path (killed n h)"
    by (rule all_idle_ok) (use others_idle[OF assms] in \<open>auto simp: killed_def p split: if_splits\<close>)
qed

lemma wait_ok: "host_ok path h \<Longrightarrow> host_ok path (process_wait lib rm n sig h)"
  by (auto simp: process_wait_def running_def intro: stopped_ok split: option.splits bool.splits)

lemma step_ok: "host_ok path h \<Longrightarrow> orderly path h e \<Longrightarrow> host_ok path (host_step lib h e)"
  by (cases e) (auto simp: start_ok event_ok wait_ok simp del: orderly.simps)

interpretation hp: guarded_system "host_step lib" "orderly path" "host_ok path" for lib path
  by unfold_locales (rule step_ok)

lemma new_ok: "host_ok path (host_new f)"
  by (simp add: host_ok_def host_new_def)

lemma connect_running:
  assumes "host_ok path h"
  shows "connect h path = Inr n \<longleftrightarrow> running h n"
proof
  assume "connect h path = Inr n"
  then show "running h n" by (auto simp: connect_def running_def split: option.splits if_splits)
next
  assume "running h n"
  then show "connect h path = Inr n" using host_okD[OF assms, of n] by (auto simp: connect_def running_def)
qed

section \<open>Properties\<close>

text \<open>
  C30. The command line reaches the daemon that runs: when daemons are started one after the
  other, whatever stops them (a signal that is handled, or being killed with the socket left
  behind) and whatever happens to their links meanwhile, connecting to the socket reaches a
  process if and only if it is the one that is running; a process that has stopped has no
  task left, so a stale socket neither blocks the next daemon nor answers for a dead one.
\<close>

theorem socket_leads_to_the_running_daemon:
  assumes "guarded (host_step lib) (orderly path) (host_new f) es" "h = foldl (host_step lib) (host_new f) es"
  shows "(connect h path = Inr n \<longleftrightarrow> running h n)
    \<and> (\<forall>p. ho_procs h n = Some p \<longrightarrow> pr_manager p = pr_alive p \<and> pr_events p = pr_alive p \<and> pr_control p = pr_alive p)"
  using hp.guarded_keeps[OF new_ok assms(1), folded assms(2)] by (auto simp: connect_running dest: host_okD split: if_splits)

definition ex_launch :: launch where
  "ex_launch = \<lparr>la_path = Inr ''/run/qdropd.sock'', la_rm = True, la_bind = True,
     la_advert = Inr \<lparr>ad_registered = [], ad_fullname = [], ad_running = True\<rparr>, la_save = True, la_term = True, la_ctrlc = True, la_unlink = True\<rparr>"

lemmas host_defs = process_start_def control_spawn_def process_wait_def wait_for_shutdown_def killed_def shutdown_def
  process_event_def file_of_def running_def connect_def host_new_def ex_launch_def

text \<open>A daemon is killed, its socket stays; the next one is reached.\<close>

theorem socket_leads_to_the_running_daemon_witness:
  "running (foldl (host_step ex_mdns) (host_new StateAbsent)
      [Launch 1 ex_launch, Signalled True 1 SigKill, Launch 2 ex_launch]) 2
   \<and> connect (foldl (host_step ex_mdns) (host_new StateAbsent)
      [Launch 1 ex_launch, Signalled True 1 SigKill, Launch 2 ex_launch]) ''/run/qdropd.sock'' = Inr 2"
proof -
  let ?es = "[Launch 1 ex_launch, Signalled True 1 SigKill, Launch 2 ex_launch]"
  have "guarded (host_step ex_mdns) (orderly ''/run/qdropd.sock'') (host_new StateAbsent) ?es"
    by (simp add: host_defs Let_def)
  moreover have "running (foldl (host_step ex_mdns) (host_new StateAbsent) ?es) 2"
    by (simp add: host_defs Let_def)
  ultimately show ?thesis
    using socket_leads_to_the_running_daemon[of ex_mdns "''/run/qdropd.sock''" StateAbsent ?es _ 2, OF _ refl] by blast
qed

text \<open>
  The socket that is removed need not be stale: a second daemon of the same user (on another
  port) takes the socket of the first one away, and its own end removes the path, so that the
  first daemon runs on with its links and cannot be reached by the command line any more.
\<close>

theorem second_daemon_takes_the_socket:
  assumes "h = foldl (host_step lib) (host_new f) [Launch 1 ex_launch, Launch 2 ex_launch]"
    and "h' = host_step lib h (Signalled True 2 SigTerm)"
  shows "connect h ''/run/qdropd.sock'' = Inr 2 \<and> running h 1
    \<and> connect h' ''/run/qdropd.sock'' = Inl ''no such file'' \<and> running h' 1"
  unfolding assms by (simp add: host_defs Let_def)

text \<open>
  Without a handler for SIGINT the daemon does not stay: the wait returns at once, so the process
  starts, takes the socket and stops again without any signal, although the fallback for a
  missing SIGTERM handler is to go on.
\<close>

theorem daemon_without_ctrl_c_stops_at_once:
  assumes "\<not> la_ctrlc la"
  shows "\<not> running (host_step lib h (Launch n la)) n \<or> (\<exists>e. la_advert la = Inl e)"
  using assms
  by (auto simp: running_def process_start_def process_wait_def wait_for_shutdown_def shutdown_def killed_def Let_def
      split: sum.splits prod.splits)

text \<open>
  Stopping is not published: the publisher is aborted before the links end, so after an
  orderly stop \<open>state.json\<close> still lists the devices that were connected, and \<open>qdrop peers\<close>
  shows them as online although nothing runs.
\<close>

theorem stopped_daemon_leaves_peers_online:
  assumes "h = foldl (host_step lib) (host_new f)
      [Launch 1 ex_launch, Transported 1 (now, True, PeerConnected (peer_id p) name cs addr), Signalled True 1 SigTerm]"
  shows "\<not> running h n \<and> (\<exists>st. state_load (ho_file h) = Inr st \<and> fst (peer_status later st p) = ''online'')"
  unfolding assms
  by (simp add: host_defs Let_def publish_start_def publish_step_def pb_save_def state_load_def peer_status_def
      mark_online_def remember_addr_def split: option.split)

end
