(* ===== verification/Interleaved.thy ===== *)
theory Interleaved
  imports Filesend
begin

text \<open>
  Transfers of several peers at once: the router hands the messages of all connections to
  \<open>filexfer.rs\<close> one at a time, in any order. What keeps the temporary files of open transfers
  apart, and that a transfer is exact whatever runs between its messages.
\<close>

section \<open>Open transfers and their files\<close>

definition fs_tidy :: "fs \<Rightarrow> bool" where
  "fs_tidy f \<longleftrightarrow> (\<forall>p q i. dirents f p = Some i \<longrightarrow> dirents f q = Some i \<longrightarrow> p = q) \<and> (\<forall>p i. dirents f p = Some i \<longrightarrow> i < next_ino f)"

definition sink_path :: "incoming \<Rightarrow> string option" where
  "sink_path inc = (case inc_sink inc of SinkFile tmp _ _ \<Rightarrow> Some tmp | SinkMemory _ \<Rightarrow> None)"

definition sink_ino :: "incoming \<Rightarrow> nat option" where
  "sink_ino inc = (case inc_sink inc of SinkFile _ _ h \<Rightarrow> Some (h_ino h) | SinkMemory _ \<Rightarrow> None)"

text \<open>The temporary file of a transfer holds exactly what was hashed.\<close>

definition backed :: "fs \<Rightarrow> string \<times> u64 \<Rightarrow> incoming \<Rightarrow> bool" where
  "backed f k inc \<longleftrightarrow>
     (case inc_sink inc of
        SinkFile tmp final h \<Rightarrow>
          plain_name (inc_name inc) \<and> tmp = path_join final (part_name (inc_name inc) (snd k))
          \<and> dirents f tmp = Some (h_ino h) \<and> inodes f (h_ino h) = inc_hasher inc \<and> h_off h = length (inc_hasher inc)
      | SinkMemory _ \<Rightarrow> True)"

definition apart :: "fs \<Rightarrow> (string \<times> u64 \<rightharpoonup> incoming) \<Rightarrow> bool" where
  "apart f m \<longleftrightarrow> fs_tidy f \<and> (\<forall>k inc. m k = Some inc \<longrightarrow> backed f k inc)
     \<and> (\<forall>k k' inc inc' tmp. m k = Some inc \<longrightarrow> m k' = Some inc' \<longrightarrow> sink_path inc = Some tmp \<longrightarrow> sink_path inc' = Some tmp \<longrightarrow> k = k')"

abbreviation exact :: "filexfer \<Rightarrow> bool" where
  "exact fx \<equiv> apart (fx_fs fx) (map_of (fx_incoming fx))"

text \<open>
  The condition on the environment: no peer starts a file under the id and name of an open
  transfer of another peer, and a name is still free when a file is complete.
\<close>

fun no_clash :: "filexfer \<Rightarrow> fx_event \<Rightarrow> bool" where
  "no_clash fx (env, pid, BlobStart bid name sz File) \<longleftrightarrow>
     list_all (\<lambda>((p, i), inc). p = pid \<or> i \<noteq> bid \<or> safe_blob_name name \<noteq> Some (inc_name inc)) (fx_incoming fx)"
| "no_clash fx (env, pid, BlobEnd bid h) \<longleftrightarrow>
     (case map_of (fx_incoming fx) (pid, bid) of
        Some inc \<Rightarrow>
          (case inc_sink inc of
             SinkFile _ final _ \<Rightarrow> \<not> fs_exists (fx_fs fx) (unique_dest (fx_fs fx) final (inc_name inc))
           | SinkMemory _ \<Rightarrow> True)
      | None \<Rightarrow> True)"
| "no_clash fx _ \<longleftrightarrow> True"

section \<open>The files stay apart\<close>

lemma part_name_inject [simp]: "part_name s i = part_name t j \<longleftrightarrow> s = t \<and> i = j"
proof
  assume eq: "part_name s i = part_name t j"
  have d: "CHR ''.'' \<notin> set (dec_str n)" for n
    using dec_str_digits[of n] by (auto simp: list_all_iff is_ascii_digit_def)
  have r: "rsplit_once (CHR ''.'') (''.'' @ x @ ''.'' @ dec_str (unat k)) = Some (''.'' @ x, dec_str (unat k))" for x and k :: u64
    using rsplit_once_append[OF d, of "''.'' @ x"] by simp
  have "''.'' @ s @ ''.'' @ dec_str (unat i) = ''.'' @ t @ ''.'' @ dec_str (unat j)"
    using eq by (simp add: part_name_def)
  then show "s = t \<and> i = j" using r[of s i] r[of t j] by (simp add: word_unat_eq_iff)
qed simp

lemma path_join_last: "plain_name m \<Longrightarrow> plain_name n \<Longrightarrow> path_join d m = path_join e n \<Longrightarrow> m = n"
  using path_components_join[of m d] path_components_join[of n e] by simp

lemma apartI:
  "fs_tidy f \<Longrightarrow> (\<And>k inc. m k = Some inc \<Longrightarrow> backed f k inc) \<Longrightarrow>
   (\<And>k k' inc inc' tmp. m k = Some inc \<Longrightarrow> m k' = Some inc' \<Longrightarrow> sink_path inc = Some tmp \<Longrightarrow> sink_path inc' = Some tmp \<Longrightarrow> k = k') \<Longrightarrow>
   apart f m"
  unfolding apart_def by blast

lemma apartD:
  "apart f m \<Longrightarrow> fs_tidy f"
  "apart f m \<Longrightarrow> m k = Some inc \<Longrightarrow> backed f k inc"
  "apart f m \<Longrightarrow> m k = Some inc \<Longrightarrow> m k' = Some inc' \<Longrightarrow> sink_path inc = Some tmp \<Longrightarrow> sink_path inc' = Some tmp \<Longrightarrow> k = k'"
  unfolding apart_def by blast+

lemma del_SomeD: "(m(k := None)) k' = Some x \<Longrightarrow> k' \<noteq> k \<and> m k' = Some x"
  by (auto split: if_splits)

lemma put_SomeD: "(m(k \<mapsto> y)) k' = Some x \<Longrightarrow> k' = k \<and> x = y \<or> k' \<noteq> k \<and> m k' = Some x"
  by (auto split: if_splits)

lemma apart_drop: "apart f m \<Longrightarrow> apart f (m(k := None))"
  by (rule apartI) (blast dest: del_SomeD apartD)+

lemma backedD:
  "backed f k inc \<Longrightarrow> inc_sink inc = SinkFile tmp final h \<Longrightarrow> dirents f tmp = Some (h_ino h)"
  "backed f k inc \<Longrightarrow> inc_sink inc = SinkFile tmp final h \<Longrightarrow> inodes f (h_ino h) = inc_hasher inc"
  "backed f k inc \<Longrightarrow> inc_sink inc = SinkFile tmp final h \<Longrightarrow> h_off h = length (inc_hasher inc)"
  "backed f k inc \<Longrightarrow> inc_sink inc = SinkFile tmp final h \<Longrightarrow> plain_name (inc_name inc)"
  "backed f k inc \<Longrightarrow> inc_sink inc = SinkFile tmp final h \<Longrightarrow> tmp = path_join final (part_name (inc_name inc) (snd k))"
  by (auto simp: backed_def)

lemma apart_fs:
  assumes "apart f m" "fs_tidy g"
    and "\<And>k inc tmp. m k = Some inc \<Longrightarrow> sink_path inc = Some tmp \<Longrightarrow> dirents g tmp = dirents f tmp"
    and "\<And>k inc n. m k = Some inc \<Longrightarrow> sink_ino inc = Some n \<Longrightarrow> inodes g n = inodes f n"
  shows "apart g m"
proof (rule apartI)
  fix k inc assume k: "m k = Some inc"
  show "backed g k inc"
    using apartD(2)[OF assms(1) k] assms(3)[OF k] assms(4)[OF k]
    by (auto simp: backed_def sink_path_def sink_ino_def split: sink.splits)
qed (use assms(2) apartD(3)[OF assms(1)] in auto)

lemma apart_put:
  assumes "apart f (m(k := None))" "backed f k inc"
    and "\<And>k' inc' tmp. k' \<noteq> k \<Longrightarrow> m k' = Some inc' \<Longrightarrow> sink_path inc = Some tmp \<Longrightarrow> sink_path inc' \<noteq> Some tmp"
  shows "apart f (m(k \<mapsto> inc))"
proof (rule apartI)
  note old = apartD[OF assms(1)]
  show "fs_tidy f" by (rule old(1))
  show "backed f k' inc'" if "(m(k \<mapsto> inc)) k' = Some inc'" for k' inc'
    using put_SomeD[OF that] old(2)[of k' inc'] assms(2) by auto
  show "k1 = k2" if "(m(k \<mapsto> inc)) k1 = Some i1" "(m(k \<mapsto> inc)) k2 = Some i2" "sink_path i1 = Some tmp" "sink_path i2 = Some tmp" for k1 k2 i1 i2 tmp
    using put_SomeD[OF that(1)] put_SomeD[OF that(2)] that(3,4) old(3)[of k1 i1 k2 i2 tmp]
      assms(3)[of k1 i1 tmp] assms(3)[of k2 i2 tmp] by auto
qed

text \<open>No other transfer has the path or the file of one that is open.\<close>

lemma apart_others:
  assumes "apart f m" "m k = Some inc" "inc_sink inc = SinkFile tmp final h" "k' \<noteq> k" "m k' = Some inc'"
  shows "sink_path inc' \<noteq> Some tmp" "sink_ino inc' \<noteq> Some (h_ino h)"
proof -
  note b = apartD(2)[OF assms(1,2)] apartD(2)[OF assms(1,5)]
  show p: "sink_path inc' \<noteq> Some tmp"
    using apartD(3)[OF assms(1,2,5)] assms(3,4) by (auto simp: sink_path_def)
  show "sink_ino inc' \<noteq> Some (h_ino h)"
  proof
    assume i: "sink_ino inc' = Some (h_ino h)"
    then obtain tmp' final' h' where s: "inc_sink inc' = SinkFile tmp' final' h'" "h_ino h' = h_ino h"
      by (auto simp: sink_ino_def split: sink.splits)
    then have "dirents f tmp = Some (h_ino h)" "dirents f tmp' = Some (h_ino h)" using backedD(1)[OF b(1) assms(3)] backedD(1)[OF b(2) s(1)] by simp_all
    then have "tmp = tmp'" using apartD(1)[OF assms(1)] unfolding fs_tidy_def by blast
    with p s show False by (simp add: sink_path_def)
  qed
qed

lemma tidyI:
  "(\<And>p q i. dirents f p = Some i \<Longrightarrow> dirents f q = Some i \<Longrightarrow> p = q) \<Longrightarrow> (\<And>p i. dirents f p = Some i \<Longrightarrow> i < next_ino f) \<Longrightarrow> fs_tidy f"
  unfolding fs_tidy_def by blast

lemma tidyD:
  "fs_tidy f \<Longrightarrow> dirents f p = Some i \<Longrightarrow> dirents f q = Some i \<Longrightarrow> p = q"
  "fs_tidy f \<Longrightarrow> dirents f p = Some i \<Longrightarrow> i < next_ino f"
  unfolding fs_tidy_def by blast+

lemma tidy_create: "fs_tidy f \<Longrightarrow> fs_tidy (snd (file_create p f))"
  by (rule tidyI) (fastforce simp: file_create_def less_Suc_eq dest: tidyD split: option.splits if_splits)+

lemma tidy_simple [simp]:
  "fs_tidy (create_dir_all d f) = fs_tidy f" "fs_tidy (f\<lparr>inodes := c\<rparr>) = fs_tidy f" "fs_tidy (snd (file_write h b f)) = fs_tidy f"
  "fs_tidy (flush_sink env s f) = fs_tidy f"
  by (simp_all add: fs_tidy_def create_dir_all_def file_write_def flush_sink_def split: sink.split option.split)

lemma tidy_remove: "fs_tidy f \<Longrightarrow> fs_tidy (remove_file p f)"
  by (rule tidyI) (auto simp: remove_file_def dest: tidyD split: if_splits)

lemma tidy_rename: "fs_tidy f \<Longrightarrow> rename_file p q f = Some g \<Longrightarrow> fs_tidy g"
  by (rule tidyI) (auto simp: rename_file_def dest: tidyD split: option.splits if_splits)

text \<open>Forgetting a transfer and then changing only its own file leaves the others alone.\<close>

lemma apart_done:
  assumes "apart f m" "m k = Some inc" "inc_sink inc = SinkFile tmp final h" "fs_tidy g"
    and "\<And>p. p \<noteq> tmp \<Longrightarrow> dirents f p \<noteq> None \<Longrightarrow> dirents g p = dirents f p" "\<And>n. n \<noteq> h_ino h \<Longrightarrow> inodes g n = inodes f n"
  shows "apart g (m(k := None))"
proof (rule apart_fs[OF apart_drop[OF assms(1)] assms(4)])
  fix k' inc' assume k': "(m(k := None)) k' = Some inc'"
  note k' = del_SomeD[OF k']
  note o = apart_others[OF assms(1-3) k'[THEN conjunct1] k'[THEN conjunct2]]
  note b = apartD(2)[OF assms(1) k'[THEN conjunct2]]
  show "dirents g p = dirents f p" if "sink_path inc' = Some p" for p
    using that o(1) b assms(5)[of p] by (cases "inc_sink inc'") (auto simp: sink_path_def dest: backedD(1))
  show "inodes g n = inodes f n" if "sink_ino inc' = Some n" for n
    using that o(2) assms(6)[of n] by auto
qed

lemma map_of_upd: "map_of (AList.update k v al) = (map_of al)(k \<mapsto> v)"
  by (simp add: update_conv')

lemma map_of_del: "map_of (AList.delete k al) = (map_of al)(k := None)"
  by (rule delete_conv')

lemmas table_simps = map_of_upd map_of_del

lemma exact_cong: "fx_fs fx' = fx_fs fx \<Longrightarrow> fx_incoming fx' = fx_incoming fx \<Longrightarrow> exact fx' = exact fx"
  by simp

lemma reject_fs [simp]: "fx_fs (reject pid bid t fx) = fx_fs fx"
  by (simp add: reject_def)

lemma apart_dirs [simp]: "apart (create_dir_all d f) m = apart f m"
proof -
  have "backed (create_dir_all d f) k inc = backed f k inc" for k inc
    by (simp add: backed_def create_dir_all_def split: sink.split)
  then show ?thesis by (simp add: apart_def)
qed

lemma start_file_exact:
  assumes "exact fx" "plain_name safe" "tmp = path_join final (part_name safe bid)"
    and "list_all (\<lambda>((p, i), inc). p = pid \<or> i \<noteq> bid \<or> safe \<noteq> inc_name inc) (fx_incoming fx)"
    and "file_create tmp (fx_fs fx) = (h, g)"
  shows "exact (insert_incoming pid bid safe (SinkFile tmp final h) sz (fx\<lparr>fx_fs := g\<rparr>))"
proof -
  let ?m = "map_of (fx_incoming fx)" and ?k = "(pid, bid)" and ?f = "fx_fs fx"
  have g: "g = snd (file_create tmp ?f)" "h = fst (file_create tmp ?f)" using assms(5) by simp_all
  have other: "sink_path inc \<noteq> Some tmp" if "k \<noteq> ?k" "?m k = Some inc" for k inc
  proof
    assume t: "sink_path inc = Some tmp"
    then obtain fin hh where s: "inc_sink inc = SinkFile tmp fin hh" by (auto simp: sink_path_def split: sink.splits)
    note b = apartD(2)[OF assms(1) that(2)]
    have "path_join final (part_name safe bid) = path_join fin (part_name (inc_name inc) (snd k))"
      using backedD(5)[OF b s] assms(3) by simp
    then have "part_name safe bid = part_name (inc_name inc) (snd k)"
      using path_join_last part_name_plain assms(2) backedD(4)[OF b s] by blast
    moreover have "(k, inc) \<in> set (fx_incoming fx)" using that(2) by (rule map_of_SomeD)
    ultimately show False using assms(4) that(1) by (cases k) (auto simp: list_all_iff)
  qed
  have gd: "p \<noteq> tmp \<Longrightarrow> dirents g p = dirents ?f p" for p
    by (simp add: g file_create_def split: option.split)
  have gi: "dirents ?f p = Some n \<Longrightarrow> p \<noteq> tmp \<Longrightarrow> inodes g n = inodes ?f n" for p n
    using tidyD(1)[OF apartD(1)[OF assms(1)], of p n tmp] tidyD(2)[OF apartD(1)[OF assms(1)], of p n]
    by (auto simp: g file_create_def split: option.split)
  have dropped: "apart g (?m(?k := None))"
  proof (rule apart_fs[OF apart_drop[OF assms(1)]])
    show "fs_tidy g" unfolding g by (rule tidy_create[OF apartD(1)[OF assms(1)]])
    fix k inc assume k: "(?m(?k := None)) k = Some inc"
    note k = del_SomeD[OF k, THEN conjunct1] del_SomeD[OF k, THEN conjunct2]
    note o = other[OF k]
    show "dirents g p = dirents ?f p" if "sink_path inc = Some p" for p using that o gd[of p] by auto
    show "inodes g n = inodes ?f n" if "sink_ino inc = Some n" for n
    proof -
      from that obtain p fin hh where s: "inc_sink inc = SinkFile p fin hh" "n = h_ino hh"
        by (auto simp: sink_ino_def split: sink.splits)
      then show ?thesis
        using gi[OF backedD(1)[OF apartD(2)[OF assms(1) k(2)] s(1)]] o by (auto simp: sink_path_def)
    qed
  qed
  let ?e = "\<lparr>inc_name = safe, inc_sink = SinkFile tmp final h, inc_hasher = [], inc_written = 0, inc_declared = sz, inc_peer = pid\<rparr>"
  have e: "backed g ?k ?e" "sink_path ?e = Some tmp"
    using assms(2,3) by (auto simp: backed_def sink_path_def g file_create_def split: option.split)
  have "apart g (?m(?k \<mapsto> ?e))"
    by (rule apart_put[OF dropped e(1)]) (use other e(2) in auto)
  then show ?thesis by (simp add: insert_incoming_def table_simps)
qed

lemma put_memory_exact:
  assumes "exact fx" "inc_sink inc = SinkMemory b"
  shows "apart (fx_fs fx) ((map_of (fx_incoming fx))(k \<mapsto> inc))"
  by (rule apart_put[OF apart_drop[OF assms(1)]]) (simp_all add: backed_def sink_path_def assms(2))

lemma on_start_exact:
  assumes "exact fx" "no_clash fx (env, pid, BlobStart bid name sz purpose)"
  shows "exact (on_start env pid bid name sz purpose fx)"
proof (cases purpose)
  case ClipboardImage
  then show ?thesis
    using assms(1) put_memory_exact[OF assms(1)] by (simp add: on_start_def insert_incoming_def table_simps)
next
  case File
  show ?thesis
  proof (cases "safe_blob_name name")
    case None
    with File assms(1) show ?thesis by (simp add: on_start_def)
  next
    case (Some safe)
    let ?fx = "fx\<lparr>fx_fs := create_dir_all (dest_dir env pid fx) (fx_fs fx)\<rparr>"
    let ?tmp = "path_join (dest_dir env pid fx) (part_name safe bid)"
    obtain h g where c: "file_create ?tmp (fx_fs ?fx) = (h, g)" by force
    have "exact ?fx" using assms(1) by simp
    moreover have "plain_name safe" using safe_blob_name_SomeD[OF Some] by simp
    moreover have "list_all (\<lambda>((p, i), inc). p = pid \<or> i \<noteq> bid \<or> safe \<noteq> inc_name inc) (fx_incoming ?fx)"
      using assms(2) File Some by (auto simp: list_all_iff)
    ultimately have "exact (insert_incoming pid bid safe (SinkFile ?tmp (dest_dir env pid fx) h) sz (?fx\<lparr>fx_fs := g\<rparr>))"
      using start_file_exact[OF _ _ refl _ c, of pid] by blast
    then show ?thesis
      using assms(1) File Some c by (simp add: on_start_def dest_dir_def[symmetric] Let_def split: option.split)
  qed
qed

lemma on_chunk_exact:
  assumes "exact fx"
  shows "exact (on_chunk env pid bid data fx)"
proof (cases "map_of (fx_incoming fx) (pid, bid)")
  case None
  with assms show ?thesis by (simp add: on_chunk_def)
next
  case (Some inc)
  note b = apartD(2)[OF assms Some]
  show ?thesis
  proof (cases "inc_sink inc")
    case (SinkMemory buf)
    then show ?thesis
      using Some apart_drop[OF assms] put_memory_exact[OF assms] by (simp add: on_chunk_def Let_def table_simps)
  next
    case (SinkFile tmp final h)
    note over = apart_done[OF assms Some SinkFile]
    have w: "fs_tidy (snd (file_write h d (fx_fs fx)))" for d using apartD(1)[OF assms] by simp
    have wr: "apart (snd (file_write h d (fx_fs fx))) ((map_of (fx_incoming fx))((pid, bid) := None))" for d
      by (rule over[OF w]) (simp_all add: file_write_def)
    show ?thesis
    proof (cases "e_write env")
      case (Some n)
      have "apart (remove_file tmp (snd (file_write h (take n data) (fx_fs fx)))) ((map_of (fx_incoming fx))((pid, bid) := None))"
        by (rule over[OF tidy_remove[OF w]]) (simp_all add: file_write_def remove_file_def)
      then show ?thesis
        using wr[of "take n data"] Some \<open>map_of (fx_incoming fx) (pid, bid) = Some inc\<close> SinkFile
        by (simp add: on_chunk_def Let_def table_simps try_remove_def)
    next
      case None
      let ?e = "inc\<lparr>inc_sink := SinkFile tmp final (fst (file_write h data (fx_fs fx))), inc_hasher := inc_hasher inc @ data,
                     inc_written := inc_written inc + of_nat (length data)\<rparr>"
      have e: "sink_path ?e = Some tmp" by (simp add: sink_path_def)
      have be: "backed (snd (file_write h data (fx_fs fx))) (pid, bid) ?e"
        using b backedD[OF b SinkFile] by (simp add: backed_def file_write_def overlay_append)
      have "apart (snd (file_write h data (fx_fs fx))) ((map_of (fx_incoming fx))((pid, bid) \<mapsto> ?e))"
        by (rule apart_put[OF wr be]) (use apart_others(1)[OF assms Some SinkFile] e in auto)
      then show ?thesis
        using None Some SinkFile by (simp add: on_chunk_def Let_def table_simps case_prod_beta)
    qed
  qed
qed

lemma flush_simps [simp]:
  "dirents (flush_sink env s f) = dirents f" "dirs (flush_sink env s f) = dirs f"
  "fs_exists (flush_sink env s f) = fs_exists f"
  by (auto simp: flush_sink_def fs_exists_def fun_eq_iff split: sink.split option.split)

lemma unique_dest_flush [simp]: "unique_dest (flush_sink env s f) d n = unique_dest f d n"
  by (rule unique_dest_cong) simp

lemma flush_inodes: "n \<noteq> h_ino h \<Longrightarrow> inodes (flush_sink env (SinkFile tmp final h) f) n = inodes f n"
  by (simp add: flush_sink_def split: option.split)

lemma accept_file_fs:
  "fx_fs (accept_file env pid bid inc tmp final fx) =
     (case (e_rename env, rename_file tmp (unique_dest (fx_fs fx) final (inc_name inc)) (fx_fs fx)) of
        (None, Some g) \<Rightarrow> g
      | _ \<Rightarrow> if e_remove_fails env then fx_fs fx else remove_file tmp (fx_fs fx))"
  by (simp add: accept_file_def Let_def try_remove_def split: option.split)

lemma cleanup_fs:
  "fx_fs (cleanup env (SinkFile tmp final h) fx) = (if e_remove_fails env then fx_fs fx else remove_file tmp (fx_fs fx))"
  by (simp add: cleanup_def try_remove_def)

lemma on_end_exact:
  assumes "exact fx" "no_clash fx (env, pid, BlobEnd bid hash)"
  shows "exact (on_end sha env pid bid hash fx)"
proof (cases "map_of (fx_incoming fx) (pid, bid)")
  case None
  with assms show ?thesis by (simp add: on_end_def)
next
  case (Some inc)
  show ?thesis
  proof (cases "inc_sink inc")
    case (SinkMemory b)
    then show ?thesis
      using Some apart_drop[OF assms(1)]
      by (simp add: on_end_def Let_def table_simps flush_sink_def cleanup_def accept_memory_def)
  next
    case (SinkFile tmp final h)
    let ?f = "flush_sink env (SinkFile tmp final h) (fx_fs fx)"
    let ?m = "(map_of (fx_incoming fx))((pid, bid) := None)"
    note over = apart_done[OF assms(1) Some SinkFile]
    have t: "fs_tidy ?f" using apartD(1)[OF assms(1)] by simp
    have keep: "apart ?f ?m" by (rule over[OF t]) (simp_all add: flush_inodes)
    have rm: "apart (remove_file tmp ?f) ?m"
      by (rule over[OF tidy_remove[OF t]]) (simp_all add: flush_inodes remove_file_def)
    have free: "dirents (fx_fs fx) (unique_dest (fx_fs fx) final (inc_name inc)) = None"
      using assms(2) Some SinkFile by (simp add: fs_exists_def)
    have mv: "apart g ?m" if g: "rename_file tmp (unique_dest (fx_fs fx) final (inc_name inc)) ?f = Some g" for g
      by (rule over[OF tidy_rename[OF t g]])
        (use g free in \<open>auto simp: rename_file_def flush_inodes split: option.splits\<close>)
    show ?thesis
      using Some SinkFile keep rm mv
      by (simp add: on_end_def Let_def table_simps cleanup_fs accept_file_fs split: option.split)
  qed
qed

lemma step_exact: "exact fx \<Longrightarrow> no_clash fx ev \<Longrightarrow> exact (fx_step sha fx ev)"
proof (cases ev)
  case (fields env pid msg)
  assume a: "exact fx" "no_clash fx ev"
  show ?thesis
    using a fields
    by (cases msg) (auto simp: fx_step_def on_chunk_exact on_start_exact on_end_exact simp del: no_clash.simps split: option.split)
qed

interpretation fxe: guarded_system "fx_step sha" no_clash exact for sha
  by unfold_locales (rule step_exact)

section \<open>One transfer among others\<close>

text \<open>The events of one transfer, and the bytes it brings.\<close>

fun concerns :: "string \<Rightarrow> u64 \<Rightarrow> fx_event \<Rightarrow> bool" where
  "concerns pid bid (env, p, BlobStart i name sz purpose) \<longleftrightarrow> p = pid \<and> i = bid"
| "concerns pid bid (env, p, BlobChunk i d) \<longleftrightarrow> p = pid \<and> i = bid"
| "concerns pid bid (env, p, BlobEnd i h) \<longleftrightarrow> p = pid \<and> i = bid"
| "concerns pid bid _ \<longleftrightarrow> False"

fun own_chunk :: "fx_event \<Rightarrow> bytes" where
  "own_chunk (env, p, BlobChunk i d) = d"
| "own_chunk _ = []"

fun good_chunk :: "fx_event \<Rightarrow> bool" where
  "good_chunk (env, p, BlobChunk i d) \<longleftrightarrow> e_write env = None"
| "good_chunk _ \<longleftrightarrow> False"

definition own_data :: "string \<Rightarrow> u64 \<Rightarrow> fx_event list \<Rightarrow> bytes" where
  "own_data pid bid evs = concat (map own_chunk (filter (concerns pid bid) evs))"

lemma others_keep_entry:
  assumes "\<not> concerns pid bid ev"
  shows "map_of (fx_incoming (fx_step sha fx ev)) (pid, bid) = map_of (fx_incoming fx) (pid, bid)"
proof (cases ev)
  case (fields env p msg)
  show ?thesis
  proof (cases msg)
    case (BlobStart i n z pu)
    with fields assms show ?thesis
      using on_start_incoming[of env p i n z pu fx] by (auto simp: fx_step_def puts_def table_simps)
  next
    case (BlobChunk i d)
    with fields assms show ?thesis
      using on_chunk_incoming[of env p i d fx] by (auto simp: fx_step_def puts_def table_simps)
  next
    case (BlobEnd i h)
    with fields assms show ?thesis by (auto simp: fx_step_def on_end_incoming table_simps)
  qed (auto simp: fx_step_def fields split: option.split)
qed

text \<open>The entry of a file that is being received, after \<open>data\<close>.\<close>

definition file_entry :: "string \<Rightarrow> u64 \<Rightarrow> string \<Rightarrow> string \<Rightarrow> u64 \<Rightarrow> bytes \<Rightarrow> filexfer \<Rightarrow> bool" where
  "file_entry pid bid safe final sz data fx \<longleftrightarrow>
     (\<exists>tmp h. map_of (fx_incoming fx) (pid, bid) =
        Some \<lparr>inc_name = safe, inc_sink = SinkFile tmp final h, inc_hasher = data, inc_written = of_nat (length data),
              inc_declared = sz, inc_peer = pid\<rparr>)"

lemma start_entry:
  assumes "length (fx_incoming fx) < MAX_CONCURRENT_INCOMING" "safe_blob_name name = Some safe" "env_ok env"
  shows "file_entry pid bid safe (dest_dir env pid fx) sz [] (fx_step sha fx (env, pid, BlobStart bid name sz File))"
  using assms
  by (auto simp: file_entry_def fx_step_def on_start_def dest_dir_def[symmetric] env_ok_def insert_incoming_def Let_def
      split: prod.split)

lemma chunk_entry:
  "file_entry pid bid safe final sz data fx \<Longrightarrow> e_write env = None \<Longrightarrow>
     file_entry pid bid safe final sz (data @ d) (fx_step sha fx (env, pid, BlobChunk bid d))"
  by (auto simp: file_entry_def fx_step_def on_chunk_def Let_def split: prod.split)

lemma run_entry:
  "file_entry pid bid safe final sz data fx \<Longrightarrow> list_all good_chunk (filter (concerns pid bid) evs) \<Longrightarrow>
     file_entry pid bid safe final sz (data @ own_data pid bid evs) (foldl (fx_step sha) fx evs)"
proof (induction evs arbitrary: fx data)
  case Nil
  then show ?case by (simp add: own_data_def)
next
  case (Cons ev evs)
  show ?case
  proof (cases "concerns pid bid ev")
    case False
    then have "file_entry pid bid safe final sz data (fx_step sha fx ev)"
      using Cons.prems(1) by (simp add: file_entry_def others_keep_entry)
    with Cons.IH Cons.prems(2) False show ?thesis by (simp add: own_data_def)
  next
    case True
    with Cons.prems(2) obtain env d where ev: "ev = (env, pid, BlobChunk bid d)" "e_write env = None"
      by (cases "ev" rule: good_chunk.cases) auto
    then have "file_entry pid bid safe final sz (data @ d) (fx_step sha fx ev)"
      using chunk_entry[OF Cons.prems(1)] by simp
    from Cons.IH[OF this] Cons.prems(2) True ev(1) show ?thesis by (simp add: own_data_def)
  qed
qed

lemma end_entry:
  assumes "exact fx" "file_entry pid bid safe final sz data fx" "sz = 0 \<or> sz = of_nat (length data)" "env_ok env"
    and "dest = unique_dest (fx_fs fx) final safe" "fx' = fx_step sha fx (env, pid, BlobEnd bid (sha data))"
  shows "read_file (fx_fs fx') dest = Some data \<and> fx_bus fx' = snd (send_to pid (BlobAck bid True safe) (fx_bus fx))
    \<and> map_of (fx_incoming fx') (pid, bid) = None"
proof -
  obtain tmp h where e: "map_of (fx_incoming fx) (pid, bid) =
      Some \<lparr>inc_name = safe, inc_sink = SinkFile tmp final h, inc_hasher = data, inc_written = of_nat (length data),
            inc_declared = sz, inc_peer = pid\<rparr>" (is "_ = Some ?inc")
    using assms(2) by (auto simp: file_entry_def)
  have s: "inc_sink ?inc = SinkFile tmp final h" by simp
  note b = backedD[OF apartD(2)[OF assms(1) e] s]
  have "flush_sink env (SinkFile tmp final h) (fx_fs fx) = fx_fs fx"
    using assms(4) by (simp add: flush_sink_def env_ok_def)
  then show ?thesis
    using assms(3,4) b(1,2) e
    by (auto simp: assms(5,6) fx_step_def on_end_def Let_def accept_file_def rename_file_def env_ok_def read_file_def map_of_del)
qed

lemma transfer_among_others:
  assumes "fs_tidy (fx_fs fx0)" "fx_incoming fx0 = []"
    and "guarded (fx_step sha) no_clash fx0 (pre @ (env, pid, BlobStart bid name sz File) # mid @ [(env', pid, BlobEnd bid (sha data))])"
    and "fx = foldl (fx_step sha) fx0 pre" "length (fx_incoming fx) < MAX_CONCURRENT_INCOMING"
    and "safe_blob_name name = Some safe" "env_ok env" "env_ok env'"
    and "list_all good_chunk (filter (concerns pid bid) mid)" "data = own_data pid bid mid" "sz = 0 \<or> sz = of_nat (length data)"
    and "fx1 = foldl (fx_step sha) fx ((env, pid, BlobStart bid name sz File) # mid)"
    and "fx' = fx_step sha fx1 (env', pid, BlobEnd bid (sha data))"
    and "dest = unique_dest (fx_fs fx1) (dest_dir env pid fx) safe"
  shows "read_file (fx_fs fx') dest = Some data \<and> \<not> fs_exists (fx_fs fx1) dest
    \<and> fx_bus fx' = snd (send_to pid (BlobAck bid True safe) (fx_bus fx1))"
proof -
  have x0: "exact fx0" using assms(1,2) by (simp add: apart_def)
  have g: "guarded (fx_step sha) no_clash fx0 (pre @ (env, pid, BlobStart bid name sz File) # mid)"
      "no_clash fx1 (env', pid, BlobEnd bid (sha data))"
    using assms(3) by (simp_all add: assms(4,12) guarded_append)
  have x1: "exact fx1" using fxe.guarded_keeps[OF x0 g(1)] by (simp add: assms(4,12))
  have e: "file_entry pid bid safe (dest_dir env pid fx) sz data fx1"
    using run_entry[OF start_entry[OF assms(5-7)] assms(9)] by (simp add: assms(10,12))
  from end_entry[OF x1 e assms(11,8,14,13)] g(2) e show ?thesis by (auto simp: file_entry_def assms(14))
qed

section \<open>A stored file stays\<close>

text \<open>
  A stored file, and that no open transfer writes to it. The start of a transfer spares it
  unless its temporary file would have its name (\<open>start_truncates_a_received_file\<close>).
\<close>

definition kept :: "string \<Rightarrow> bytes \<Rightarrow> filexfer \<Rightarrow> bool" where
  "kept dest data fx \<longleftrightarrow> read_file (fx_fs fx) dest = Some data
     \<and> (\<forall>k inc. map_of (fx_incoming fx) k = Some inc \<longrightarrow> sink_path inc \<noteq> Some dest)"

fun spares :: "string \<Rightarrow> filexfer \<Rightarrow> fx_event \<Rightarrow> bool" where
  "spares dest fx (env, pid, BlobStart bid name sz File) \<longleftrightarrow>
     (case safe_blob_name name of
        Some safe \<Rightarrow> path_join (dest_dir env pid fx) (part_name safe bid) \<noteq> dest
      | None \<Rightarrow> True)"
| "spares dest fx _ \<longleftrightarrow> True"

lemma keptI:
  "read_file (fx_fs fx) dest = Some data \<Longrightarrow>
   (\<And>k inc. map_of (fx_incoming fx) k = Some inc \<Longrightarrow> sink_path inc \<noteq> Some dest) \<Longrightarrow> kept dest data fx"
  by (auto simp: kept_def)

lemma keptD:
  "kept dest data fx \<Longrightarrow> read_file (fx_fs fx) dest = Some data"
  "kept dest data fx \<Longrightarrow> map_of (fx_incoming fx) k = Some inc \<Longrightarrow> sink_path inc \<noteq> Some dest"
  unfolding kept_def by blast+

lemma kept_acks [simp]: "kept dest data (fx\<lparr>acks := a, woken := w\<rparr>) = kept dest data fx"
  by (simp add: kept_def)

text \<open>Changing the file of an open transfer leaves the stored one alone.\<close>

lemma read_other:
  assumes "exact fx" "kept dest data fx" "map_of (fx_incoming fx) k = Some inc" "inc_sink inc = SinkFile tmp final h"
    and "\<And>p. p \<noteq> tmp \<Longrightarrow> dirents (fx_fs fx) p \<noteq> None \<Longrightarrow> dirents g p = dirents (fx_fs fx) p"
    and "\<And>n. n \<noteq> h_ino h \<Longrightarrow> inodes g n = inodes (fx_fs fx) n"
  shows "read_file g dest = Some data"
proof -
  have tmp: "tmp \<noteq> dest" using keptD(2)[OF assms(2,3)] assms(4) by (auto simp: sink_path_def)
  obtain i where i: "dirents (fx_fs fx) dest = Some i" "inodes (fx_fs fx) i = data"
    using keptD(1)[OF assms(2)] by (auto simp: read_file_def)
  have "i \<noteq> h_ino h"
    using tidyD(1)[OF apartD(1)[OF assms(1)], of dest i tmp] backedD(1)[OF apartD(2)[OF assms(1,3)] assms(4)] i(1) tmp by auto
  then show ?thesis using assms(5)[of dest] assms(6)[of i] i tmp by (auto simp: read_file_def)
qed

lemma on_start_kept:
  assumes "exact fx" "kept dest data fx" "spares dest fx (env, pid, BlobStart bid name sz purpose)"
  shows "kept dest data (on_start env pid bid name sz purpose fx)"
proof (cases purpose)
  case ClipboardImage
  with assms(2) show ?thesis
    by (auto simp: kept_def on_start_def insert_incoming_def table_simps sink_path_def)
next
  case File
  show ?thesis
  proof (cases "safe_blob_name name")
    case None
    with File assms(2) show ?thesis by (simp add: kept_def on_start_def)
  next
    case (Some safe)
    let ?f = "create_dir_all (dest_dir env pid fx) (fx_fs fx)"
    let ?tmp = "path_join (dest_dir env pid fx) (part_name safe bid)"
    have ne: "?tmp \<noteq> dest" using assms(3) File Some by simp
    obtain i where i: "dirents (fx_fs fx) dest = Some i" "inodes (fx_fs fx) i = data"
      using keptD(1)[OF assms(2)] by (auto simp: read_file_def)
    have f: "dirents ?f = dirents (fx_fs fx)" "inodes ?f = inodes (fx_fs fx)" "next_ino ?f = next_ino (fx_fs fx)"
      by (simp_all add: create_dir_all_def)
    have read: "read_file ?f dest = Some data" "read_file (snd (file_create ?tmp ?f)) dest = Some data"
      using i ne tidyD(1)[OF apartD(1)[OF assms(1)] i(1), of ?tmp] tidyD(2)[OF apartD(1)[OF assms(1)] i(1)]
      by (auto simp: read_file_def file_create_def f split: option.split)
    show ?thesis
      using File Some read ne assms(2)
      by (auto simp: kept_def on_start_def dest_dir_def[symmetric] insert_incoming_def table_simps sink_path_def case_prod_beta Let_def
          split: option.splits if_splits)
  qed
qed

lemma on_chunk_kept:
  assumes "exact fx" "kept dest data fx"
  shows "kept dest data (on_chunk env pid bid d fx)"
proof (cases "map_of (fx_incoming fx) (pid, bid)")
  case None
  with assms(2) show ?thesis by (simp add: on_chunk_def)
next
  case (Some inc)
  show ?thesis
  proof (cases "inc_sink inc")
    case (SinkMemory b)
    with Some assms(2) show ?thesis
      by (auto simp: kept_def on_chunk_def table_simps sink_path_def Let_def)
  next
    case (SinkFile tmp final h)
    note other = read_other[OF assms Some SinkFile]
    have "read_file (snd (file_write h d' (fx_fs fx))) dest = Some data" "read_file (remove_file tmp (snd (file_write h d' (fx_fs fx)))) dest = Some data" for d'
      by (rule other; simp add: file_write_def remove_file_def)+
    moreover have "tmp \<noteq> dest" using keptD(2)[OF assms(2) Some] SinkFile by (simp add: sink_path_def)
    ultimately show ?thesis
      using Some SinkFile assms(2)
      by (auto simp: kept_def on_chunk_def table_simps sink_path_def Let_def try_remove_def case_prod_beta split: option.splits if_splits)
  qed
qed

lemma on_end_kept:
  assumes "exact fx" "kept dest data fx" "no_clash fx (env, pid, BlobEnd bid hash)"
  shows "kept dest data (on_end sha env pid bid hash fx)"
proof (cases "map_of (fx_incoming fx) (pid, bid)")
  case None
  with assms(2) show ?thesis by (simp add: on_end_def)
next
  case (Some inc)
  show ?thesis
  proof (cases "inc_sink inc")
    case (SinkMemory b)
    with Some assms(2) show ?thesis
      by (auto simp: kept_def on_end_def Let_def table_simps flush_sink_def cleanup_def accept_memory_def)
  next
    case (SinkFile tmp final h)
    let ?f = "flush_sink env (SinkFile tmp final h) (fx_fs fx)"
    note other = read_other[OF assms(1,2) Some SinkFile]
    have free: "dirents (fx_fs fx) (unique_dest (fx_fs fx) final (inc_name inc)) = None"
      using assms(3) Some SinkFile by (simp add: fs_exists_def)
    have fl: "read_file ?f dest = Some data" "read_file (remove_file tmp ?f) dest = Some data"
      by (rule other; simp add: flush_inodes remove_file_def)+
    have mv: "read_file g dest = Some data" if "rename_file tmp (unique_dest (fx_fs fx) final (inc_name inc)) ?f = Some g" for g
      by (rule other) (use that free in \<open>auto simp: rename_file_def flush_inodes split: option.splits\<close>)
    show ?thesis
      using Some SinkFile fl mv keptD(2)[OF assms(2)]
      by (intro keptI) (auto simp: on_end_def Let_def table_simps cleanup_fs accept_file_fs on_end_incoming split: option.split if_splits)
  qed
qed

lemma step_kept:
  assumes "exact fx" "kept dest data fx" "no_clash fx ev" "spares dest fx ev"
  shows "kept dest data (fx_step sha fx ev)"
proof (cases ev)
  case (fields env pid msg)
  show ?thesis
    using assms fields
    by (cases msg) (auto simp: fx_step_def on_start_kept on_chunk_kept on_end_kept simp del: no_clash.simps spares.simps split: option.split)
qed

interpretation fxk: guarded_system "fx_step sha" "\<lambda>fx ev. no_clash fx ev \<and> spares dest fx ev" "\<lambda>fx. exact fx \<and> kept dest data fx"
  for sha dest data
  by unfold_locales (simp add: step_exact step_kept)

lemma guarded_both:
  "guarded step (\<lambda>s e. a s e \<and> b s e) s es \<longleftrightarrow> guarded step a s es \<and> guarded step b s es"
  by (induction es arbitrary: s) auto

section \<open>Properties\<close>

text \<open>
  C14. A file that is received while others are on the way is exact. Let the daemon start with no open
  transfer, on a file system in which no file has two names. Whatever transfers of whatever
  peers run before, between and after its messages, fail, are refused or are abandoned, provided
  no other peer sends under the same id and name at the same time and names stay free when files
  are complete, the file appears under a name that was free, in the directory the confirmation
  policy asks for, with exactly the bytes of its own chunks. Its acknowledgement is offered to
  the channel of its sender, and is queued there if the sender is connected and the channel has
  room. The file then keeps these bytes, whatever is received later, as long as no later transfer
  has it for its temporary file: such a transfer would truncate it
  (\<open>start_truncates_a_received_file\<close>).
\<close>

theorem interleaved_file_is_exact:
  assumes "fs_tidy (fx_fs fx0)" "fx_incoming fx0 = []"
    and "guarded (fx_step sha) no_clash fx0 (pre @ (env, pid, BlobStart bid name sz File) # mid @ (env', pid, BlobEnd bid (sha data)) # post)"
    and "fx = foldl (fx_step sha) fx0 pre" "length (fx_incoming fx) < MAX_CONCURRENT_INCOMING"
    and "safe_blob_name name = Some safe" "env_ok env" "env_ok env'"
    and "list_all good_chunk (filter (concerns pid bid) mid)" "data = own_data pid bid mid" "sz = 0 \<or> sz = of_nat (length data)"
    and "fx1 = foldl (fx_step sha) fx ((env, pid, BlobStart bid name sz File) # mid)"
    and "fx' = fx_step sha fx1 (env', pid, BlobEnd bid (sha data))"
    and "dest = unique_dest (fx_fs fx1) (dest_dir env pid fx) safe"
    and "guarded (fx_step sha) (spares dest) fx' post"
  shows "read_file (fx_fs fx') dest = Some data \<and> \<not> fs_exists (fx_fs fx1) dest
    \<and> read_file (fx_fs (foldl (fx_step sha) fx' post)) dest = Some data
    \<and> fx_bus fx' = snd (send_to pid (BlobAck bid True safe) (fx_bus fx1))
    \<and> (\<forall>c. sender (fx_bus fx1) pid = Some c \<and> \<not> closed (chans (fx_bus fx1) c) \<and> length (queue (chans (fx_bus fx1) c)) < cap (chans (fx_bus fx1) c)
         \<longrightarrow> queue (chans (fx_bus fx') c) = queue (chans (fx_bus fx1) c) @ [BlobAck bid True safe])"
proof -
  have g: "guarded (fx_step sha) no_clash fx0 (pre @ (env, pid, BlobStart bid name sz File) # mid @ [(env', pid, BlobEnd bid (sha data))])"
    and post: "guarded (fx_step sha) no_clash fx' post"
    using assms(3) by (simp_all add: guarded_append assms(4,12,13) del: no_clash.simps)
  note t = transfer_among_others[OF assms(1,2) g assms(4-14)]
  have x0: "exact fx0" using assms(1,2) by (simp add: apart_def)
  have x1: "exact fx1" "exact fx'"
    using fxe.guarded_keeps[OF x0, of sha "pre @ (env, pid, BlobStart bid name sz File) # mid"] fxe.guarded_keeps[OF x0 g] g
    by (simp_all add: guarded_append assms(4,12,13) del: no_clash.simps)
  have "sink_path inc \<noteq> Some dest" if "map_of (fx_incoming fx1) k = Some inc" for k inc
    using apartD(2)[OF x1(1) that] t by (auto simp: sink_path_def fs_exists_def dest!: backedD(1) split: sink.splits)
  then have "kept dest data fx'"
    using t by (auto simp: kept_def assms(13) fx_step_def on_end_incoming table_simps split: if_splits)
  then have "kept dest data (foldl (fx_step sha) fx' post)"
    using fxk.guarded_keeps[of fx' dest data sha post] x1(2) post assms(15) by (simp add: guarded_both)
  with t send_to_chan[of "fx_bus fx1" pid _ "BlobAck bid True safe"] show ?thesis by (auto simp: kept_def)
qed

text \<open>Two files of the same name from two peers, their messages alternating; the second one stays open.\<close>

definition two_peers :: "fx_event list" where
  "two_peers = [(ex_env, ''b'', BlobStart 4 ''a.txt'' 4 File), (ex_env, ''a'', BlobChunk 3 [7, 8]), (ex_env, ''b'', BlobChunk 4 [5]),
     (ex_env, ''a'', BlobChunk 3 [9])]"

lemma ex_tidy: "fs_tidy (fx_fs ex_fx)"
  by (auto simp: fs_tidy_def ex_fx_def split: if_splits)

lemma ex_digits: "dec_str 3 = ''3''" "dec_str 4 = ''4''"
proof -
  have "char_of (51 :: nat) = CHR ''3''" "char_of (52 :: nat) = CHR ''4''" by code_simp+
  then show "dec_str 3 = ''3''" "dec_str 4 = ''4''" by (subst dec_str.simps, simp add: digit_char_def)+
qed

lemma chunk_names:
  "e_write env = None \<Longrightarrow> dirents (fx_fs (fx_step sha fx (env, p, BlobChunk i d))) = dirents (fx_fs fx)"
  "e_write env = None \<Longrightarrow> dirs (fx_fs (fx_step sha fx (env, p, BlobChunk i d))) = dirs (fx_fs fx)"
  by (simp_all add: fx_step_def on_chunk_def file_write_def Let_def split: option.split sink.split)

lemmas ex_run_simps = fx_step_def on_start_def on_chunk_def ex_fx_def ex_env_def ex_safe needs_confirm_def MAX_CONCURRENT_INCOMING_def
  create_dir_all_def file_create_def insert_incoming_def file_write_def overlay_def path_join_def part_name_def ex_digits
  is_authorized_def find_by_id_def Let_def

lemma ex_start_names:
  assumes "length (fx_incoming fx) < MAX_CONCURRENT_INCOMING" "confirm fx = Unlisted" "download_dir fx = ''/dl''"
    and "dirs (fx_fs fx) = [''/dl/pending'']" "dirents (fx_fs fx) (path_join ''/dl/pending'' (part_name ''a.txt'' i)) = None"
  shows "dirents (fx_fs (fx_step sha fx (ex_env, p, BlobStart i ''a.txt'' sz File))) =
      (dirents (fx_fs fx))(path_join ''/dl/pending'' (part_name ''a.txt'' i) \<mapsto> next_ino (fx_fs fx))"
    "dirs (fx_fs (fx_step sha fx (ex_env, p, BlobStart i ''a.txt'' sz File))) = [''/dl/pending'']"
  using assms
  by (simp_all add: fx_step_def on_start_def ex_env_def ex_safe needs_confirm_def create_dir_all_def file_create_def
      insert_incoming_def is_authorized_def find_by_id_def path_join_def Let_def)

lemma ex_two_peers:
  fixes start last
  defines "start \<equiv> (ex_env, ''a'', BlobStart 3 ''a.txt'' 3 File)" and "last \<equiv> (ex_env, ''a'', BlobEnd 3 (ex_sha [7, 8, 9]))"
  shows "dest_dir ex_env ''a'' ex_fx = ''/dl/pending''"
    "unique_dest (fx_fs (foldl (fx_step ex_sha) (fx_step ex_sha ex_fx start) two_peers)) ''/dl/pending'' ''a.txt'' = ''/dl/pending/a.txt''"
    "guarded (fx_step ex_sha) no_clash ex_fx (start # two_peers @ [last])"
proof -
  let ?s = "(ex_env, ''a'', BlobStart 3 ''a.txt'' 3 File)"
  have i: "fx_incoming ex_fx = []" by (simp add: ex_fx_def)
  have d: "dest_dir ex_env ''a'' ex_fx = ''/dl/pending''" by (simp add: dest_dir_def ex_run_simps)
  let ?a = "fx_step ex_sha ex_fx ?s"
  let ?fx1 = "foldl (fx_step ex_sha) ?a two_peers"
  let ?b = "fx_step ex_sha ?a (ex_env, ''b'', BlobStart 4 ''a.txt'' 4 File)"
  have a: "dirents (fx_fs ?a) = [''/etc/passwd'' \<mapsto> 0, ''/dl/pending/.a.txt.3.part'' \<mapsto> 1]" "dirs (fx_fs ?a) = [''/dl/pending'']"
    "next_ino (fx_fs ?a) = 2" "map fst (fx_incoming ?a) = [(''a'', 3)]" "confirm ?a = Unlisted" "download_dir ?a = ''/dl''"
    by (simp_all add: ex_run_simps)
  have l: "length (fx_incoming ?a) = 1"
    using arg_cong[OF a(4), of length] by (simp only: length_map) simp
  have b: "dirents (fx_fs ?b) = [''/etc/passwd'' \<mapsto> 0, ''/dl/pending/.a.txt.3.part'' \<mapsto> 1, ''/dl/pending/.a.txt.4.part'' \<mapsto> 2]"
    "dirs (fx_fs ?b) = [''/dl/pending'']"
    using ex_start_names[of ?a 4 ex_sha "''b''" 4] a l
    by (simp_all add: path_join_def part_name_def ex_digits MAX_CONCURRENT_INCOMING_def)
  have w: "e_write ex_env = None" by (simp add: ex_env_def)
  have ds: "dirents (fx_fs ?fx1) = dirents (fx_fs ?b)" "dirs (fx_fs ?fx1) = dirs (fx_fs ?b)"
    by (simp_all add: two_peers_def chunk_names[OF w])
  have u: "unique_dest (fx_fs ?fx1) ''/dl/pending'' ''a.txt'' = ''/dl/pending/a.txt''" "\<not> fs_exists (fx_fs ?fx1) ''/dl/pending/a.txt''"
    by (simp_all add: unique_dest_def fs_exists_def ds b path_join_def Let_def)
  have g: "guarded (fx_step ex_sha) no_clash ex_fx (?s # two_peers)"
    using a(4) by (cases "fx_incoming ?a") (auto simp: two_peers_def i list_all_iff)
  have e: "no_clash ?fx1 (ex_env, ''a'', BlobEnd 3 (ex_sha [7, 8, 9]))"
  proof -
    have "file_entry ''a'' 3 ''a.txt'' ''/dl/pending'' 3 [7, 8, 9] ?fx1"
      using run_entry[OF start_entry[of ex_fx "''a.txt''" "''a.txt''" ex_env "''a''" 3 3 ex_sha], of two_peers ex_sha] d
      by (simp add: two_peers_def own_data_def ex_safe) (simp add: ex_run_simps env_ok_def)
    then show ?thesis using u by (auto simp: file_entry_def)
  qed
  show "dest_dir ex_env ''a'' ex_fx = ''/dl/pending''" by (rule d)
  show "unique_dest (fx_fs (foldl (fx_step ex_sha) (fx_step ex_sha ex_fx start) two_peers)) ''/dl/pending'' ''a.txt'' = ''/dl/pending/a.txt''"
    unfolding start_def by (rule u(1))
  show "guarded (fx_step ex_sha) no_clash ex_fx (start # two_peers @ [last])"
    using g e by (simp add: guarded_append start_def last_def del: no_clash.simps)
qed

lemma two_peers_data: "own_data ''a'' 3 two_peers = [7, 8, 9]" "list_all good_chunk (filter (concerns ''a'' 3) two_peers)" "env_ok ex_env"
  by (simp_all add: two_peers_def own_data_def env_ok_def ex_env_def)

theorem interleaved_file_is_exact_witness:
  "read_file (fx_fs (foldl (fx_step ex_sha) ex_fx
     ((ex_env, ''a'', BlobStart 3 ''a.txt'' 3 File) # two_peers @ [(ex_env, ''a'', BlobEnd 3 (ex_sha [7, 8, 9]))])))
     ''/dl/pending/a.txt'' = Some [7, 8, 9]"
proof -
  have i: "fx_incoming ex_fx = []" by (simp add: ex_fx_def)
  show ?thesis
    using interleaved_file_is_exact[OF ex_tidy i _ refl _ ex_safe two_peers_data(3,3,2) refl _ refl refl refl, where pre = "[]" and post = "[]"
        and sz = 3 and sha = ex_sha] ex_two_peers two_peers_data(1)
    by (simp add: i MAX_CONCURRENT_INCOMING_def)
qed

lemma part_name_is_allowed: "safe_blob_name ''.a.txt.3.part'' = Some ''.a.txt.3.part''"
  by (rule safe_blob_name_complete) (simp_all add: plain_name_def trim_def chars_ascii ws_item_def is_whitespace_def)

text \<open>
  The temporary names are not reserved: a peer may send a file whose name has the form of one,
  and the start of a transfer truncates whatever file has the name of its temporary file, also
  one that was received and acknowledged before.
\<close>

theorem start_truncates_a_received_file:
  assumes "length (fx_incoming fx) < MAX_CONCURRENT_INCOMING" "safe_blob_name name = Some safe" "env_ok env"
    and "p = path_join (dest_dir env pid fx) (part_name safe bid)" "read_file (fx_fs fx) p = Some data"
  shows "read_file (fx_fs (fx_step sha fx (env, pid, BlobStart bid name sz File))) p = Some []"
  using assms
  by (auto simp: fx_step_def on_start_def dest_dir_def env_ok_def create_dir_all_def file_create_def read_file_def insert_incoming_def Let_def
      split: if_splits option.splits)

end
