(* ===== verification/Commands.thy ===== *)
theory Commands
  imports Client Doctor Process Interleaved
begin

text \<open>
  The \<open>qdrop\<close> program as a whole: the command line's types (\<open>crates/qdrop/src/cli.rs\<close>; reading
  them from the arguments is clap's work), \<open>main\<close> and \<open>run\<close> of \<open>crates/qdrop/src/main.rs\<close> with
  the parts of the commands that are not in \<open>Cli\<close>, \<open>Client\<close> and \<open>Doctor\<close>, the choice of the log
  filter (\<open>crates/qdrop-core/src/logging.rs\<close>), and the programs started for notifications and
  links (\<open>notify.rs\<close>, \<open>weblink.rs\<close>).
\<close>

section \<open>The command line\<close>

record pair_args =
  pa_target :: "string option"
  pa_remove :: "string option"

record send_args =
  sa_paths :: "string list"
  sa_to :: "string option"
  sa_name :: "string option"

record recv_args =
  ra_stdout :: bool
  ra_keep :: bool
  ra_timeout :: "nat option"

record open_args =
  oa_url :: string
  oa_to :: "string option"

record auth_args =
  aa_name :: "string option"
  aa_remove :: "string option"
  aa_mutual :: bool

record status_args =
  st_json :: bool
  st_waybar :: bool

text \<open>\<open>Peers\<close> and \<open>Doctor\<close> carry \<open>--json\<close>, \<open>Daemon\<close> the port, \<open>Clip\<close> also \<open>--to\<close>.\<close>

datatype command =
    PairC pair_args
  | PeersC bool
  | SendC send_args
  | RecvC recv_args
  | PasteC
  | CopyC
  | OpenC open_args
  | ClipC clip_args "string option"
  | AuthC auth_args
  | StatusC status_args
  | DoctorC bool
  | DaemonC "u16 option"

record cli =
  cli_verbose :: bool
  cli_quiet :: bool
  cli_command :: command

section \<open>What the commands find\<close>

text \<open>
  The files, the terminal and the network as a run of the client sees them. The registry and
  the files of the download directory are the daemon's (\<open>dm_reg\<close>, \<open>fx_fs\<close>), one for both; what
  \<open>recv\<close> sees of the directory while it waits is given by its turns. \<open>cl_mkdir\<close> and \<open>cl_remove\<close> say
  whether making the download directory and removing a received file succeed; \<open>exec\<close> returns
  only when it fails. Of \<open>cl_doctor\<close> the answer of the daemon, the registry and the probe are
  replaced by what the command finds.
\<close>

record client =
  cl_config :: "(string, config) res"
  cl_rust_log :: "string option"
  cl_init :: "string \<Rightarrow> (string, unit) res"
  cl_ask :: "daemon ask"
  cl_pretty :: "json \<Rightarrow> string"
  cl_dbg :: "string \<Rightarrow> string"
  cl_explain :: "cli_error \<Rightarrow> string"
  cl_now :: u64
  cl_state :: state_file_read
  cl_stdin :: "(string, string) res"
  cl_send :: send_env
  cl_downloads :: "(string, string) res"
  cl_before :: "(string \<times> bool) list"
  cl_turns :: "recv_turn list"
  cl_read :: "string \<Rightarrow> (string, string) res"
  cl_stdout :: "(string, unit) res"
  cl_mkdir :: bool
  cl_remove :: bool
  cl_probe :: probe_env
  cl_doctor :: doctor_env
  cl_default :: config
  cl_exe :: "(string, string option) res"
  cl_exists :: "string \<Rightarrow> bool"
  cl_exec :: "string \<times> string list \<Rightarrow> string option"

text \<open>Pairing: the local identity, the outcome of both sides of the exchange, the PIN when it was shown.\<close>

record pair_env =
  pe_local :: "(string, unit) res"
  pe_b64 :: "bytes \<Rightarrow> string"
  pe_sha :: "bytes \<Rightarrow> bytes"
  pe_alnum :: "nat \<Rightarrow> bool"
  pe_save :: bool
  pe_pin :: "string option"
  pe_offer :: "(pair_error, paired) res"
  pe_request :: "string \<Rightarrow> string \<Rightarrow> (pair_error, paired) res"
  pe_typed :: "(string, string) res"

section \<open>Commands\<close>

definition log_directive :: "string option \<Rightarrow> bool \<Rightarrow> string \<Rightarrow> string" where
  "log_directive rust_log verbose fallback =
    (case rust_log of Some f \<Rightarrow> f | None \<Rightarrow> if verbose then ''debug'' else fallback)"

definition saved :: "peers \<Rightarrow> daemon \<Rightarrow> daemon" where
  "saved ps d = d\<lparr>dm_reg := Inr ps\<rparr>"

definition run_unpair :: "client \<Rightarrow> pair_env \<Rightarrow> string \<Rightarrow> daemon \<Rightarrow> outcome \<times> daemon" where
  "run_unpair cl pe name d =
    (case cmd_unpair (pe_save pe) (dm_reg d) name of
       Inr ps \<Rightarrow> (done_with (''Unpaired '' @ name @ ''.'' @ newline), saved ps d)
     | Inl NoSuchPeer \<Rightarrow> (bail (''no paired peer named '' @ cl_dbg cl name), d)
     | Inl e \<Rightarrow> (bail (cl_explain cl e), d))"

text \<open>What is printed before the other device answers, by the offering and by the requesting side.\<close>

definition pair_banner :: "pair_env \<Rightarrow> config \<Rightarrow> string option \<Rightarrow> string" where
  "pair_banner pe cfg target =
    (case target of
       None \<Rightarrow>
         (case pe_pin pe of
            Some pin \<Rightarrow> ''Pairing PIN: '' @ pin @ newline
              @ ''On the other device, run:  qdrop pair '' @ shell_quote (pe_alnum pe) (device_name cfg) @ newline
              @ ''Waiting up to 60s for it to connect...'' @ newline
          | None \<Rightarrow> [])
     | Some t \<Rightarrow> ''Enter the 6-digit PIN shown on '' @ t @ '': '')"

definition run_pair :: "client \<Rightarrow> pair_env \<Rightarrow> pair_args \<Rightarrow> daemon \<Rightarrow> outcome \<times> daemon" where
  "run_pair cl pe args d =
    (case pa_remove args of
       Some name \<Rightarrow> run_unpair cl pe name d
     | None \<Rightarrow>
         (case (cl_config cl, pe_local pe) of
            (Inl e, _) \<Rightarrow> (bail e, d)
          | (_, Inl e) \<Rightarrow> (bail e, d)
          | (Inr cfg, Inr _) \<Rightarrow>
              let said = pair_banner pe cfg (pa_target args) in
              (case (pa_target args, pe_typed pe) of
                 (Some _, Inl e) \<Rightarrow> ((bail e)\<lparr>out_text := said\<rparr>, d)
               | (_, typed) \<Rightarrow>
                   (case cmd_pair (pe_b64 pe) (pe_save pe) (dm_reg d) (pe_offer pe) (pe_request pe) (pa_target args)
                           (case typed of Inr line \<Rightarrow> line | Inl _ \<Rightarrow> []) of
                      Inl e \<Rightarrow> ((bail (cl_explain cl e))\<lparr>out_text := said\<rparr>, d)
                    | Inr (p, ps) \<Rightarrow>
                        (done_with (said @ ''Paired with '' @ pd_name p @ '' ('' @ fingerprint_of (pe_sha pe) (pd_key p) @ '')'' @ newline),
                         saved ps d)))))"

definition run_auth :: "client \<Rightarrow> pair_env \<Rightarrow> auth_args \<Rightarrow> daemon \<Rightarrow> outcome \<times> daemon" where
  "run_auth cl pe args d =
    (case (aa_remove args, aa_name args) of
       (Some name, _) \<Rightarrow>
         (case cmd_auth_remove (pe_save pe) (dm_reg d) name of
            Inr (True, ps) \<Rightarrow> (done_with (''Revoked authorization for '' @ name @ ''.'' @ newline), saved ps d)
          | Inr (False, _) \<Rightarrow> (done_with (name @ '' was not authorized.'' @ newline), d)
          | Inl NoSuchPeer \<Rightarrow> (bail (''no paired peer matching '' @ cl_dbg cl name), d)
          | Inl e \<Rightarrow> (bail (cl_explain cl e), d))
     | (None, None) \<Rightarrow>
         (case dm_reg d of
            Inr ps \<Rightarrow> (done_with (cmd_auth_list ps), d)
          | Inl e \<Rightarrow> (bail (cl_explain cl (CliLoad e)), d))
     | (None, Some name) \<Rightarrow> cmd_auth_ask (cl_ask cl) name (aa_mutual args) d)"

text \<open>
  \<open>cmd\_recv\<close>; beside the outcome the file that is removed again, if any; \<open>None\<close> says that the
  command is still waiting when the observed turns are used up.
\<close>

definition cmd_recv :: "client \<Rightarrow> bool \<Rightarrow> nat \<Rightarrow> recv_args \<Rightarrow> (outcome \<times> string option) option" where
  "cmd_recv cl quiet start args =
    (case cl_downloads cl of
       Inl e \<Rightarrow> Some (bail e, None)
     | Inr dir \<Rightarrow>
         let before = visible (cl_before cl);
             said = (if quiet then [] else ''Waiting for an incoming file in '' @ dir @ ''...'' @ newline)
         in map_option (\<lambda>r. case r of
              Inl e \<Rightarrow> ((bail e)\<lparr>err_text := said\<rparr>, None)
            | Inr p \<Rightarrow> (case recv_end (ra_stdout args) (ra_keep args) (cl_read cl) (cl_stdout cl) p of
                (out, gone) \<Rightarrow> (out\<lparr>err_text := said @ err_text out\<rparr>, if gone then Some p else None)))
            (recv_loop before (start + recv_timeout (ra_timeout args)) (cl_turns cl)))"

text \<open>
  The two commands that touch files of the download directory: \<open>recv\<close> makes the directory and
  may remove the file it has printed, \<open>doctor\<close> asks the daemon and writes its probe.
\<close>

definition with_files :: "fs \<Rightarrow> daemon \<Rightarrow> daemon" where
  "with_files f d = d\<lparr>dm_fx := (dm_fx d)\<lparr>fx_fs := f\<rparr>\<rparr>"

definition run_recv :: "client \<Rightarrow> bool \<Rightarrow> nat \<Rightarrow> recv_args \<Rightarrow> daemon \<Rightarrow> outcome option \<times> daemon" where
  "run_recv cl quiet start args d =
    (let f = fx_fs (dm_fx d);
         f = (case cl_downloads cl of Inr dir \<Rightarrow> if cl_mkdir cl then create_dir_all dir f else f | Inl _ \<Rightarrow> f)
     in (case cmd_recv cl quiet start args of
           None \<Rightarrow> (None, with_files f d)
         | Some (out, gone) \<Rightarrow>
             (Some out, with_files (case gone of Some p \<Rightarrow> if cl_remove cl then remove_file p f else f | None \<Rightarrow> f) d)))"

definition run_doctor :: "client \<Rightarrow> bool \<Rightarrow> daemon \<Rightarrow> outcome \<times> daemon" where
  "run_doctor cl as_json d =
    (case cl_ask cl (simple_req ''status'') d of
       (answer, d) \<Rightarrow>
         let f = fx_fs (dm_fx d);
             env = (cl_doctor cl)\<lparr>dc_status := (case answer of Inr s \<Rightarrow> Some s | Inl _ \<Rightarrow> None), dc_reg := dm_reg d,
                     dc_probe := (\<lambda>dir. fst (probe_downloads (cl_probe cl) dir f))\<rparr>
         in (cmd_doctor (cl_pretty cl) as_json (doctor_run (cl_default cl) env),
             with_files (case dc_downloads env of Inr dir \<Rightarrow> snd (probe_downloads (cl_probe cl) dir f) | Inl _ \<Rightarrow> f) d))"

text \<open>\<open>cmd\_daemon\<close>: on success the process has become the daemon.\<close>

definition cmd_daemon :: "client \<Rightarrow> bool \<Rightarrow> u16 option \<Rightarrow> (string, string \<times> string list) res" where
  "cmd_daemon cl verbose listen =
    (case cl_exe cl of
       Inl e \<Rightarrow> Inl (''locating the qdrop executable: '' @ e)
     | Inr parent \<Rightarrow>
         let argv = daemon_argv (cl_exists cl) parent verbose listen
         in (case cl_exec cl argv of
               Some e \<Rightarrow> Inl (''exec '' @ fst argv @ '': '' @ e)
             | None \<Rightarrow> Inr argv))"

section \<open>Running a command\<close>

text \<open>A run ends with an outcome, goes on waiting, or has become another program.\<close>

datatype run_end = Ended outcome | Waiting | Became "string \<times> string list"

fun run_command :: "client \<Rightarrow> pair_env \<Rightarrow> nat \<Rightarrow> bool \<Rightarrow> bool \<Rightarrow> command \<Rightarrow> daemon \<Rightarrow> run_end \<times> daemon" where
  "run_command cl pe start verbose quiet (PeersC as_json) d =
     (Ended (cmd_peers (cl_pretty cl) (cl_now cl) (\<lambda>e. cl_explain cl (CliLoad e)) (dm_reg d) (cl_state cl) as_json), d)"
| "run_command cl pe start verbose quiet (PairC args) d = apfst Ended (run_pair cl pe args d)"
| "run_command cl pe start verbose quiet (SendC args) d =
     apfst Ended (cmd_send (cl_send cl) (cl_ask cl) quiet (sa_paths args) (sa_to args) (sa_name args) d)"
| "run_command cl pe start verbose quiet (RecvC args) d =
     apfst (case_option Waiting Ended) (run_recv cl quiet start args d)"
| "run_command cl pe start verbose quiet PasteC d = apfst Ended (cmd_paste (cl_ask cl) d)"
| "run_command cl pe start verbose quiet CopyC d = apfst Ended (cmd_copy (cl_ask cl) quiet (cl_stdin cl) d)"
| "run_command cl pe start verbose quiet (OpenC args) d =
     apfst Ended (cmd_open (cl_dbg cl) (cl_ask cl) (oa_url args) (oa_to args) d)"
| "run_command cl pe start verbose quiet (ClipC args dst) d =
     apfst Ended (cmd_clip (cl_ask cl) (clip_action_of args) dst d)"
| "run_command cl pe start verbose quiet (AuthC args) d = apfst Ended (run_auth cl pe args d)"
| "run_command cl pe start verbose quiet (StatusC args) d =
     apfst Ended (cmd_status (cl_pretty cl) (cl_ask cl) (st_json args) (st_waybar args) d)"
| "run_command cl pe start verbose quiet (DoctorC as_json) d =
     apfst Ended (run_doctor cl as_json d)"
| "run_command cl pe start verbose quiet (DaemonC listen) d =
     (case cmd_daemon cl verbose listen of Inr argv \<Rightarrow> Became argv | Inl e \<Rightarrow> Ended (bail e), d)"

definition run :: "client \<Rightarrow> pair_env \<Rightarrow> nat \<Rightarrow> cli \<Rightarrow> daemon \<Rightarrow> run_end \<times> daemon" where
  "run cl pe start c d =
    (case cl_config cl of
       Inl e \<Rightarrow> (Ended (bail e), d)
     | Inr cfg \<Rightarrow>
         (case cl_init cl (log_directive (cl_rust_log cl) (cli_verbose c) (log_filter cfg)) of
            Inl e \<Rightarrow> (Ended (bail e), d)
          | Inr _ \<Rightarrow> run_command cl pe start (cli_verbose c) (cli_quiet c) (cli_command c) d))"

text \<open>\<open>main\<close>: the exit status and all that is written to the two streams; \<open>None\<close> while it runs on.\<close>

definition qdrop_main :: "client \<Rightarrow> pair_env \<Rightarrow> nat \<Rightarrow> cli \<Rightarrow> daemon \<Rightarrow> (nat \<times> string \<times> string) option \<times> daemon" where
  "qdrop_main cl pe start c d =
    (case run cl pe start c d of
       (Ended out, d) \<Rightarrow>
         (case exit_code ''qdrop'' (out_res out) of
            (code, msg) \<Rightarrow> (Some (code, out_text out, err_text out @ msg), d))
     | (_, d) \<Rightarrow> (None, d))"

section \<open>Programs started by the daemon\<close>

definition notify_argv :: "bool \<Rightarrow> string \<Rightarrow> string \<Rightarrow> string \<times> string list" where
  "notify_argv macos summary body =
    (if macos
     then (''osascript'', [''-e'', ''display notification '' @ applescript_quote body @ '' with title '' @ applescript_quote summary])
     else (''notify-send'', [''--app-name=qdrop'', summary, body]))"

definition launcher_argv :: "bool \<Rightarrow> string \<Rightarrow> string \<times> string list" where
  "launcher_argv macos url = (if macos then ''open'' else ''xdg-open'', [url])"

section \<open>Lemmas\<close>

text \<open>What asking the daemon does to it.\<close>

lemma ask_state:
  "wire_ok w \<Longrightarrow> snd (request_json w sha env reach (req_json r) d) =
     (case reach of Inl _ \<Rightarrow> d | Inr _ \<Rightarrow> snd (snd (dispatch sha env r d)))"
  using ask_daemon[of w sha env r d] by (cases reach; cases "dispatch sha env r d") (auto simp: request_json_def)

lemma with_answer_state: "snd (with_answer ask req d k) = snd (ask req d)"
  by (simp add: with_answer_def split: prod.split sum.split)

lemma dispatch_keeps_registry: "(\<And>name mutual. r \<noteq> ReqAuth name mutual) \<Longrightarrow> dm_reg (snd (snd (dispatch sha env r d))) = dm_reg d"
  by (cases r) (auto simp: to_clipboard_def clip_send_text_def Let_def split: option.splits restored.splits prod.splits sum.splits)

lemma ask_keeps_registry:
  "wire_ok w \<Longrightarrow> (\<And>name mutual. r \<noteq> ReqAuth name mutual) \<Longrightarrow>
     dm_reg (snd (request_json w sha env reach (req_json r) d)) = dm_reg d"
  by (simp add: ask_state dispatch_keeps_registry split: sum.split)

text \<open>The commands that only look, and those that edit the registry.\<close>

fun looks_only :: "command \<Rightarrow> bool" where
  "looks_only (ClipC args _) \<longleftrightarrow> clip_action_of args \<in> {ShowStatus, ShowHistory}"
| "looks_only (AuthC args) \<longleftrightarrow> aa_name args = None \<and> aa_remove args = None"
| "looks_only c \<longleftrightarrow> (case c of PeersC _ \<Rightarrow> True | PasteC \<Rightarrow> True | StatusC _ \<Rightarrow> True | _ \<Rightarrow> False)"

fun edits_registry :: "command \<Rightarrow> bool" where
  "edits_registry (PairC _) = True"
| "edits_registry (AuthC args) \<longleftrightarrow> \<not> (aa_name args = None \<and> aa_remove args = None)"
| "edits_registry _ = False"

text \<open>The two facts for each request the client builds.\<close>

lemma asked_registry:
  assumes "wire_ok w"
  shows "dm_reg (snd (request_json w sha env reach (simple_req ''clip_pause'') d)) = dm_reg d"
    "dm_reg (snd (request_json w sha env reach (simple_req ''clip_resume'') d)) = dm_reg d"
    "dm_reg (snd (request_json w sha env reach (simple_req ''clip_status'') d)) = dm_reg d"
    "dm_reg (snd (request_json w sha env reach (simple_req ''status'') d)) = dm_reg d"
    "dm_reg (snd (request_json w sha env reach (send_req paths dst) d)) = dm_reg d"
    "dm_reg (snd (request_json w sha env reach (open_req url dst) d)) = dm_reg d"
    "dm_reg (snd (request_json w sha env reach (simple_req ''clip_get'') d)) = dm_reg d"
    "dm_reg (snd (request_json w sha env reach (clip_set_req text) d)) = dm_reg d"
    "dm_reg (snd (request_json w sha env reach (simple_req ''clip_history'') d)) = dm_reg d"
    "dm_reg (snd (request_json w sha env reach (clip_restore_req n) d)) = dm_reg d"
    "dm_reg (snd (request_json w sha env reach (clip_send_req n dst) d)) = dm_reg d"
  using ask_keeps_registry[OF assms, of ClipPause sha env reach d]
    ask_keeps_registry[OF assms, of ClipResume sha env reach d]
    ask_keeps_registry[OF assms, of ClipStatus sha env reach d]
    ask_keeps_registry[OF assms, of Status sha env reach d]
    ask_keeps_registry[OF assms, of "Send paths dst" sha env reach d]
    ask_keeps_registry[OF assms, of "Open url dst" sha env reach d]
    ask_keeps_registry[OF assms, of ClipGet sha env reach d]
    ask_keeps_registry[OF assms, of "ClipSet text" sha env reach d]
    ask_keeps_registry[OF assms, of ClipHistory sha env reach d]
    ask_keeps_registry[OF assms, of "ClipRestore n" sha env reach d]
    ask_keeps_registry[OF assms, of "ClipSend n dst" sha env reach d]
  by simp_all

lemma asked_state:
  assumes "wire_ok w"
  shows "snd (request_json w sha env reach (simple_req ''clip_status'') d) = (case reach of Inl _ \<Rightarrow> d | Inr _ \<Rightarrow> snd (snd (dispatch sha env ClipStatus d)))"
    "snd (request_json w sha env reach (simple_req ''status'') d) = (case reach of Inl _ \<Rightarrow> d | Inr _ \<Rightarrow> snd (snd (dispatch sha env Status d)))"
    "snd (request_json w sha env reach (simple_req ''clip_get'') d) = (case reach of Inl _ \<Rightarrow> d | Inr _ \<Rightarrow> snd (snd (dispatch sha env ClipGet d)))"
    "snd (request_json w sha env reach (simple_req ''clip_history'') d) = (case reach of Inl _ \<Rightarrow> d | Inr _ \<Rightarrow> snd (snd (dispatch sha env ClipHistory d)))"
  using ask_state[OF assms, of sha env reach ClipStatus d]
    ask_state[OF assms, of sha env reach Status d]
    ask_state[OF assms, of sha env reach ClipGet d]
    ask_state[OF assms, of sha env reach ClipHistory d]
  by simp_all

lemma clip_registry: "wire_ok w \<Longrightarrow> dm_reg (snd (cmd_clip (request_json w sha env reach) a dst d)) = dm_reg d"
proof (cases a)
  case Toggle
  assume w: "wire_ok w"
  obtain r d1 where a: "request_json w sha env reach (simple_req ''clip_status'') d = (r, d1)" by force
  have "dm_reg d1 = dm_reg d" using asked_registry(3)[OF w, of sha env reach d] by (simp add: a)
  then show ?thesis using Toggle w a by (cases r) (auto simp: with_answer_state asked_registry)
qed (simp_all add: with_answer_state asked_registry)

lemma send_state:
  "snd (cmd_send senv ask quiet paths dst name d) =
     (case gather_paths senv paths name of Inl _ \<Rightarrow> d | Inr (abs_paths, _) \<Rightarrow> snd (ask (send_req abs_paths dst) d))"
  by (auto simp: cmd_send_def Let_def split: sum.split prod.split)

text \<open>The files: what \<open>recv\<close> and \<open>doctor\<close> leave alone.\<close>

definition same_file :: "fs \<Rightarrow> fs \<Rightarrow> string \<Rightarrow> bool" where
  "same_file f g q \<longleftrightarrow> dirents f q = dirents g q \<and> read_file f q = read_file g q"

lemma with_files_reg [simp]: "dm_reg (with_files f d) = dm_reg d"
  by (simp add: with_files_def)

lemma same_file_dirs [simp]: "same_file (create_dir_all dir f) g q = same_file f g q"
  by (simp add: same_file_def create_dir_all_def read_file_def)

lemma same_file_refl [simp]: "same_file f f q"
  by (simp add: same_file_def)

lemma same_file_remove: "same_file f g q \<Longrightarrow> q \<noteq> p \<Longrightarrow> same_file (remove_file p f) g q"
  by (auto simp: same_file_def remove_file_def read_file_def)

lemma probe_others:
  assumes "fs_tidy f" "q \<noteq> probe_path dir"
  shows "same_file (snd (probe_downloads pb dir f)) f q"
proof -
  let ?g = "create_dir_all dir f"
  obtain h g where c: "file_create (probe_path dir) ?g = (h, g)" by fastforce
  have d: "dirents ?g = dirents f" "inodes ?g = inodes f" "next_ino ?g = next_ino f" by (simp_all add: create_dir_all_def)
  have i: "inodes g i = inodes f i" "i \<noteq> h_ino h" if "dirents f q = Some i" for i
    using c tidyD(1)[OF assms(1) that, of "probe_path dir"] tidyD(2)[OF assms(1) that] assms(2)
    by (auto simp: file_create_def d split: option.splits)
  have e: "dirents g q = dirents f q" using c assms(2) by (auto simp: file_create_def d split: option.splits)
  have "same_file g f q" "same_file (snd (file_write h b g)) f q" for b
    using i e by (cases "dirents f q"; simp add: same_file_def read_file_def file_write_def)+
  then show ?thesis
    using assms(2) by (auto simp: probe_downloads_def c Let_def same_file_remove split: sum.splits)
qed

text \<open>A file that was printed to the standard output and then removed.\<close>

definition printed_and_removed :: "client \<Rightarrow> recv_args \<Rightarrow> fs \<Rightarrow> string \<Rightarrow> string \<Rightarrow> bool" where
  "printed_and_removed cl args f printed q \<longleftrightarrow>
     ra_stdout args \<and> \<not> ra_keep args \<and> q \<notin> set (visible (cl_before cl)) \<and> (\<exists>t\<in>set (cl_turns cl). q \<in> set (rt_files t))
     \<and> cl_read cl q = Inr printed \<and> dirents f q = None"

lemma recv_removes:
  assumes "cmd_recv cl quiet start args = Some (out, Some p)" "dirents f p = None"
  shows "printed_and_removed cl args f (out_text out) p"
proof -
  obtain dir where dir: "cl_downloads cl = Inr dir" using assms(1) by (auto simp: cmd_recv_def split: sum.splits)
  with assms(1) obtain x where x: "recv_loop (visible (cl_before cl)) (start + recv_timeout (ra_timeout args)) (cl_turns cl) = Some x"
    by (auto simp: cmd_recv_def Let_def)
  with assms(1) dir obtain q where q: "x = Inr q" by (cases x) (auto simp: cmd_recv_def Let_def)
  obtain out' gone where e: "recv_end (ra_stdout args) (ra_keep args) (cl_read cl) (cl_stdout cl) q = (out', gone)" by fastforce
  have g: "gone" "p = q" "out_text out = out_text out'" using assms(1) dir x q e by (auto simp: cmd_recv_def Let_def split: if_splits)
  then have "ra_stdout args" "\<not> ra_keep args" "cl_read cl p = Inr (out_text out')"
    using e by (auto simp: recv_end_def done_with_def split: if_splits sum.splits)
  with recv_loop_Inr[OF x[unfolded q]] g assms(2) show ?thesis by (auto simp: printed_and_removed_def)
qed

lemma run_recv_files:
  assumes "run_recv cl quiet start args d = (res, d')"
  shows "\<exists>f. d' = with_files f d
    \<and> (\<forall>q. same_file f (fx_fs (dm_fx d)) q \<or> (\<exists>out. res = Some out \<and> printed_and_removed cl args f (out_text out) q))"
proof -
  let ?f0 = "fx_fs (dm_fx d)"
  define g where "g = (case cl_downloads cl of Inr dir \<Rightarrow> if cl_mkdir cl then create_dir_all dir ?f0 else ?f0 | Inl _ \<Rightarrow> ?f0)"
  have g: "same_file g ?f0 q" for q by (simp add: g_def split: sum.split)
  have r: "run_recv cl quiet start args d = (case cmd_recv cl quiet start args of
           None \<Rightarrow> (None, with_files g d)
         | Some (out, gone) \<Rightarrow>
             (Some out, with_files (case gone of Some p \<Rightarrow> if cl_remove cl then remove_file p g else g | None \<Rightarrow> g) d))"
    by (simp only: run_recv_def g_def Let_def)
  show ?thesis
  proof (cases "\<exists>out p. cmd_recv cl quiet start args = Some (out, Some p) \<and> cl_remove cl")
    case True
    then obtain out p where p: "cmd_recv cl quiet start args = Some (out, Some p)" "cl_remove cl" by blast
    have "d' = with_files (remove_file p g) d" "res = Some out" using p assms r by simp_all
    moreover have "same_file (remove_file p g) ?f0 q" if "q \<noteq> p" for q using g that by (rule same_file_remove)
    moreover have "printed_and_removed cl args (remove_file p g) (out_text out) p"
      by (rule recv_removes[OF p(1)]) (simp add: remove_file_def)
    ultimately have "same_file (remove_file p g) ?f0 q \<or> (\<exists>out. res = Some out \<and> printed_and_removed cl args (remove_file p g) (out_text out) q)" for q
      by (cases "q = p") auto
    with \<open>d' = with_files (remove_file p g) d\<close> show ?thesis by blast
  next
    case False
    then have "d' = with_files g d"
      using assms unfolding r by (cases "cmd_recv cl quiet start args") (auto split: option.splits prod.splits)
    with g show ?thesis by blast
  qed
qed

lemma run_doctor_files:
  assumes "wire_ok w" "cl_ask cl = request_json w sha env reach" "fs_tidy (fx_fs (dm_fx d))" "d' = snd (run_doctor cl as_json d)"
  shows "\<exists>f. d' = with_files f d
    \<and> (\<forall>q. (\<forall>dir. dc_downloads (cl_doctor cl) = Inr dir \<longrightarrow> q \<noteq> probe_path dir) \<longrightarrow> same_file f (fx_fs (dm_fx d)) q)"
proof -
  obtain r d1 where a: "request_json w sha env reach (simple_req ''status'') d = (r, d1)" by fastforce
  have "d1 = d" using asked_state(2)[OF assms(1), of sha env reach d] a by (simp split: sum.splits)
  with a assms(2) have "d' = with_files (case dc_downloads (cl_doctor cl) of
      Inr dir \<Rightarrow> snd (probe_downloads (cl_probe cl) dir (fx_fs (dm_fx d))) | Inl _ \<Rightarrow> fx_fs (dm_fx d)) d"
    by (simp add: assms(4) run_doctor_def Let_def)
  moreover have "same_file (case dc_downloads (cl_doctor cl) of
      Inr dir \<Rightarrow> snd (probe_downloads (cl_probe cl) dir (fx_fs (dm_fx d))) | Inl _ \<Rightarrow> fx_fs (dm_fx d)) (fx_fs (dm_fx d)) q"
    if "\<forall>dir. dc_downloads (cl_doctor cl) = Inr dir \<longrightarrow> q \<noteq> probe_path dir" for q
    using that probe_others[OF assms(3)] by (simp split: sum.split)
  ultimately show ?thesis by blast
qed

lemma command_registry:
  assumes "wire_ok w" "cl_ask cl = request_json w sha env reach" "\<not> edits_registry c"
  shows "dm_reg (snd (run_command cl pe start verbose quiet c d)) = dm_reg d"
proof (cases c)
  case (SendC args)
  with assms(1,2) show ?thesis by (auto simp: send_state asked_registry split: sum.split)
next
  case (RecvC args)
  then show ?thesis by (simp add: run_recv_def Let_def split: option.split)
next
  case (DoctorC as_json)
  then show ?thesis using assms(1,2) asked_registry(4)[OF assms(1), of sha env reach d]
    by (simp add: run_doctor_def Let_def case_prod_beta)
next
  case (AuthC args)
  with assms(3) show ?thesis by (auto simp: run_auth_def split: sum.split)
qed (use assms in \<open>auto simp: cmd_paste_def cmd_copy_def cmd_open_def cmd_status_def clip_registry with_answer_state
      asked_registry split: sum.split\<close>)

lemma command_looks:
  assumes "wire_ok w" "cl_ask cl = request_json w sha env reach" "looks_only c"
  shows "snd (run_command cl pe start verbose quiet c d) = d
    \<or> c = PasteC \<and> snd (run_command cl pe start verbose quiet c d) = to_clipboard GetText d"
proof (cases c)
  case (ClipC args dst)
  with assms show ?thesis by (auto simp: with_answer_state asked_state split: sum.split)
next
  case (AuthC args)
  with assms(3) show ?thesis by (auto simp: run_auth_def split: sum.split)
qed (use assms in \<open>auto simp: cmd_paste_def cmd_status_def with_answer_state asked_state split: sum.split option.split\<close>)

section \<open>Properties\<close>

text \<open>
  C31. What a command of the client can change in the daemon, the registry and the download
  directory, whatever the daemon answers or whether it can be reached: only pairing, unpairing
  and changing an authorisation touch the registry of paired devices; a command that is meant to
  look (peers, status, the clipboard status and history, the list of authorisations) leaves
  everything exactly as it was, \<open>qdrop paste\<close> being served by one read of the clipboard;
  \<open>qdrop doctor\<close>, which asks the daemon for its status and writes and removes a probe file,
  changes no other file (on a file system in which no file has two names); and \<open>qdrop recv\<close> changes
  no file either, except that with \<open>--stdout\<close> and without \<open>--keep\<close> it may remove one file that was
  not visible when it started, was seen in a later look at the directory, and whose content it
  has printed.
\<close>

theorem commands_change_what_they_name:
  assumes "wire_ok w" "cl_ask cl = request_json w sha env reach" "fs_tidy (fx_fs (dm_fx d))"
    and "qdrop_main cl pe start c d = (res, d')"
  shows "(\<not> edits_registry (cli_command c) \<longrightarrow> dm_reg d' = dm_reg d)
    \<and> (looks_only (cli_command c) \<longrightarrow> d' = d \<or> cli_command c = PasteC \<and> d' = to_clipboard GetText d)
    \<and> (\<forall>as_json. cli_command c = DoctorC as_json \<longrightarrow>
         (\<exists>f. d' = with_files f d
            \<and> (\<forall>q. (\<forall>dir. dc_downloads (cl_doctor cl) = Inr dir \<longrightarrow> q \<noteq> probe_path dir) \<longrightarrow> same_file f (fx_fs (dm_fx d)) q)))
    \<and> (\<forall>args. cli_command c = RecvC args \<longrightarrow>
         (\<exists>f. d' = with_files f d
            \<and> (\<forall>q. same_file f (fx_fs (dm_fx d)) q
                 \<or> (\<exists>code out err. res = Some (code, out, err) \<and> printed_and_removed cl args f out q))))"
proof -
  let ?go = "run_command cl pe start (cli_verbose c) (cli_quiet c) (cli_command c) d"
  have same: "d = with_files (fx_fs (dm_fx d)) d" by (simp add: with_files_def)
  have main: "d' = snd (run cl pe start c d)"
    "\<And>out. fst (run cl pe start c d) = Ended out \<Longrightarrow> \<exists>code err. res = Some (code, out_text out, err)"
    using assms(4) by (auto simp: qdrop_main_def split: prod.splits run_end.splits)
  consider (stop) "d' = d" | (go) "run cl pe start c d = ?go"
    using main(1) by (auto simp: run_def split: sum.splits)
  then show ?thesis
  proof cases
    case stop
    with same show ?thesis by (metis same_file_refl)
  next
    case go
    note r = main[unfolded go]
    have recv: "\<exists>f. d' = with_files f d
        \<and> (\<forall>q. same_file f (fx_fs (dm_fx d)) q \<or> (\<exists>code out err. res = Some (code, out, err) \<and> printed_and_removed cl args f out q))"
      if "cli_command c = RecvC args" for args
    proof -
      obtain o1 d1 where o: "run_recv cl (cli_quiet c) start args d = (o1, d1)" by fastforce
      have "d1 = d'" "\<And>out. o1 = Some out \<Longrightarrow> \<exists>code err. res = Some (code, out_text out, err)" using r that o by auto
      with run_recv_files[OF o] show ?thesis by metis
    qed
    have doctor: "\<exists>f. d' = with_files f d
        \<and> (\<forall>q. (\<forall>dir. dc_downloads (cl_doctor cl) = Inr dir \<longrightarrow> q \<noteq> probe_path dir) \<longrightarrow> same_file f (fx_fs (dm_fx d)) q)"
      if "cli_command c = DoctorC as_json" for as_json
      using run_doctor_files[OF assms(1-3)] r(1) that by simp
    have "\<not> edits_registry (cli_command c) \<longrightarrow> dm_reg d' = dm_reg d"
      unfolding r(1) using command_registry[OF assms(1,2)] by blast
    moreover have "looks_only (cli_command c) \<longrightarrow> d' = d \<or> cli_command c = PasteC \<and> d' = to_clipboard GetText d"
      unfolding r(1) using command_looks[OF assms(1,2)] by blast
    ultimately show ?thesis using recv doctor by blast
  qed
qed

definition ex_client :: client where
  "ex_client = \<lparr>cl_config = Inr (config_default None None), cl_rust_log = None, cl_init = (\<lambda>_. Inr ()),
     cl_ask = request_json num_wire (\<lambda>b. b) ct_env (Inr ()), cl_pretty = (\<lambda>_. []), cl_dbg = (\<lambda>s. s), cl_explain = (\<lambda>_. []),
     cl_now = 0, cl_state = StateAbsent, cl_stdin = Inr [], cl_send = ex_send_env, cl_downloads = Inr ''/dl'', cl_before = [],
     cl_turns = [], cl_read = Inr, cl_stdout = Inr (), cl_mkdir = True, cl_remove = True,
     cl_probe = \<lparr>pb_mkdir = Inr (), pb_create = Inr (), pb_write = Inr (), pb_remove = True\<rparr>,
     cl_doctor = ex_doctor,
     cl_default = config_default None None, cl_exe = Inr None, cl_exists = (\<lambda>_. False), cl_exec = (\<lambda>_. None)\<rparr>"

definition ex_pair_env :: pair_env where
  "ex_pair_env = \<lparr>pe_local = Inr (), pe_b64 = (\<lambda>_. []), pe_sha = (\<lambda>b. b), pe_alnum = (\<lambda>_. True), pe_save = True, pe_pin = None,
     pe_offer = Inr cli_paired, pe_request = (\<lambda>_ _. Inr cli_paired), pe_typed = Inr []\<rparr>"

theorem commands_change_what_they_name_witness:
  "dm_reg (snd (qdrop_main ex_client ex_pair_env 0
      \<lparr>cli_verbose = False, cli_quiet = False, cli_command = DoctorC True\<rparr> (ct_daemon (RestoredText []))))
   = dm_reg (ct_daemon (RestoredText []))"
proof -
  let ?d = "ct_daemon (RestoredText [])" and ?c = "\<lparr>cli_verbose = False, cli_quiet = False, cli_command = DoctorC True\<rparr>"
  have a: "cl_ask ex_client = request_json num_wire (\<lambda>b. b) ct_env (Inr ())" by (simp add: ex_client_def)
  have t: "fs_tidy (fx_fs (dm_fx ?d))" by (simp add: ct_daemon_def filexfer_new_def fs_tidy_def fs_empty_def)
  obtain res d' where r: "qdrop_main ex_client ex_pair_env 0 ?c ?d = (res, d')" by fastforce
  from commands_change_what_they_name[OF num_wire_ok a t r] r show ?thesis by simp
qed

text \<open>
  The configuration is loaded before the command is chosen, so a file that does not parse
  ends \<open>qdrop doctor\<close> like every other command, with the bare error: the check of the
  configuration, which would name the file to fix, and all the other checks are never printed.
\<close>

theorem broken_config_stops_the_doctor:
  assumes "cl_config cl = Inl e" "dc_config (cl_doctor cl) = Inl e" "cli_command c = DoctorC as_json"
  shows "fst (qdrop_main cl pe start c d) = Some (1, [], ''qdrop: '' @ e @ newline)
    \<and> hd (doctor_run (cl_default cl) (cl_doctor cl)) =
        check_fail ''config'' e ''fix the syntax error in ~/.config/qdrop/config.toml''"
  using assms by (simp add: qdrop_main_def run_def bail_def exit_code_def newline_def doctor_run_def config_check_def Let_def)

text \<open>
  A notification on macOS is one statement with two string literals, whatever a peer put
  into its name, a link or a file name: AppleScript reads back the body and the summary,
  with line feeds as spaces.
\<close>

theorem notification_is_two_literals:
  assumes "flat = map (\<lambda>c. if c = CHR 0x0A then CHR '' '' else c)"
  shows "\<exists>rest rest'. notify_argv True summary body = (''osascript'', [''-e'', ''display notification '' @ rest])
    \<and> as_literal rest = Some (flat body, '' with title '' @ rest') \<and> as_literal rest' = Some (flat summary, [])"
proof (intro exI conjI)
  show "notify_argv True summary body = (''osascript'', [''-e'', ''display notification ''
      @ (applescript_quote body @ '' with title '' @ applescript_quote summary)])"
    by (simp add: notify_argv_def)
  show "as_literal (applescript_quote body @ '' with title '' @ applescript_quote summary)
      = Some (flat body, '' with title '' @ applescript_quote summary)"
    using as_chars_quoted[of body] by (simp add: as_literal_def applescript_quote_def assms)
  show "as_literal (applescript_quote summary) = Some (flat summary, [])"
    using as_chars_quoted[of summary "[]"] by (simp add: as_literal_def applescript_quote_def assms)
qed

theorem notification_is_two_literals_witness:
  "\<exists>rest rest'. notify_argv True ''a'' [CHR 0x22, CHR 0x0A] = (''osascript'', [''-e'', ''display notification '' @ rest])
    \<and> as_literal rest = Some ([CHR 0x22, CHR '' ''], '' with title '' @ rest') \<and> as_literal rest' = Some (''a'', [])"
  using notification_is_two_literals[OF refl, of "''a''" "[CHR 0x22, CHR 0x0A]"] by simp

end
