(* ===== verification/Sends.thy ===== *)
theory Sends
  imports Filesend
begin

text \<open>
  Concurrent sends: the daemon runs one task per peer, and the tasks of several requests, of
  \<open>filexfer.rs\<close>'s \<open>send\_one\<close> at the same time. They share the counter of transfer ids and the table
  of awaited acknowledgements with each other and with the router. Here an attempt to send is
  run step by step, from one point where it waits to the next, with anything in between; the
  theorem says that it does what \<open>send\_one\<close> of \<open>Filesend\<close> does in one go.
\<close>

section \<open>Tasks\<close>

text \<open>Where an attempt is; from the point where it has drawn its transfer id, with that id.\<close>

datatype send_pc =
    PLook
  | PStat
  | PNumber
  | PRegister u64
  | PStart u64
  | POpen u64
  | PRead u64 bytes
  | PChunk u64 bytes bytes
  | PEnd u64 bytes
  | PWait u64
  | PLeave u64 "(string, string) res"
  | PDone "u64 option" "(string, string) res"

record send_task =
  tk_peer :: string
  tk_path :: string
  tk_name :: string
  tk_size :: u64
  tk_pc :: send_pc
  tk_out :: "message list"

text \<open>What the task observes when it goes on.\<close>

datatype obs =
    OGo
  | OConn bool
  | OStat "(string, bool \<times> u64) res"
  | OSend bool
  | OOpen "(string, unit) res"
  | ORead "(string, bytes) res"
  | OTimeout

record sends =
  ss_fx :: filexfer
  ss_tasks :: "nat \<rightharpoonup> send_task"

definition goto :: "send_pc \<Rightarrow> send_task \<Rightarrow> send_task" where
  "goto pc tk = tk\<lparr>tk_pc := pc\<rparr>"

definition say :: "message \<Rightarrow> send_task \<Rightarrow> send_task" where
  "say m tk = tk\<lparr>tk_out := tk_out tk @ [m]\<rparr>"

text \<open>
  The wait for the acknowledgement: the channel's value if there is one, the end of the channel
  if its sender is gone from the table without a value, otherwise the timeout.
\<close>

definition ack_seen :: "nat \<Rightarrow> u64 \<Rightarrow> obs \<Rightarrow> filexfer \<Rightarrow> ack option" where
  "ack_seen t bid ob fx =
    (case map_of (woken fx) t of
       Some (ok, detail) \<Rightarrow> Some (Acked ok detail)
     | None \<Rightarrow> if acks fx bid \<noteq> Some t then Some AckDropped else if ob = OTimeout then Some AckTimeout else None)"

fun ack_result :: "ack \<Rightarrow> (string, string) res" where
  "ack_result (Acked True detail) = Inr detail"
| "ack_result (Acked False detail) = Inl (''peer rejected: '' @ detail)"
| "ack_result AckDropped = Inl ''ack channel dropped''"
| "ack_result AckTimeout = Inl ''timed out waiting for peer ack''"

definition task_step :: "(bytes \<Rightarrow> bytes) \<Rightarrow> nat \<Rightarrow> obs \<Rightarrow> send_task \<Rightarrow> filexfer \<Rightarrow> send_task \<times> filexfer" where
  "task_step sha t ob tk fx =
    (case tk_pc tk of
       PLook \<Rightarrow>
         (case ob of
            OConn c \<Rightarrow> (goto (if c then PStat else PDone None (Inl ''peer is not connected'')) tk, fx)
          | _ \<Rightarrow> (tk, fx))
     | PStat \<Rightarrow>
         (case ob of
            OStat (Inl e) \<Rightarrow> (goto (PDone None (Inl (''stat '' @ tk_path tk @ '': '' @ e))) tk, fx)
          | OStat (Inr (is_file, sz)) \<Rightarrow>
              if \<not> is_file then (goto (PDone None (Inl (tk_path tk @ '' is not a regular file''))) tk, fx)
              else (case Option.bind (file_name (tk_path tk)) to_str of
                 None \<Rightarrow> (goto (PDone None (Inl ''path has no filename'')) tk, fx)
               | Some name \<Rightarrow> (goto PNumber (tk\<lparr>tk_name := name, tk_size := sz\<rparr>), fx))
          | _ \<Rightarrow> (tk, fx))
     | PNumber \<Rightarrow> (goto (PRegister (next_id fx)) tk, fx\<lparr>next_id := next_id fx + 1\<rparr>)
     | PRegister bid \<Rightarrow> (goto (PStart bid) tk, fx\<lparr>acks := (acks fx)(bid \<mapsto> t)\<rparr>)
     | PStart bid \<Rightarrow>
         (case ob of
            OSend ok \<Rightarrow>
              (if ok then goto (POpen bid) (say (BlobStart bid (tk_name tk) (tk_size tk) File) tk)
               else goto (PLeave bid (Inl ''connection closed'')) tk, fx)
          | _ \<Rightarrow> (tk, fx))
     | POpen bid \<Rightarrow>
         (case ob of
            OOpen r \<Rightarrow> (goto (case r of Inl e \<Rightarrow> PLeave bid (Inl e) | Inr _ \<Rightarrow> PRead bid []) tk, fx)
          | _ \<Rightarrow> (tk, fx))
     | PRead bid hashed \<Rightarrow>
         (case ob of
            ORead r \<Rightarrow>
              (goto (case r of
                 Inl e \<Rightarrow> PLeave bid (Inl e)
               | Inr buf \<Rightarrow> if buf = [] then PEnd bid hashed else PChunk bid hashed buf) tk, fx)
          | _ \<Rightarrow> (tk, fx))
     | PChunk bid hashed buf \<Rightarrow>
         (case ob of
            OSend ok \<Rightarrow>
              (if ok then goto (PRead bid (hashed @ buf)) (say (BlobChunk bid buf) tk)
               else goto (PLeave bid (Inl ''connection closed mid-transfer'')) tk, fx)
          | _ \<Rightarrow> (tk, fx))
     | PEnd bid hashed \<Rightarrow>
         (case ob of
            OSend ok \<Rightarrow>
              (if ok then goto (PWait bid) (say (BlobEnd bid (sha hashed)) tk)
               else goto (PLeave bid (Inl ''connection closed'')) tk, fx)
          | _ \<Rightarrow> (tk, fx))
     | PWait bid \<Rightarrow>
         (case ack_seen t bid ob fx of Some a \<Rightarrow> goto (PLeave bid (ack_result a)) tk | None \<Rightarrow> tk, fx)
     | PLeave bid r \<Rightarrow> (goto (PDone (Some bid) r) tk, fx\<lparr>acks := (acks fx)(bid := None)\<rparr>)
     | PDone _ _ \<Rightarrow> (tk, fx))"

text \<open>
  A new attempt, a step of one, or a message the router hands over: an acknowledgement, or
  anything of the transfers that are being received.
\<close>

datatype send_event = Spawned nat string string | Ran nat obs | Routed fx_event

fun sends_step :: "(bytes \<Rightarrow> bytes) \<Rightarrow> sends \<Rightarrow> send_event \<Rightarrow> sends" where
  "sends_step sha s (Spawned t peer path) =
     (if ss_tasks s t = None
      then s\<lparr>ss_tasks := (ss_tasks s)(t \<mapsto> \<lparr>tk_peer = peer, tk_path = path, tk_name = [], tk_size = 0, tk_pc = PLook, tk_out = []\<rparr>)\<rparr>
      else s)"
| "sends_step sha s (Ran t ob) =
     (case ss_tasks s t of
        None \<Rightarrow> s
      | Some tk \<Rightarrow>
          (case task_step sha t ob tk (ss_fx s) of
             (tk, fx) \<Rightarrow> s\<lparr>ss_fx := fx, ss_tasks := (ss_tasks s)(t \<mapsto> tk)\<rparr>))"
| "sends_step sha s (Routed e) = s\<lparr>ss_fx := fx_step sha (ss_fx s) e\<rparr>"

section \<open>The invariant\<close>

fun pc_id :: "send_pc \<Rightarrow> u64 option" where
  "pc_id (PRegister b) = Some b"
| "pc_id (PStart b) = Some b"
| "pc_id (POpen b) = Some b"
| "pc_id (PRead b _) = Some b"
| "pc_id (PChunk b _ _) = Some b"
| "pc_id (PEnd b _) = Some b"
| "pc_id (PWait b) = Some b"
| "pc_id (PLeave b _) = Some b"
| "pc_id (PDone b _) = b"
| "pc_id _ = None"

text \<open>Whether the task has put its channel into the table and not yet removed it.\<close>

fun listening :: "send_pc \<Rightarrow> bool" where
  "listening (PStart _) \<longleftrightarrow> True"
| "listening (POpen _) \<longleftrightarrow> True"
| "listening (PRead _ _) \<longleftrightarrow> True"
| "listening (PChunk _ _ _) \<longleftrightarrow> True"
| "listening (PEnd _ _) \<longleftrightarrow> True"
| "listening (PWait _) \<longleftrightarrow> True"
| "listening (PLeave _ _) \<longleftrightarrow> True"
| "listening _ \<longleftrightarrow> False"

definition acked :: "send_event list \<Rightarrow> u64 \<Rightarrow> bool \<Rightarrow> string \<Rightarrow> bool" where
  "acked es b ok d \<longleftrightarrow> (\<exists>env pid. Routed (env, pid, BlobAck b ok d) \<in> set es)"

definition as_send_one :: "(bytes \<Rightarrow> bytes) \<Rightarrow> send_event list \<Rightarrow> send_task \<Rightarrow> u64 option \<Rightarrow> (string, string) res \<Rightarrow> bool" where
  "as_send_one sha es tk bo r \<longleftrightarrow>
     (\<exists>a. (\<forall>fx. bo = None \<or> bo = Some (next_id fx) \<longrightarrow>
              fst (send_one sha a (tk_peer tk) (tk_path tk) fx) = r \<and> fst (snd (send_one sha a (tk_peer tk) (tk_path tk) fx)) = tk_out tk)
        \<and> at_ack a \<noteq> AckDropped
        \<and> (\<forall>ok d. at_ack a = Acked ok d \<longrightarrow> (\<exists>b. bo = Some b \<and> acked es b ok d)))"

definition named :: "send_task \<Rightarrow> bool" where
  "named tk \<longleftrightarrow> Option.bind (file_name (tk_path tk)) to_str = Some (tk_name tk)"

definition sent_chunks :: "send_task \<Rightarrow> u64 \<Rightarrow> bytes list \<Rightarrow> bool" where
  "sent_chunks tk b ds \<longleftrightarrow> named tk \<and> [] \<notin> set ds
     \<and> tk_out tk = BlobStart b (tk_name tk) (tk_size tk) File # map (BlobChunk b) ds"

fun task_ok :: "(bytes \<Rightarrow> bytes) \<Rightarrow> send_event list \<Rightarrow> send_pc \<Rightarrow> send_task \<Rightarrow> bool" where
  "task_ok sha es PLook tk \<longleftrightarrow> tk_out tk = []"
| "task_ok sha es PStat tk \<longleftrightarrow> tk_out tk = []"
| "task_ok sha es (POpen b) tk \<longleftrightarrow> sent_chunks tk b []"
| "task_ok sha es (PRead b h) tk \<longleftrightarrow> (\<exists>ds. sent_chunks tk b ds \<and> h = concat ds)"
| "task_ok sha es (PChunk b h buf) tk \<longleftrightarrow> (\<exists>ds. sent_chunks tk b ds \<and> h = concat ds) \<and> buf \<noteq> []"
| "task_ok sha es (PEnd b h) tk \<longleftrightarrow> (\<exists>ds. sent_chunks tk b ds \<and> h = concat ds)"
| "task_ok sha es (PWait b) tk \<longleftrightarrow> (\<exists>ds. named tk \<and> [] \<notin> set ds \<and> tk_out tk = blob_messages sha b (tk_name tk) (tk_size tk) File ds)"
| "task_ok sha es (PLeave b r) tk \<longleftrightarrow> as_send_one sha es tk (Some b) r"
| "task_ok sha es (PDone bo r) tk \<longleftrightarrow> as_send_one sha es tk bo r"
| "task_ok sha es pc tk \<longleftrightarrow> named tk \<and> tk_out tk = []"

section \<open>One attempt\<close>

lemma stream_reads_prefix:
  "c_room c = map_option (\<lambda>n. length ds + n) room \<Longrightarrow> [] \<notin> set ds \<Longrightarrow>
     stream_reads b (map Inr ds @ rs) h c =
     stream_reads b rs (h @ concat ds) (c\<lparr>c_sent := c_sent c @ map (BlobChunk b) ds, c_room := room\<rparr>)"
proof (induction ds arbitrary: h c)
  case (Cons d ds)
  let ?c = "c\<lparr>c_sent := c_sent c @ [BlobChunk b d], c_room := map_option (\<lambda>n. length ds + n) room\<rparr>"
  have "chan_send (BlobChunk b d) c = (True, ?c)" using Cons.prems(1) by (cases room) (simp_all add: chan_send_def)
  then show ?case using Cons.IH[of ?c "h @ d"] Cons.prems(2) by auto
next
  case Nil
  then show ?case by (cases c; cases room) simp_all
qed

lemma new_link [simp]: "sender (bus_insert p n bus_new) p = Some n"
  by (simp add: sender_def bus_insert_def bus_new_def)

text \<open>An attempt that gets as far as streaming.\<close>

definition attempt_of ::
  "string \<Rightarrow> u64 \<Rightarrow> (string, (string, bytes) res list) res \<Rightarrow> nat option \<Rightarrow> ack \<Rightarrow> attempt" where
  "attempt_of peer sz opened room a =
    \<lparr>at_bus = bus_insert peer 0 bus_new, at_stat = Inr (True, sz), at_open = (\<lambda>_. opened), at_room = room, at_ack = a,
     at_bus_later = bus_new\<rparr>"

lemma attempt_streams:
  assumes "named tk" "next_id fx = b"
  shows "fst (send_one sha (attempt_of (tk_peer tk) (tk_size tk) opened room a) (tk_peer tk) (tk_path tk) fx)
      = fst (stream_blob sha (\<lambda>_. opened) \<lparr>c_sent = [], c_room = room\<rparr> b (tk_name tk) (tk_size tk) File (SourceFile (tk_path tk)) a)"
    "fst (snd (send_one sha (attempt_of (tk_peer tk) (tk_size tk) opened room a) (tk_peer tk) (tk_path tk) fx))
      = c_sent (snd (stream_blob sha (\<lambda>_. opened) \<lparr>c_sent = [], c_room = room\<rparr> b (tk_name tk) (tk_size tk) File (SourceFile (tk_path tk)) a))"
  using assms by (simp_all add: send_one_def attempt_of_def named_def Let_def case_prod_beta)

lemma as_streamed:
  fixes sha opened room b tk a
  defines "run \<equiv> stream_blob sha (\<lambda>_. opened) \<lparr>c_sent = [], c_room = room\<rparr> b (tk_name tk) (tk_size tk) File (SourceFile (tk_path tk)) a"
  assumes "named tk" "fst run = r" "c_sent (snd run) = tk_out tk" "a \<noteq> AckDropped" "\<And>ok d. a = Acked ok d \<Longrightarrow> acked es b ok d"
  shows "as_send_one sha es tk (Some b) r"
  unfolding as_send_one_def
proof (intro exI[of _ "attempt_of (tk_peer tk) (tk_size tk) opened room a"] conjI allI impI, goal_cases)
  case (1 fx)
  then show ?case using attempt_streams(1)[OF assms(2), of fx b] assms(1,3) by simp
next
  case (2 fx)
  then show ?case using attempt_streams(2)[OF assms(2), of fx b] assms(1,4) by simp
qed (use assms(5,6) in \<open>simp_all add: attempt_of_def\<close>)

lemma as_closed_at_start:
  "named tk \<Longrightarrow> tk_out tk = [] \<Longrightarrow> as_send_one sha es tk (Some b) (Inl ''connection closed'')"
  by (rule as_streamed[where opened = "Inr []" and room = "Some 0" and a = AckTimeout])
    (simp_all add: stream_blob_def chan_send_def)

lemma as_open_failed:
  "sent_chunks tk b [] \<Longrightarrow> as_send_one sha es tk (Some b) (Inl e)"
  by (rule as_streamed[where opened = "Inl e" and room = None and a = AckTimeout])
    (simp_all add: stream_blob_def chan_send_def sent_chunks_def)

lemma as_read_failed:
  "sent_chunks tk b ds \<Longrightarrow> as_send_one sha es tk (Some b) (Inl e)"
  by (rule as_streamed[where opened = "Inr (map Inr ds @ [Inl e])" and room = None and a = AckTimeout])
    (simp_all add: stream_blob_def chan_send_def sent_chunks_def stream_reads_prefix[where room = None])

lemma as_closed_at_chunk:
  "sent_chunks tk b ds \<Longrightarrow> (buf :: bytes) \<noteq> [] \<Longrightarrow> as_send_one sha es tk (Some b) (Inl ''connection closed mid-transfer'')"
  by (rule as_streamed[where opened = "Inr (map Inr ds @ [Inr buf])" and room = "Some (Suc (length ds))" and a = AckTimeout])
    (simp_all add: stream_blob_def chan_send_def sent_chunks_def stream_reads_prefix[where room = "Some 0"])

lemma as_closed_at_end:
  "sent_chunks tk b ds \<Longrightarrow> as_send_one sha es tk (Some b) (Inl ''connection closed'')"
  by (rule as_streamed[where opened = "Inr (map Inr ds @ [Inr []])" and room = "Some (Suc (length ds))" and a = AckTimeout])
    (simp_all add: stream_blob_def chan_send_def sent_chunks_def stream_reads_prefix[where room = "Some 0"])

lemma as_acked:
  assumes "named tk" "[] \<notin> set ds" "tk_out tk = blob_messages sha b (tk_name tk) (tk_size tk) File ds"
    and "a \<noteq> AckDropped" "\<And>ok d. a = Acked ok d \<Longrightarrow> acked es b ok d"
  shows "as_send_one sha es tk (Some b) (ack_result a)"
proof -
  let ?s = "stream_blob sha (\<lambda>_. Inr (map Inr ds @ [Inr []])) \<lparr>c_sent = [], c_room = None\<rparr> b (tk_name tk) (tk_size tk) File (SourceFile (tk_path tk)) a"
  have f: "fst ?s = ack_result a" "c_sent (snd ?s) = tk_out tk"
    using assms(2,3) by (cases a rule: ack_result.cases;
        simp add: stream_blob_def chan_send_def stream_reads_prefix[where room = None] blob_messages_def)+
  show ?thesis by (rule as_streamed[OF assms(1) f assms(4,5)])
qed

lemma as_unsent:
  assumes "tk_out tk = []" "\<And>fx. send_one sha a (tk_peer tk) (tk_path tk) fx = (r, [], fx\<lparr>fx_bus := at_bus a\<rparr>)" "at_ack a = AckTimeout"
  shows "as_send_one sha es tk None r"
  unfolding as_send_one_def using assms by (intro exI[of _ a]) simp

lemma as_unconnected: "tk_out tk = [] \<Longrightarrow> as_send_one sha es tk None (Inl ''peer is not connected'')"
  by (rule as_unsent[where a = "(attempt_of (tk_peer tk) 0 (Inr []) None AckTimeout)\<lparr>at_bus := bus_new\<rparr>"])
    (simp_all add: send_one_def attempt_of_def sender_def bus_new_def)

lemma as_stat_failed: "tk_out tk = [] \<Longrightarrow> as_send_one sha es tk None (Inl (''stat '' @ tk_path tk @ '': '' @ e))"
  by (rule as_unsent[where a = "(attempt_of (tk_peer tk) 0 (Inr []) None AckTimeout)\<lparr>at_stat := Inl e\<rparr>"])
    (simp_all add: send_one_def attempt_of_def)

lemma as_irregular: "tk_out tk = [] \<Longrightarrow> as_send_one sha es tk None (Inl (tk_path tk @ '' is not a regular file''))"
  by (rule as_unsent[where a = "(attempt_of (tk_peer tk) 0 (Inr []) None AckTimeout)\<lparr>at_stat := Inr (False, 0)\<rparr>"])
    (simp_all add: send_one_def attempt_of_def)

lemma as_nameless:
  "tk_out tk = [] \<Longrightarrow> Option.bind (file_name (tk_path tk)) to_str = None \<Longrightarrow> as_send_one sha es tk None (Inl ''path has no filename'')"
  by (rule as_unsent[where a = "attempt_of (tk_peer tk) 0 (Inr []) None AckTimeout"])
    (simp_all add: send_one_def attempt_of_def)

section \<open>One step\<close>

lemma goto_simps [simp]:
  "tk_pc (goto pc tk) = pc" "tk_out (goto pc tk) = tk_out tk" "tk_name (goto pc tk) = tk_name tk" "tk_size (goto pc tk) = tk_size tk"
  "tk_peer (goto pc tk) = tk_peer tk" "tk_path (goto pc tk) = tk_path tk"
  "named (goto pc tk) = named tk" "sent_chunks (goto pc tk) = sent_chunks tk" "as_send_one sha es (goto pc tk) = as_send_one sha es tk"
  by (auto simp: goto_def named_def sent_chunks_def as_send_one_def fun_eq_iff)

lemma say_simps [simp]:
  "tk_pc (say m tk) = tk_pc tk" "tk_out (say m tk) = tk_out tk @ [m]" "tk_name (say m tk) = tk_name tk" "tk_size (say m tk) = tk_size tk"
  "named (say m tk) = named tk"
  by (simp_all add: say_def named_def)

lemma acked_mono: "acked es b ok d \<Longrightarrow> acked (es @ fs) b ok d"
  by (auto simp: acked_def)

lemma as_send_one_mono: "as_send_one sha es tk bo r \<Longrightarrow> as_send_one sha (es @ fs) tk bo r"
  unfolding as_send_one_def by (meson acked_mono)

lemma task_ok_mono: "task_ok sha es pc tk \<Longrightarrow> task_ok sha (es @ fs) pc tk"
  by (cases pc) (auto intro: as_send_one_mono)

lemma chunk_said:
  "sent_chunks tk b ds \<Longrightarrow> buf \<noteq> [] \<Longrightarrow> sent_chunks (say (BlobChunk b buf) tk) b (ds @ [buf])"
  by (simp add: sent_chunks_def)

lemma start_said: "named tk \<Longrightarrow> tk_out tk = [] \<Longrightarrow> sent_chunks (say (BlobStart b (tk_name tk) (tk_size tk) File) tk) b []"
  by (simp add: sent_chunks_def)

text \<open>The step of a task keeps its story true, if an acknowledgement it finds was sent.\<close>

lemma wait_step_ok:
  assumes "task_ok sha es (PWait b) tk" "map_of (woken fx) t = None \<Longrightarrow> acks fx b = Some t"
    and "\<And>ok d. map_of (woken fx) t = Some (ok, d) \<Longrightarrow> acked es b ok d" "ack_seen t b ob fx = Some a"
  shows "as_send_one sha es tk (Some b) (ack_result a)"
proof -
  from assms(1) obtain ds where ds: "named tk" "[] \<notin> set ds" "tk_out tk = blob_messages sha b (tk_name tk) (tk_size tk) File ds" by auto
  have "a \<noteq> AckDropped" "\<And>ok d. a = Acked ok d \<Longrightarrow> acked es b ok d"
    using assms(2-4) by (auto simp: ack_seen_def split: option.splits if_splits)
  from as_acked[OF ds this] show ?thesis .
qed

lemma task_step_ok:
  assumes "task_ok sha es (tk_pc tk) tk" "task_step sha t ob tk fx = (tk', fx')"
    and "\<And>b. tk_pc tk = PWait b \<Longrightarrow> map_of (woken fx) t = None \<Longrightarrow> acks fx b = Some t"
    and "\<And>b ok d. tk_pc tk = PWait b \<Longrightarrow> map_of (woken fx) t = Some (ok, d) \<Longrightarrow> acked es b ok d"
  shows "task_ok sha es (tk_pc tk') tk'"
proof (cases "tk_pc tk")
  case PLook
  then show ?thesis using assms(1,2) by (auto simp: task_step_def as_unconnected split: obs.splits if_splits)
next
  case PStat
  then show ?thesis using assms(1,2)
    by (auto simp: task_step_def as_stat_failed[simplified] as_irregular as_nameless named_def
        split: obs.splits sum.splits if_splits option.splits)
next
  case (PStart b)
  then show ?thesis using assms(1,2) by (auto simp: task_step_def start_said as_closed_at_start split: obs.splits if_splits)
next
  case (POpen b)
  then show ?thesis using assms(1,2) by (auto simp: task_step_def as_open_failed split: obs.splits sum.splits intro!: exI[of _ "[]"])
next
  case (PRead b h)
  then show ?thesis using assms(1,2) by (auto simp: task_step_def as_read_failed split: obs.splits sum.splits if_splits)
next
  case (PChunk b h buf)
  with assms(1) obtain ds where "sent_chunks tk b ds" "h = concat ds" "buf \<noteq> []" by auto
  moreover from this have "\<exists>ds'. sent_chunks (say (BlobChunk b buf) tk) b ds' \<and> h @ buf = concat ds'"
    by (intro exI[of _ "ds @ [buf]"]) (simp add: chunk_said)
  ultimately show ?thesis using assms(2) PChunk by (auto simp: task_step_def as_closed_at_chunk split: obs.splits if_splits)
next
  case (PEnd b h)
  with assms(1) obtain ds where "sent_chunks tk b ds" "h = concat ds" by auto
  moreover from this have "\<exists>ds'. named tk \<and> [] \<notin> set ds'
      \<and> tk_out tk @ [BlobEnd b (sha h)] = blob_messages sha b (tk_name tk) (tk_size tk) File ds'"
    by (intro exI[of _ ds]) (simp add: sent_chunks_def blob_messages_def)
  ultimately show ?thesis using assms(2) PEnd by (auto simp: task_step_def as_closed_at_end split: obs.splits if_splits)
next
  case (PWait b)
  then show ?thesis using assms(1,2) wait_step_ok[of sha es b tk fx t ob] assms(3,4)
    by (auto simp: task_step_def split: option.splits)
qed (use assms(1,2) in \<open>auto simp: task_step_def\<close>)

text \<open>What a step does to the shared state.\<close>

lemma task_step_frame:
  assumes "task_step sha t ob tk fx = (tk', fx')"
  shows "woken fx' = woken fx \<and>
    (pc_id (tk_pc tk') = pc_id (tk_pc tk) \<and> listening (tk_pc tk') = listening (tk_pc tk) \<and> next_id fx' = next_id fx \<and> acks fx' = acks fx
     \<or> pc_id (tk_pc tk) = None \<and> tk_pc tk' = PRegister (next_id fx) \<and> next_id fx' = next_id fx + 1 \<and> acks fx' = acks fx
     \<or> (\<exists>b. pc_id (tk_pc tk) = Some b \<and> tk_pc tk' = PStart b \<and> next_id fx' = next_id fx \<and> acks fx' = (acks fx)(b \<mapsto> t))
     \<or> (\<exists>b r. pc_id (tk_pc tk) = Some b \<and> tk_pc tk' = PDone (Some b) r \<and> next_id fx' = next_id fx \<and> acks fx' = (acks fx)(b := None)))"
  using assms by (cases "tk_pc tk") (auto simp: task_step_def split: obs.splits sum.splits if_splits option.splits)

section \<open>Ids and acknowledgements\<close>

text \<open>
  Ids are drawn one after the other, so that no two tasks have the same; the table leads from the
  id of a task to the task until it is woken; what a task was woken with was sent for its id.
\<close>

definition ids_ok ::
  "send_event list \<Rightarrow> u64 \<Rightarrow> nat \<Rightarrow> (nat \<rightharpoonup> send_pc) \<Rightarrow> (u64 \<rightharpoonup> nat) \<Rightarrow> (nat \<times> bool \<times> string) list \<Rightarrow> bool" where
  "ids_ok es k n pcs ak wk \<longleftrightarrow>
     (\<forall>t pc b. pcs t = Some pc \<longrightarrow> pc_id pc = Some b \<longrightarrow>
        (\<exists>i<n. b = k + of_nat i) \<and> (listening pc \<longrightarrow> map_of wk t = None \<longrightarrow> ak b = Some t))
     \<and> (\<forall>t t' pc pc' b. pcs t = Some pc \<longrightarrow> pcs t' = Some pc' \<longrightarrow> pc_id pc = Some b \<longrightarrow> pc_id pc' = Some b \<longrightarrow> t = t')
     \<and> (\<forall>b t. ak b = Some t \<longrightarrow> (\<exists>pc. pcs t = Some pc \<and> pc_id pc = Some b))
     \<and> (\<forall>t ok d. (t, ok, d) \<in> set wk \<longrightarrow> (\<exists>pc b. pcs t = Some pc \<and> pc_id pc = Some b \<and> acked es b ok d))"

lemma ids_okD:
  assumes "ids_ok es k n pcs ak wk"
  shows "pcs t = Some pc \<Longrightarrow> pc_id pc = Some b \<Longrightarrow> \<exists>i<n. b = k + of_nat i"
    "pcs t = Some pc \<Longrightarrow> pc_id pc = Some b \<Longrightarrow> listening pc \<Longrightarrow> map_of wk t = None \<Longrightarrow> ak b = Some t"
    "pcs t = Some pc \<Longrightarrow> pcs t' = Some pc' \<Longrightarrow> pc_id pc = Some b \<Longrightarrow> pc_id pc' = Some b \<Longrightarrow> t = t'"
    "ak b = Some t \<Longrightarrow> \<exists>pc. pcs t = Some pc \<and> pc_id pc = Some b"
    "(t, ok, d) \<in> set wk \<Longrightarrow> \<exists>pc b. pcs t = Some pc \<and> pc_id pc = Some b \<and> acked es b ok d"
  using assms unfolding ids_ok_def by blast+

lemma ids_okI:
  assumes "\<And>t pc b. pcs t = Some pc \<Longrightarrow> pc_id pc = Some b \<Longrightarrow> \<exists>i<n. b = k + of_nat i"
    "\<And>t pc b. pcs t = Some pc \<Longrightarrow> pc_id pc = Some b \<Longrightarrow> listening pc \<Longrightarrow> map_of wk t = None \<Longrightarrow> ak b = Some t"
    "\<And>t t' pc pc' b. pcs t = Some pc \<Longrightarrow> pcs t' = Some pc' \<Longrightarrow> pc_id pc = Some b \<Longrightarrow> pc_id pc' = Some b \<Longrightarrow> t = t'"
    "\<And>b t. ak b = Some t \<Longrightarrow> \<exists>pc. pcs t = Some pc \<and> pc_id pc = Some b"
    "\<And>t ok d. (t, ok, d) \<in> set wk \<Longrightarrow> \<exists>pc b. pcs t = Some pc \<and> pc_id pc = Some b \<and> acked es b ok d"
  shows "ids_ok es k n pcs ak wk"
  using assms unfolding ids_ok_def by blast

lemma ids_mono: "ids_ok es k n pcs ak wk \<Longrightarrow> ids_ok (es @ fs) k n pcs ak wk"
  unfolding ids_ok_def by (meson acked_mono)

lemma ids_spawn: "ids_ok es k n pcs ak wk \<Longrightarrow> pcs t = None \<Longrightarrow> ids_ok es k n (pcs(t \<mapsto> PLook)) ak wk"
  unfolding ids_ok_def by (intro conjI) (auto 0 4 split: if_splits)

lemma ids_same:
  "ids_ok es k n pcs ak wk \<Longrightarrow> pcs t = Some pc \<Longrightarrow> pc_id pc' = pc_id pc \<Longrightarrow> listening pc' = listening pc \<Longrightarrow>
     ids_ok es k n (pcs(t \<mapsto> pc')) ak wk"
  unfolding ids_ok_def by (intro conjI) (auto 0 4 split: if_splits)

lemma of_nat_fresh: "i < n \<Longrightarrow> n < 2 ^ 64 \<Longrightarrow> (k :: u64) + of_nat i \<noteq> k + of_nat n"
  by (simp add: word_of_nat_eq_iff take_bit_nat_eq_self)

lemma ids_number:
  assumes "ids_ok es k n pcs ak wk" "pcs t = Some pc" "pc_id pc = None" "n < 2 ^ 64"
  shows "ids_ok es k (Suc n) (pcs(t \<mapsto> PRegister (k + of_nat n))) ak wk"
proof -
  have fresh: "pcs t' = Some pc' \<Longrightarrow> pc_id pc' \<noteq> Some (k + of_nat n)" for t' pc'
    using ids_okD(1)[OF assms(1)] of_nat_fresh[OF _ assms(4)] by metis
  have "ak b \<noteq> Some t" for b using ids_okD(4)[OF assms(1), of b t] assms(2,3) by auto
  moreover have "(t, m) \<notin> set wk" for m using ids_okD(5)[OF assms(1), of t "fst m" "snd m"] assms(2,3) by auto
  ultimately show ?thesis
    using ids_okD[OF assms(1)] fresh
    by (intro ids_okI) (auto split: if_splits intro: less_SucI, (metis less_SucI | blast)+)
qed

lemma ids_register:
  assumes "ids_ok es k n pcs ak wk" "pcs t = Some pc" "pc_id pc = Some b"
  shows "ids_ok es k n (pcs(t \<mapsto> PStart b)) (ak(b \<mapsto> t)) wk"
proof -
  have "pcs t' = Some pc' \<Longrightarrow> pc_id pc' = Some b \<Longrightarrow> t' = t" for t' pc' using ids_okD(3)[OF assms(1)] assms(2,3) by blast
  with assms show ?thesis unfolding ids_ok_def by (intro conjI) (auto 0 4 split: if_splits)
qed

lemma ids_leave:
  assumes "ids_ok es k n pcs ak wk" "pcs t = Some pc" "pc_id pc = Some b"
  shows "ids_ok es k n (pcs(t \<mapsto> PDone (Some b) r)) (ak(b := None)) wk"
proof -
  have "pcs t' = Some pc' \<Longrightarrow> pc_id pc' = Some b \<Longrightarrow> t' = t" for t' pc' using ids_okD(3)[OF assms(1)] assms(2,3) by blast
  with assms show ?thesis unfolding ids_ok_def by (intro conjI) (auto 0 4 split: if_splits)
qed

lemma ids_acked:
  assumes "ids_ok es k n pcs ak wk" "ak b = Some t" "acked es b ok d"
  shows "ids_ok es k n pcs (ak(b := None)) (wk @ [(t, ok, d)])"
proof -
  obtain pc where "pcs t = Some pc" "pc_id pc = Some b" using ids_okD(4)[OF assms(1,2)] by blast
  with assms show ?thesis unfolding ids_ok_def by (intro conjI) (auto 0 4 simp: map_add_def split: if_splits option.splits)
qed

section \<open>All tasks and the router\<close>

lemma try_remove_keeps [simp]:
  "next_id (try_remove env p fx) = next_id fx" "acks (try_remove env p fx) = acks fx" "woken (try_remove env p fx) = woken fx"
  by (simp_all add: try_remove_def)

lemma cleanup_keeps [simp]:
  "next_id (cleanup env k fx) = next_id fx" "acks (cleanup env k fx) = acks fx" "woken (cleanup env k fx) = woken fx"
  by (simp_all add: cleanup_def split: sink.split)

lemma handle_inbound_keeps:
  assumes "\<And>b ok d. msg \<noteq> BlobAck b ok d"
  shows "next_id (handle_inbound sha env pid msg fx) = next_id fx \<and> acks (handle_inbound sha env pid msg fx) = acks fx
    \<and> woken (handle_inbound sha env pid msg fx) = woken fx"
proof (cases msg)
  case (BlobStart b name sz purpose)
  then show ?thesis
    by (auto simp: on_start_def reject_def insert_incoming_def Let_def split: option.splits sum.splits prod.splits if_splits blob_purpose.splits)
next
  case (BlobChunk b d)
  then show ?thesis
    by (auto simp: on_chunk_def reject_def Let_def split: option.splits sum.splits prod.splits if_splits sink.splits)
next
  case (BlobEnd b h)
  then show ?thesis
    by (auto simp: on_end_def reject_def accept_file_def accept_memory_def Let_def
        split: option.splits sum.splits prod.splits if_splits sink.splits)
qed (use assms in simp_all)

definition sends_ok :: "(bytes \<Rightarrow> bytes) \<Rightarrow> u64 \<Rightarrow> send_event list \<times> sends \<Rightarrow> bool" where
  "sends_ok sha k h \<longleftrightarrow>
     (case h of (es, s) \<Rightarrow>
        (\<forall>t tk. ss_tasks s t = Some tk \<longrightarrow> task_ok sha es (tk_pc tk) tk)
        \<and> (\<exists>n\<le>length es. next_id (ss_fx s) = k + of_nat n
             \<and> ids_ok es k n (\<lambda>t. map_option tk_pc (ss_tasks s t)) (acks (ss_fx s)) (woken (ss_fx s))))"

text \<open>The system with its log.\<close>

definition logged :: "(bytes \<Rightarrow> bytes) \<Rightarrow> send_event list \<times> sends \<Rightarrow> send_event \<Rightarrow> send_event list \<times> sends" where
  "logged sha h e = (fst h @ [e], sends_step sha (snd h) e)"

lemma pcs_update: "(\<lambda>u. map_option tk_pc ((m(t \<mapsto> tk)) u)) = (\<lambda>u. map_option tk_pc (m u))(t \<mapsto> tk_pc tk)"
  by auto

lemma sends_okE:
  assumes "sends_ok sha k (es, s)"
  obtains n where "n \<le> length es" "next_id (ss_fx s) = k + of_nat n"
    "ids_ok (es @ fs) k n (\<lambda>t. map_option tk_pc (ss_tasks s t)) (acks (ss_fx s)) (woken (ss_fx s))"
    "\<forall>t tk. ss_tasks s t = Some tk \<longrightarrow> task_ok sha (es @ fs) (tk_pc tk) tk"
proof -
  from assms obtain n where "n \<le> length es" "next_id (ss_fx s) = k + of_nat n"
    "ids_ok es k n (\<lambda>t. map_option tk_pc (ss_tasks s t)) (acks (ss_fx s)) (woken (ss_fx s))"
    "\<forall>t tk. ss_tasks s t = Some tk \<longrightarrow> task_ok sha es (tk_pc tk) tk"
    by (auto simp: sends_ok_def)
  then show thesis by (intro that[of n] ids_mono) (auto intro: task_ok_mono)
qed

lemma sends_okI:
  assumes "\<And>t tk. ss_tasks s t = Some tk \<Longrightarrow> task_ok sha es (tk_pc tk) tk" "n \<le> length es" "next_id (ss_fx s) = k + of_nat n"
    and "ids_ok es k n (\<lambda>t. map_option tk_pc (ss_tasks s t)) (acks (ss_fx s)) (woken (ss_fx s))"
  shows "sends_ok sha k (es, s)"
  using assms unfolding sends_ok_def by blast

lemma spawned_ok:
  assumes "sends_ok sha k (es, s)"
  shows "sends_ok sha k (es @ [Spawned t p q], sends_step sha s (Spawned t p q))" (is "sends_ok sha k (?es, ?s)")
proof -
  obtain n where n: "n \<le> length es" "next_id (ss_fx s) = k + of_nat n"
    "ids_ok ?es k n (\<lambda>t. map_option tk_pc (ss_tasks s t)) (acks (ss_fx s)) (woken (ss_fx s))"
    "\<forall>t tk. ss_tasks s t = Some tk \<longrightarrow> task_ok sha ?es (tk_pc tk) tk"
    by (rule sends_okE[OF assms, where fs = "[Spawned t p q]"])
  have "ids_ok ?es k n (\<lambda>t. map_option tk_pc (ss_tasks ?s t)) (acks (ss_fx ?s)) (woken (ss_fx ?s))"
    using n(3) ids_spawn[OF n(3), of t] by (simp add: pcs_update del: fun_upd_apply)
  with n show ?thesis by (intro sends_okI[of _ _ _ n]) (auto split: if_splits)
qed

lemma ran_ok:
  assumes "sends_ok sha k (es, s)" "length es < 2 ^ 64"
  shows "sends_ok sha k (es @ [Ran t ob], sends_step sha s (Ran t ob))"
proof -
  let ?es = "es @ [Ran t ob]" and ?pcs = "\<lambda>t. map_option tk_pc (ss_tasks s t)"
  obtain n where n: "n \<le> length es" "next_id (ss_fx s) = k + of_nat n"
    "ids_ok ?es k n ?pcs (acks (ss_fx s)) (woken (ss_fx s))"
    "\<forall>t tk. ss_tasks s t = Some tk \<longrightarrow> task_ok sha ?es (tk_pc tk) tk"
    by (rule sends_okE[OF assms(1), where fs = "[Ran t ob]"])
  show ?thesis
  proof (cases "ss_tasks s t")
    case None
    then show ?thesis using n by (intro sends_okI[of _ _ _ n]) simp_all
  next
    case (Some tk)
    obtain tk' fx' where st: "task_step sha t ob tk (ss_fx s) = (tk', fx')" by fastforce
    have pc: "?pcs t = Some (tk_pc tk)" by (simp add: Some)
    have wait: "map_of (woken (ss_fx s)) t = None \<Longrightarrow> acks (ss_fx s) b = Some t"
      "map_of (woken (ss_fx s)) t = Some (ok, d) \<Longrightarrow> acked ?es b ok d" if "tk_pc tk = PWait b" for b ok d
      using ids_okD(2)[OF n(3) pc, of b] ids_okD(5)[OF n(3), of t ok d] that pc by (auto dest: map_of_SomeD)
    have ok: "task_ok sha ?es (tk_pc tk') tk'" by (rule task_step_ok[OF n(4)[rule_format, OF Some] st wait])
    have "\<exists>m\<le>Suc n. next_id fx' = k + of_nat m \<and> ids_ok ?es k m (?pcs(t \<mapsto> tk_pc tk')) (acks fx') (woken fx')"
      using task_step_frame[OF st] n(1,2) assms(2) ids_same[OF n(3) pc] ids_number[OF n(3) pc] ids_register[OF n(3) pc] ids_leave[OF n(3) pc]
      by (elim conjE disjE exE; intro exI[of _ "if next_id fx' = next_id (ss_fx s) then n else Suc n"]) auto
    then obtain m where "m \<le> Suc n" "next_id fx' = k + of_nat m" "ids_ok ?es k m (?pcs(t \<mapsto> tk_pc tk')) (acks fx') (woken fx')" by blast
    then show ?thesis using n(1,4) ok st Some
      by (intro sends_okI[of _ _ _ m]) (auto simp: pcs_update simp del: fun_upd_apply, auto split: if_splits)
  qed
qed

lemma routed_ok:
  assumes "sends_ok sha k (es, s)"
  shows "sends_ok sha k (es @ [Routed e], sends_step sha s (Routed e))"
proof -
  let ?es = "es @ [Routed e]" and ?pcs = "\<lambda>t. map_option tk_pc (ss_tasks s t)"
  obtain n where n: "n \<le> length es" "next_id (ss_fx s) = k + of_nat n"
    "ids_ok ?es k n ?pcs (acks (ss_fx s)) (woken (ss_fx s))"
    "\<forall>t tk. ss_tasks s t = Some tk \<longrightarrow> task_ok sha ?es (tk_pc tk) tk"
    by (rule sends_okE[OF assms, where fs = "[Routed e]"])
  obtain env pid msg where e: "e = (env, pid, msg)" by (cases e)
  have "next_id (fx_step sha (ss_fx s) e) = next_id (ss_fx s)
      \<and> ids_ok ?es k n ?pcs (acks (fx_step sha (ss_fx s) e)) (woken (fx_step sha (ss_fx s) e))"
  proof (cases "\<exists>b ok d. msg = BlobAck b ok d")
    case True
    then obtain b ok d where m: "msg = BlobAck b ok d" by blast
    have "acked ?es b ok d" unfolding acked_def e m by auto
    then show ?thesis using n(3) ids_acked[OF n(3)] by (simp add: fx_step_def e m split: option.split)
  next
    case False
    then show ?thesis using n(3) handle_inbound_keeps[of msg sha env pid "ss_fx s"] by (simp add: fx_step_def e)
  qed
  then show ?thesis using n by (intro sends_okI[of _ _ _ n]) auto
qed

interpretation sds: guarded_system "logged sha" "\<lambda>h _. length (fst h) < 2 ^ 64" "sends_ok sha k" for sha k
proof
  fix h :: "send_event list \<times> sends" and e
  assume "sends_ok sha k h" "length (fst h) < 2 ^ 64"
  then show "sends_ok sha k (logged sha h e)"
    by (cases h; cases e) (simp_all add: logged_def spawned_ok ran_ok routed_ok del: sends_step.simps)
qed

lemma logged_run: "foldl (logged sha) (fs, s) es = (fs @ es, foldl (sends_step sha) s es)"
  by (induction es arbitrary: fs s) (simp_all add: logged_def)

lemma logged_short: "length fs + length es \<le> 2 ^ 64 \<Longrightarrow> guarded (logged sha) (\<lambda>h _. length (fst h) < 2 ^ 64) (fs, s) es"
  by (induction es arbitrary: fs s) (simp_all add: logged_def)

lemma run_sends_ok:
  assumes "acks fx0 = Map.empty" "woken fx0 = []" "length es \<le> 2 ^ 64"
    and "s = foldl (sends_step sha) \<lparr>ss_fx = fx0, ss_tasks = Map.empty\<rparr> es"
  shows "sends_ok sha (next_id fx0) (es, s)"
proof -
  have "sends_ok sha (next_id fx0) ([], \<lparr>ss_fx = fx0, ss_tasks = Map.empty\<rparr>)"
    using assms(1,2) by (simp add: sends_ok_def ids_ok_def)
  from sds.guarded_keeps[OF this logged_short[of "[]" es]] assms(3,4) show ?thesis by (simp add: logged_run)
qed

section \<open>Properties\<close>

text \<open>
  C15. Concurrent sends do not disturb each other: however the steps of any number of attempts to
  send, the router's messages and the transfers being received are interleaved, an attempt that
  has ended queued exactly the messages and ended with exactly the result that \<open>send\_one\<close> gives
  when it runs alone with the id the attempt drew; it ended with an acknowledgement only if one
  with this id was routed, and never because its channel was taken from it; and no two attempts
  have the same id.
\<close>

theorem concurrent_sends_act_alone:
  assumes "acks fx0 = Map.empty" "woken fx0 = []" "length es \<le> 2 ^ 64"
    and "s = foldl (sends_step sha) \<lparr>ss_fx = fx0, ss_tasks = Map.empty\<rparr> es" "ss_tasks s t = Some tk" "tk_pc tk = PDone bo r"
  shows "(\<exists>a. (\<forall>fx. bo = None \<or> bo = Some (next_id fx) \<longrightarrow>
              fst (send_one sha a (tk_peer tk) (tk_path tk) fx) = r \<and> fst (snd (send_one sha a (tk_peer tk) (tk_path tk) fx)) = tk_out tk)
        \<and> at_ack a \<noteq> AckDropped
        \<and> (\<forall>ok d. at_ack a = Acked ok d \<longrightarrow> (\<exists>b env pid. bo = Some b \<and> Routed (env, pid, BlobAck b ok d) \<in> set es)))
    \<and> (\<forall>t' tk'. ss_tasks s t' = Some tk' \<longrightarrow> t' \<noteq> t \<longrightarrow> bo \<noteq> None \<longrightarrow> pc_id (tk_pc tk') \<noteq> bo)"
proof -
  have ok: "sends_ok sha (next_id fx0) (es, s)" by (rule run_sends_ok[OF assms(1-4)])
  then have "task_ok sha es (tk_pc tk) tk" using assms(5) by (auto simp: sends_ok_def)
  then have one: "as_send_one sha es tk bo r" by (simp add: assms(6))
  from ok obtain n where "ids_ok es (next_id fx0) n (\<lambda>t. map_option tk_pc (ss_tasks s t)) (acks (ss_fx s)) (woken (ss_fx s))"
    by (auto simp: sends_ok_def)
  from ids_okD(3)[OF this, of t "tk_pc tk"] have "ss_tasks s t' = Some tk' \<Longrightarrow> bo = Some b \<Longrightarrow> pc_id (tk_pc tk') = Some b \<Longrightarrow> t' = t" for t' tk' b
    using assms(5,6) by auto
  then show ?thesis using one unfolding as_send_one_def acked_def by (auto 0 5)
qed

text \<open>Two attempts draw their ids in the opposite order; the first one ends.\<close>

definition two_sends :: "string \<Rightarrow> send_event list" where
  "two_sends acker = [Spawned 0 ''a'' ''/f'', Spawned 1 ''b'' ''/f'', Ran 0 (OConn True), Ran 1 (OConn True), Ran 0 (OStat (Inr (True, 0))),
     Ran 1 (OStat (Inr (True, 0))), Ran 1 OGo, Ran 0 OGo, Ran 0 OGo, Ran 1 OGo, Ran 0 (OSend True), Ran 0 (OOpen (Inr ())), Ran 1 (OSend True),
     Ran 0 (ORead (Inr [])), Ran 0 (OSend True), Routed (ex_env, acker, BlobAck 2 True ''f''), Ran 0 OGo, Ran 0 OGo]"

theorem concurrent_sends_act_alone_witness:
  "\<exists>a. \<forall>fx. next_id fx = 2 \<longrightarrow> fst (send_one ex_sha a ''a'' ''/f'' fx) = Inr ''f''"
proof -
  let ?s = "foldl (sends_step ex_sha) \<lparr>ss_fx = ex_fx, ss_tasks = Map.empty\<rparr> (two_sends ''a'')"
  have i: "acks ex_fx = Map.empty" "woken ex_fx = []" by (simp_all add: ex_fx_def)
  have "map_option (\<lambda>tk. (tk_pc tk, tk_peer tk, tk_path tk)) (ss_tasks ?s 0) = Some (PDone (Some 2) (Inr ''f''), ''a'', ''/f'')"
    by code_simp
  then obtain tk where tk: "ss_tasks ?s 0 = Some tk" "tk_pc tk = PDone (Some 2) (Inr ''f'')" "tk_peer tk = ''a''" "tk_path tk = ''/f''" by auto
  have "length (two_sends ''a'') \<le> 2 ^ 64" by (simp add: two_sends_def)
  from concurrent_sends_act_alone[OF i this refl tk(1,2)] tk(3,4) show ?thesis by auto
qed

text \<open>
  Who acknowledges is not looked at: in the run above the other peer can end the wait of the
  attempt, which then reports that its file was delivered to a device that never answered.
\<close>

theorem another_peer_acknowledges:
  "map_option (\<lambda>tk. (tk_peer tk, tk_pc tk))
     (ss_tasks (foldl (sends_step ex_sha) \<lparr>ss_fx = ex_fx, ss_tasks = Map.empty\<rparr> (two_sends ''b'')) 0)
   = Some (''a'', PDone (Some 2) (Inr ''f''))"
  by code_simp

end
