(* ===== verification/Arrival.thy ===== *)
theory Arrival
  imports Interleaved Sends
begin

text \<open>
  From one daemon's concurrent sends to the other daemon's concurrent transfers: the two halves
  of \<open>filexfer.rs\<close> joined by connections that keep the order of what one attempt queued.
\<close>

section \<open>What an attempt sent\<close>

fun chunk_data :: "message \<Rightarrow> bytes" where
  "chunk_data (BlobChunk i d) = d"
| "chunk_data _ = []"

definition sent_data :: "send_task \<Rightarrow> bytes" where
  "sent_data tk = concat (map chunk_data (tk_out tk))"

lemma sent_blob: "tk_out tk = blob_messages sha b name sz File ds \<Longrightarrow> sent_data tk = concat ds"
  by (simp add: sent_data_def blob_messages_def comp_def)

lemma filter_splits: "filter P xs = ys @ zs \<Longrightarrow> \<exists>us vs. xs = us @ vs \<and> filter P us = ys \<and> filter P vs = zs"
proof (induction ys arbitrary: xs)
  case Nil
  then show ?case by (intro exI[of _ "[]"] exI[of _ xs]) simp
next
  case (Cons y ys)
  then obtain pre rest where xs: "xs = pre @ y # rest" "P y" "\<forall>e\<in>set pre. \<not> P e" "filter P rest = ys @ zs"
    by (auto simp: filter_eq_Cons_iff)
  from Cons.IH[OF xs(4)] obtain us vs where "rest = us @ vs" "filter P us = ys" "filter P vs = zs" by blast
  with xs show ?case by (intro exI[of _ "pre @ y # us"] exI[of _ vs]) simp
qed

text \<open>All of a transfer's events in a run: its start, its chunks and its end, with others in between.\<close>

lemma transfer_in_run:
  assumes "map (snd \<circ> snd) (filter (concerns pid bid) rs) = blob_messages sha bid name sz File ds"
    and "list_all (\<lambda>e. env_ok (fst e)) (filter (concerns pid bid) rs)"
  obtains pre env mid env' post where
    "rs = pre @ (env, pid, BlobStart bid name sz File) # mid @ (env', pid, BlobEnd bid (sha (concat ds))) # post"
    "env_ok env" "env_ok env'" "list_all good_chunk (filter (concerns pid bid) mid)" "own_data pid bid mid = concat ds"
proof -
  have own: "fst (snd e) = pid" if "concerns pid bid e" for e using that by (cases "(pid, bid, e)" rule: concerns.cases) auto
  let ?f = "filter (concerns pid bid)"
  from assms(1) obtain a as where f: "?f rs = a # as" "snd (snd a) = BlobStart bid name sz File"
    "map (snd \<circ> snd) as = map (BlobChunk bid) ds @ [BlobEnd bid (sha (concat ds))]"
    by (auto simp: blob_messages_def map_eq_Cons_conv)
  from f(3) obtain bs c where as: "as = bs @ [c]" "map (snd \<circ> snd) bs = map (BlobChunk bid) ds" "snd (snd c) = BlobEnd bid (sha (concat ds))"
    by (auto simp: map_eq_append_conv)
  from f(1) obtain pre rest where rs: "rs = pre @ a # rest" "concerns pid bid a" "?f rest = as" by (auto simp: filter_eq_Cons_iff)
  from rs(3) as(1) obtain mid rest' where rest: "rest = mid @ rest'" "?f mid = bs" "?f rest' = [c]"
    using filter_splits[of "concerns pid bid" rest bs "[c]"] by auto
  from rest(3) obtain mid' post where rest': "rest' = mid' @ c # post" "concerns pid bid c" "\<forall>e\<in>set mid'. \<not> concerns pid bid e"
    by (auto simp: filter_eq_Cons_iff)
  have m: "?f (mid @ mid') = bs" using rest(2) rest'(3) by simp
  have "rs = pre @ (fst a, pid, BlobStart bid name sz File) # (mid @ mid') @ (fst c, pid, BlobEnd bid (sha (concat ds))) # post"
    using rs(1) rest(1) rest'(1) own[OF rs(2)] own[OF rest'(2)] f(2) as(3) by (cases a; cases c) auto
  moreover have "env_ok (fst a)" "env_ok (fst c)" "list_all (\<lambda>e. env_ok (fst e)) bs" using assms(2) f(1) as(1) by auto
  moreover from this(3) have "list_all good_chunk bs \<and> map own_chunk bs = ds" using as(2)
    by (induction bs arbitrary: ds) (auto simp: map_eq_Cons_conv env_ok_def Cons_eq_map_conv)
  ultimately show thesis using that[of pre "fst a" "mid @ mid'" "fst c" post] m by (auto simp: own_data_def)
qed

section \<open>The receiving side\<close>

text \<open>
  The receiver before, during and after a transfer in a run; the file it stores and the
  acknowledgement it queues.
\<close>

definition stores ::
  "(bytes \<Rightarrow> bytes) \<Rightarrow> filexfer \<Rightarrow> fx_event list \<Rightarrow> fx_event \<Rightarrow> fx_event list \<Rightarrow> fx_event \<Rightarrow> string \<Rightarrow> u64 \<Rightarrow> string \<Rightarrow> bytes \<Rightarrow> bool" where
  "stores sha gx pre start mid fin pid bid safe data \<longleftrightarrow>
     (let g0 = foldl (fx_step sha) gx pre;
          g1 = foldl (fx_step sha) g0 (start # mid);
          g2 = fx_step sha g1 fin;
          dest = unique_dest (fx_fs g1) (dest_dir (fst start) pid g0) safe
      in read_file (fx_fs g2) dest = Some data \<and> \<not> fs_exists (fx_fs g1) dest
         \<and> fx_bus g2 = snd (send_to pid (BlobAck bid True safe) (fx_bus g1)))"

lemma incoming_grows: "length (fx_incoming (foldl (fx_step sha) fx es)) \<le> length (fx_incoming fx) + length es"
proof -
  have "length (fx_incoming (fx_step sha fx e)) \<le> Suc (length (fx_incoming fx))" for fx e
  proof (cases e)
    case (fields env p msg)
    have d: "length (AList.delete k al) \<le> Suc (length al)" for k and al :: "((string \<times> u64) \<times> incoming) list"
      using length_delete[of k al] by simp
    show ?thesis
    proof (cases msg)
      case (BlobStart i n z pu)
      then show ?thesis
        using on_start_incoming[of env p i n z pu fx] by (auto simp: fx_step_def fields puts_def length_update_le)
    next
      case (BlobChunk i c)
      then show ?thesis
        using on_chunk_incoming[of env p i c fx] by (auto simp: fx_step_def fields puts_def length_update_le d)
    qed (auto simp: fx_step_def fields on_end_incoming d split: option.split)
  qed
  then show ?thesis by (induction es arbitrary: fx) (simp, fastforce intro: order_trans)
qed

section \<open>Properties\<close>

text \<open>
  C10. Files sent concurrently arrive: let any number of attempts to send run interleaved on one
  daemon, and let one of them have queued all its messages. If these reach another daemon in
  their order, with anything of any peer in between (and the system calls for them succeed, a
  slot is free, no other peer uses the same id and name meanwhile, and the file's size did not
  change while it was read), then that daemon stores exactly the bytes that were read under a
  free name, in the directory its policy asks for, and queues the acknowledgement; and that
  acknowledgement makes the attempt report success.
\<close>

theorem concurrent_files_arrive:
  assumes "acks fx0 = Map.empty" "woken fx0 = []" "length es \<le> 2 ^ 64"
    and "s = foldl (sends_step sha) \<lparr>ss_fx = fx0, ss_tasks = Map.empty\<rparr> es"
    and "ss_tasks s t = Some tk" "tk_pc tk = PWait bid" "map_of (woken (ss_fx s)) t = None"
    and "fs_tidy (fx_fs gx)" "fx_incoming gx = []" "guarded (fx_step sha) no_clash gx rs"
    and "map (snd \<circ> snd) (filter (concerns pid bid) rs) = tk_out tk" "list_all (\<lambda>e. env_ok (fst e)) (filter (concerns pid bid) rs)"
    and "\<forall>pre post. rs = pre @ post \<longrightarrow> length (fx_incoming (foldl (fx_step sha) gx pre)) < MAX_CONCURRENT_INCOMING"
    and "safe_blob_name (tk_name tk) = Some safe" "tk_size tk = 0 \<or> tk_size tk = of_nat (length (sent_data tk))"
  shows "(\<exists>pre env mid env' post.
      rs = pre @ (env, pid, BlobStart bid (tk_name tk) (tk_size tk) File) # mid @ (env', pid, BlobEnd bid (sha (sent_data tk))) # post
    \<and> stores sha gx pre (env, pid, BlobStart bid (tk_name tk) (tk_size tk) File) mid (env', pid, BlobEnd bid (sha (sent_data tk)))
         pid bid safe (sent_data tk))
    \<and> (\<exists>tk'. ss_tasks (foldl (sends_step sha) s [Routed (env0, peer, BlobAck bid True safe), Ran t OGo, Ran t OGo]) t = Some tk'
         \<and> tk_pc tk' = PDone (Some bid) (Inr safe))"
proof -
  have ok: "sends_ok sha (next_id fx0) (es, s)" by (rule run_sends_ok[OF assms(1-4)])
  then have "task_ok sha es (tk_pc tk) tk" using assms(5) by (auto simp: sends_ok_def)
  then obtain ds where ds: "tk_out tk = blob_messages sha bid (tk_name tk) (tk_size tk) File ds" by (auto simp: assms(6))
  note data = sent_blob[OF ds]
  obtain pre env mid env' post where rs:
    "rs = pre @ (env, pid, BlobStart bid (tk_name tk) (tk_size tk) File) # mid @ (env', pid, BlobEnd bid (sha (concat ds))) # post"
    "env_ok env" "env_ok env'" "list_all good_chunk (filter (concerns pid bid) mid)" "own_data pid bid mid = concat ds"
    by (rule transfer_in_run[OF assms(11)[unfolded ds] assms(12)])
  let ?run = "pre @ (env, pid, BlobStart bid (tk_name tk) (tk_size tk) File) # mid @ [(env', pid, BlobEnd bid (sha (concat ds)))]"
  have g: "guarded (fx_step sha) no_clash gx ?run"
    using assms(10) guarded_append[of "fx_step sha" no_clash gx ?run post] by (simp add: rs(1))
  have room: "length (fx_incoming (foldl (fx_step sha) gx pre)) < MAX_CONCURRENT_INCOMING" using assms(13) rs(1) by blast
  have sz: "tk_size tk = 0 \<or> tk_size tk = of_nat (length (concat ds))" using assms(15) by (simp add: data)
  note stored = transfer_among_others[OF assms(8,9) g refl room assms(14) rs(2-4) rs(5)[symmetric] sz refl refl refl]
  have "acks (ss_fx s) bid = Some t"
    using ok ids_okD(2)[of es "next_id fx0" _ "\<lambda>t. map_option tk_pc (ss_tasks s t)" "acks (ss_fx s)" "woken (ss_fx s)" t "PWait bid" bid] assms(5-7)
    by (auto simp: sends_ok_def)
  then have "\<exists>tk'. ss_tasks (foldl (sends_step sha) s [Routed (env0, peer, BlobAck bid True safe), Ran t OGo, Ran t OGo]) t = Some tk'
      \<and> tk_pc tk' = PDone (Some bid) (Inr safe)"
    using assms(5-7) by (simp add: fx_step_def task_step_def ack_seen_def goto_def map_add_def split: option.split)
  moreover have "stores sha gx pre (env, pid, BlobStart bid (tk_name tk) (tk_size tk) File) mid (env', pid, BlobEnd bid (sha (concat ds)))
      pid bid safe (concat ds)"
    using stored unfolding stores_def Let_def fst_conv .
  ultimately show ?thesis using rs(1) unfolding data by blast
qed

text \<open>One attempt, with the id the example of \<open>Interleaved\<close> has, while another one waits to start.\<close>

definition send_txt :: "send_event list" where
  "send_txt = [Spawned 0 ''x'' ''/a.txt'', Spawned 1 ''y'' ''/a.txt'', Ran 0 (OConn True), Ran 0 (OStat (Inr (True, 3))), Ran 0 OGo, Ran 1 (OConn True),
     Ran 0 OGo, Ran 0 (OSend True), Ran 0 (OOpen (Inr ())), Ran 0 (ORead (Inr [7, 8])), Ran 0 (OSend True), Ran 0 (ORead (Inr [9])),
     Ran 0 (OSend True), Ran 0 (ORead (Inr [])), Ran 0 (OSend True)]"

theorem concurrent_files_arrive_witness:
  "\<exists>tk. ss_tasks (foldl (sends_step ex_sha) (foldl (sends_step ex_sha) \<lparr>ss_fx = ex_fx\<lparr>next_id := 3\<rparr>, ss_tasks = Map.empty\<rparr> send_txt)
       [Routed (ex_env, ''x'', BlobAck 3 True ''a.txt''), Ran 0 OGo, Ran 0 OGo]) 0 = Some tk
     \<and> tk_pc tk = PDone (Some 3) (Inr ''a.txt'')"
proof -
  let ?fx = "ex_fx\<lparr>next_id := 3\<rparr>" and ?rs = "(ex_env, ''a'', BlobStart 3 ''a.txt'' 3 File) # two_peers @ [(ex_env, ''a'', BlobEnd 3 (ex_sha [7, 8, 9]))]"
  let ?s = "foldl (sends_step ex_sha) \<lparr>ss_fx = ?fx, ss_tasks = Map.empty\<rparr> send_txt"
  have i: "acks ?fx = Map.empty" "woken ?fx = []" "fx_incoming ex_fx = []" by (simp_all add: ex_fx_def)
  have l: "length send_txt \<le> 2 ^ 64" by (simp add: send_txt_def)
  have "map_option (\<lambda>tk. (tk_pc tk, tk_name tk, tk_size tk, tk_out tk)) (ss_tasks ?s 0) = Some (PWait 3, ''a.txt'', 3,
      [BlobStart 3 ''a.txt'' 3 File, BlobChunk 3 [7, 8], BlobChunk 3 [9], BlobEnd 3 (ex_sha [7, 8, 9])])"
    by code_simp
  then obtain tk where tk: "ss_tasks ?s 0 = Some tk" "tk_pc tk = PWait 3" "tk_name tk = ''a.txt''" "tk_size tk = 3"
    "tk_out tk = [BlobStart 3 ''a.txt'' 3 File, BlobChunk 3 [7, 8], BlobChunk 3 [9], BlobEnd 3 (ex_sha [7, 8, 9])]"
    by auto
  have w: "map_of (woken (ss_fx ?s)) 0 = None" by code_simp
  have f: "map (snd \<circ> snd) (filter (concerns ''a'' 3) ?rs) = tk_out tk" "list_all (\<lambda>e. env_ok (fst e)) (filter (concerns ''a'' 3) ?rs)"
    using two_peers_data(3) by (simp_all add: two_peers_def tk(5))
  have room: "\<forall>pre post. ?rs = pre @ post \<longrightarrow> length (fx_incoming (foldl (fx_step ex_sha) ex_fx pre)) < MAX_CONCURRENT_INCOMING"
  proof (intro allI impI)
    fix pre post
    assume "?rs = pre @ post"
    from arg_cong[OF this, of length] have "length pre \<le> 6" by (simp add: two_peers_def)
    then show "length (fx_incoming (foldl (fx_step ex_sha) ex_fx pre)) < MAX_CONCURRENT_INCOMING"
      using incoming_grows[of ex_sha ex_fx pre] by (simp add: i(3) MAX_CONCURRENT_INCOMING_def)
  qed
  have sz: "tk_size tk = 0 \<or> tk_size tk = of_nat (length (sent_data tk))" by (simp add: sent_data_def tk(4,5))
  show ?thesis
    using concurrent_files_arrive[OF i(1,2) l refl tk(1,2) w ex_tidy i(3) ex_two_peers(3) f room _ sz] ex_safe by (simp add: tk(3))
qed

end
