(* ===== verification/Tls.thy ===== *)
theory Tls
  imports Secure Identity
begin

text \<open>
  \<open>crates/qdrop-core/src/tls.rs\<close>, the configurations: what the two sides hand to \<open>rustls\<close>, and
  the rest of \<open>crates/qdrop-core/src/identity.rs\<close> that they are built from. The library itself
  is a parameter: whether it accepts the pieces of a configuration, how it checks signatures,
  and which handshakes complete.
\<close>

section \<open>Configurations\<close>

text \<open>
  The algorithms a provider offers are opaque (\<open>'a\<close>); a signature check takes the message, the
  certificate and the signature.
\<close>

type_synonym sig_check = "bytes \<Rightarrow> bytes \<Rightarrow> bytes \<Rightarrow> (string, unit) res"

record ('k, 'a) rustls =
  ru_algs :: 'a
  ru_tls12 :: "'a \<Rightarrow> sig_check"
  ru_tls13 :: "'a \<Rightarrow> sig_check"
  ru_schemes :: "'a \<Rightarrow> nat list"
  ru_versions :: "string list \<Rightarrow> (string, unit) res"
  ru_identity :: "bytes list \<Rightarrow> bytes \<Rightarrow> (string, unit) res"
  ru_der :: "'k \<Rightarrow> bytes"

text \<open>What \<open>rustls\<close> asks a verifier.\<close>

record cert_verifier =
  cv_cert :: verifier
  cv_tls12 :: sig_check
  cv_tls13 :: sig_check
  cv_schemes :: "nat list"
  cv_roots :: "bytes list"

definition public_key :: "('k, 'c) key_lib \<Rightarrow> 'k \<times> 'c \<Rightarrow> bytes" where
  "public_key lib i = raw_public lib (fst i)"

definition cert_chain :: "'k \<times> bytes \<Rightarrow> bytes list" where
  "cert_chain i = [snd i]"

definition private_key :: "('k, 'a) rustls \<Rightarrow> 'k \<times> bytes \<Rightarrow> bytes" where
  "private_key ru i = ru_der ru (fst i)"

definition pinned_server :: "('k, 'a) rustls \<Rightarrow> (bytes \<Rightarrow> bytes option) \<Rightarrow> bytes \<Rightarrow> cert_verifier" where
  "pinned_server ru x509 expect =
    \<lparr>cv_cert = verify_server_cert x509 expect, cv_tls12 = ru_tls12 ru (ru_algs ru), cv_tls13 = ru_tls13 ru (ru_algs ru),
     cv_schemes = ru_schemes ru (ru_algs ru), cv_roots = []\<rparr>"

definition pinned_client :: "('k, 'a) rustls \<Rightarrow> (bytes \<Rightarrow> bytes option) \<Rightarrow> roster \<Rightarrow> cert_verifier" where
  "pinned_client ru x509 r =
    \<lparr>cv_cert = verify_client_cert x509 r, cv_tls12 = ru_tls12 ru (ru_algs ru), cv_tls13 = ru_tls13 ru (ru_algs ru),
     cv_schemes = ru_schemes ru (ru_algs ru), cv_roots = []\<rparr>"

record tls_config =
  tc_versions :: "string list"
  tc_verifier :: cert_verifier
  tc_chain :: "bytes list"
  tc_key :: bytes

definition tls_config_of ::
  "('k, 'a) rustls \<Rightarrow> string \<Rightarrow> cert_verifier \<Rightarrow> 'k \<times> bytes \<Rightarrow> (string, tls_config) res" where
  "tls_config_of ru installing v i =
    (case ru_versions ru [''TLSv1.3''] of
       Inl e \<Rightarrow> Inl (''selecting TLS 1.3: '' @ e)
     | Inr _ \<Rightarrow>
         (case ru_identity ru (cert_chain i) (private_key ru i) of
            Inl e \<Rightarrow> Inl (installing @ '': '' @ e)
          | Inr _ \<Rightarrow> Inr \<lparr>tc_versions = [''TLSv1.3''], tc_verifier = v, tc_chain = cert_chain i, tc_key = private_key ru i\<rparr>))"

definition client_config ::
  "('k, 'a) rustls \<Rightarrow> (bytes \<Rightarrow> bytes option) \<Rightarrow> 'k \<times> bytes \<Rightarrow> bytes \<Rightarrow> (string, tls_config) res" where
  "client_config ru x509 i expect = tls_config_of ru ''installing client identity'' (pinned_server ru x509 expect) i"

definition server_config ::
  "('k, 'a) rustls \<Rightarrow> (bytes \<Rightarrow> bytes option) \<Rightarrow> 'k \<times> bytes \<Rightarrow> roster \<Rightarrow> (string, tls_config) res" where
  "server_config ru x509 i r = tls_config_of ru ''installing server identity'' (pinned_client ru x509 r) i"

section \<open>What the libraries promise\<close>

text \<open>
  A certificate made for a key carries that key's 32 public bytes; the key's own signatures
  verify against it.
\<close>

definition cert_lib_ok ::
  "('k, bytes) key_lib \<Rightarrow> (bytes \<Rightarrow> bytes option) \<Rightarrow> ('k, 'a) rustls \<Rightarrow> (bytes \<Rightarrow> bytes \<Rightarrow> bytes) \<Rightarrow> bool" where
  "cert_lib_ok lib x509 ru sign \<longleftrightarrow>
     (\<forall>k cert. self_sign lib k = Inr cert \<longrightarrow>
        x509 cert = Some (raw_public lib k) \<and> length (raw_public lib k) = 32
        \<and> (\<forall>msg. ru_tls13 ru (ru_algs ru) msg cert (sign (ru_der ru k) msg) = Inr ()))"

text \<open>
  A handshake over an undisturbed connection completes exactly when the sides share a version,
  each verifier accepts the first certificate of the other side, and each accepts the other's
  signature of the transcript under that certificate; \<open>sign\<close> is signing with a private key.
\<close>

definition proves :: "(bytes \<Rightarrow> bytes \<Rightarrow> bytes) \<Rightarrow> bytes \<Rightarrow> tls_config \<Rightarrow> cert_verifier \<Rightarrow> bool" where
  "proves sign transcript side v \<longleftrightarrow>
     (case tc_chain side of
        cert # _ \<Rightarrow> cv_cert v cert = Inr () \<and> cv_tls13 v transcript cert (sign (tc_key side) transcript) = Inr ()
      | [] \<Rightarrow> False)"

definition completes_ok ::
  "(bytes \<Rightarrow> bytes \<Rightarrow> bytes) \<Rightarrow> (tls_config \<Rightarrow> tls_config \<Rightarrow> bytes) \<Rightarrow> (tls_config \<Rightarrow> tls_config \<Rightarrow> bool) \<Rightarrow> bool" where
  "completes_ok sign transcript completes \<longleftrightarrow>
     (\<forall>c s. completes c s \<longleftrightarrow>
        set (tc_versions c) \<inter> set (tc_versions s) \<noteq> {}
        \<and> proves sign (transcript c s) s (tc_verifier c) \<and> proves sign (transcript c s) c (tc_verifier s))"

section \<open>Lemmas\<close>

lemma config_fields:
  "client_config ru x509 i expect = Inr c \<Longrightarrow>
     c = \<lparr>tc_versions = [''TLSv1.3''], tc_verifier = pinned_server ru x509 expect, tc_chain = [snd i], tc_key = ru_der ru (fst i)\<rparr>"
  "server_config ru x509 i r = Inr c \<Longrightarrow>
     c = \<lparr>tc_versions = [''TLSv1.3''], tc_verifier = pinned_client ru x509 r, tc_chain = [snd i], tc_key = ru_der ru (fst i)\<rparr>"
  by (auto simp: client_config_def server_config_def tls_config_of_def cert_chain_def private_key_def split: sum.splits)

lemma from_key_pair_Inr: "from_key_pair lib k = Inr i \<Longrightarrow> \<exists>cert. i = (k, cert) \<and> self_sign lib k = Inr cert"
  by (auto simp: from_key_pair_def split: sum.splits)

lemma own_cert_key:
  assumes "cert_lib_ok lib x509 ru sign" "from_key_pair lib k = Inr i"
  shows "peer_key_from_cert x509 (snd i) = Inr (public_key lib i)" "arr32 (public_key lib i)"
    and "ru_tls13 ru (ru_algs ru) msg (snd i) (sign (ru_der ru (fst i)) msg) = Inr ()"
  using assms(1) from_key_pair_Inr[OF assms(2)]
  by (auto simp: cert_lib_ok_def peer_key_from_cert_def public_key_def arr32_def)

lemma verify_server_iff:
  "arr32 k \<Longrightarrow> arr32 expect \<Longrightarrow> peer_key_from_cert x509 c = Inr k \<Longrightarrow> verify_server_cert x509 expect c = Inr () \<longleftrightarrow> k = expect"
  by (simp add: verify_server_cert_def ct_eq_iff)

lemma server_proves_iff:
  assumes "cert_lib_ok lib x509 ru sign" "from_key_pair lib kb = Inr b" "arr32 expect"
    and "client_config ru x509 a expect = Inr c" "server_config ru x509 b r = Inr s"
  shows "proves sign t s (tc_verifier c) \<longleftrightarrow> expect = public_key lib b"
  using own_cert_key[OF assms(1,2)] verify_server_iff[OF own_cert_key(2)[OF assms(1,2)] assms(3) own_cert_key(1)[OF assms(1,2)]]
  by (auto simp: proves_def config_fields(1)[OF assms(4)] config_fields(2)[OF assms(5)] pinned_server_def)

lemma client_proves_iff:
  assumes "cert_lib_ok lib x509 ru sign" "from_key_pair lib ka = Inr a"
    and "client_config ru x509 a expect = Inr c" "server_config ru x509 b r = Inr s"
  shows "proves sign t c (tc_verifier s) \<longleftrightarrow> is_trusted_key r (public_key lib a)"
  using own_cert_key[OF assms(1,2)]
  by (auto simp: proves_def config_fields(1)[OF assms(3)] config_fields(2)[OF assms(4)] pinned_client_def verify_client_Inr)

lemma config_versions:
  "client_config ru x509 a expect = Inr c \<Longrightarrow> server_config ru x509 b r = Inr s \<Longrightarrow> set (tc_versions c) \<inter> set (tc_versions s) \<noteq> {}"
  by (drule config_fields(1), drule config_fields(2)) simp

section \<open>Properties\<close>

text \<open>
  C7. Two devices connect exactly when each has pinned the other: with identities made by this
  program, a TLS handshake over an undisturbed connection completes if and only if the key the
  dialling side expects is the accepting side's, and the accepting side's roster trusts the key
  of the dialling side; nothing else in the certificates matters. Both sides offer TLS 1.3 and
  no other version.
\<close>

theorem handshake_iff_mutually_pinned:
  assumes "cert_lib_ok lib x509 ru sign" "completes_ok sign transcript completes"
    and "from_key_pair lib ka = Inr a" "from_key_pair lib kb = Inr b" "arr32 expect"
    and "client_config ru x509 a expect = Inr c" "server_config ru x509 b r = Inr s"
  shows "(completes c s \<longleftrightarrow> expect = public_key lib b \<and> is_trusted_key r (public_key lib a))
    \<and> tc_versions c = [''TLSv1.3''] \<and> tc_versions s = [''TLSv1.3'']"
  using assms(2) server_proves_iff[OF assms(1,4,5,6,7)] client_proves_iff[OF assms(1,3,6,7)] config_versions[OF assms(6,7)]
    config_fields(1)[OF assms(6)] config_fields(2)[OF assms(7)]
  unfolding completes_ok_def by simp

definition tls_keys :: "(byte, bytes) key_lib" where
  "tls_keys = \<lparr>from_pem = (\<lambda>_. None), to_pem = (\<lambda>_. []), self_sign = (\<lambda>k. Inr (replicate 32 k)), raw_public = replicate 32\<rparr>"

definition tls_ru :: "(byte, unit) rustls" where
  "tls_ru = \<lparr>ru_algs = (), ru_tls12 = (\<lambda>_ _ _ _. Inl []), ru_tls13 = (\<lambda>_ _ cert dss. if dss = take 1 cert then Inr () else Inl []),
     ru_schemes = (\<lambda>_. [7]), ru_versions = (\<lambda>_. Inr ()), ru_identity = (\<lambda>_ _. Inr ()), ru_der = (\<lambda>k. [k])\<rparr>"

definition tls_completes :: "tls_config \<Rightarrow> tls_config \<Rightarrow> bool" where
  "tls_completes c s \<longleftrightarrow> set (tc_versions c) \<inter> set (tc_versions s) \<noteq> {}
     \<and> proves (\<lambda>k _. k) [] s (tc_verifier c) \<and> proves (\<lambda>k _. k) [] c (tc_verifier s)"

definition tls_roster :: roster where
  "tls_roster = roster_insert roster_empty \<lparr>rp_id = ''a'', rp_name = ''a'', rp_key = replicate 32 1, rp_addrs = []\<rparr>"

lemma tls_laws: "cert_lib_ok tls_keys Some tls_ru (\<lambda>k _. k)" "completes_ok (\<lambda>k _. k) (\<lambda>_ _. []) tls_completes"
  by (simp_all add: cert_lib_ok_def tls_keys_def tls_ru_def completes_ok_def tls_completes_def)

lemma tls_ids: "from_key_pair tls_keys 1 = Inr (1, replicate 32 1)" "from_key_pair tls_keys 2 = Inr (2, replicate 32 2)"
  by (simp_all add: from_key_pair_def tls_keys_def)

lemma tls_public: "public_key tls_keys (k, c) = replicate 32 k"
  by (simp only: public_key_def tls_keys_def key_lib.simps fst_conv)

theorem handshake_iff_mutually_pinned_witness:
  "case (client_config tls_ru Some (1, replicate 32 1) (replicate 32 2), server_config tls_ru Some (2, replicate 32 2) tls_roster) of
     (Inr c, Inr s) \<Rightarrow> tls_completes c s
   | _ \<Rightarrow> False"
proof -
  obtain c s where c: "client_config tls_ru Some (1, replicate 32 1) (replicate 32 2) = Inr c"
    and s: "server_config tls_ru Some (2, replicate 32 2) tls_roster = Inr s"
    by (simp add: client_config_def server_config_def tls_config_of_def tls_ru_def)
  have e: "arr32 (replicate 32 2)" by (simp add: arr32_def)
  have "is_trusted_key tls_roster (replicate 32 1)"
    by (simp add: tls_roster_def is_trusted_key_def roster_insert_def)
  with handshake_iff_mutually_pinned[OF tls_laws tls_ids e c s] have "tls_completes c s" unfolding tls_public by blast
  then show ?thesis unfolding c s by simp
qed

text \<open>
  Presenting someone else's certificate does not help: whatever configuration the other side
  uses, a handshake our accepting side completes is with a holder of a private key whose
  signature verifies under a certificate that carries a trusted key.
\<close>

theorem accepted_handshake_proves_possession:
  assumes "completes_ok sign transcript completes" "server_config ru x509 b r = Inr s" "completes c s"
  shows "\<exists>cert rest key. tc_chain c = cert # rest \<and> peer_key_from_cert x509 cert = Inr key \<and> is_trusted_key r key
    \<and> ru_tls13 ru (ru_algs ru) (transcript c s) cert (sign (tc_key c) (transcript c s)) = Inr ()"
proof -
  have "proves sign (transcript c s) c (tc_verifier s)" using assms(1,3) by (simp add: completes_ok_def)
  then show ?thesis
    using config_fields(2)[OF assms(2)]
    by (auto simp: proves_def pinned_client_def verify_client_Inr split: list.splits)
qed

end
