(* ===== verification/Trust.thy ===== *)
theory Trust
  imports Cli
begin

text \<open>
  What the registry of paired devices promises: an abstract specification of who is trusted
  with which key and who may send unattended, and the refinement by everything in the program
  that writes \<open>peers.toml\<close>: \<open>cmd_pair\<close>, \<open>cmd_unpair\<close> and \<open>cmd_auth --remove\<close> of the client,
  and the authorisation messages, requests and refreshes of the daemon.
\<close>

section \<open>The specification\<close>

record trust =
  t_name :: string
  t_key :: "bytes option"
  t_auth :: bool

datatype trust_op =
    TPair string bytes
  | TUnpair string
  | TRevoke string
  | TAuthorise string
  | TRefresh string
  | TNothing

text \<open>A user names a device by its name or its id.\<close>

definition names :: "(string \<rightharpoonup> trust) \<Rightarrow> string \<Rightarrow> string \<Rightarrow> bool" where
  "names T n d \<longleftrightarrow> (\<exists>t. T d = Some t \<and> (t_name t = n \<or> d = n))"

definition set_auth :: "bool \<Rightarrow> string \<Rightarrow> (string \<rightharpoonup> trust) \<Rightarrow> (string \<rightharpoonup> trust)" where
  "set_auth v d T = T(d := map_option (\<lambda>t. t\<lparr>t_auth := v\<rparr>) (T d))"

text \<open>
  Every operation may fail and change nothing. Pairing pins a key and gives no authorisation,
  under a name of the system's choosing; unpairing removes the devices of that name; nothing
  else changes a key.
\<close>

inductive trust_step :: "(string \<rightharpoonup> trust) \<Rightarrow> trust_op \<Rightarrow> (string \<rightharpoonup> trust) \<Rightarrow> bool" where
  pair: "trust_step T (TPair d k) (T(d \<mapsto> \<lparr>t_name = n, t_key = Some k, t_auth = False\<rparr>))"
| unpair: "trust_step T (TUnpair n) (\<lambda>d. case T d of Some t \<Rightarrow> if t_name t = n then None else Some t | None \<Rightarrow> None)"
| revoke: "names T n d \<Longrightarrow> trust_step T (TRevoke n) (set_auth False d T)"
| authorise: "names T n d \<Longrightarrow> trust_step T (TAuthorise n) (set_auth True d T)"
| renew: "T n = Some t \<Longrightarrow> t_auth t \<Longrightarrow> names T n d \<Longrightarrow> trust_step T (TRefresh n) (set_auth True d T)"
| fail: "trust_step T l T"

inductive_cases trust_stepE: "trust_step T l T'"

text \<open>Where the keys and the authorisations of a specified history come from.\<close>

lemma trust_step_key:
  "trust_step T l T' \<Longrightarrow> T' d = Some t \<Longrightarrow>
     (\<exists>t0. T d = Some t0 \<and> t_key t0 = t_key t) \<or> (\<exists>k. l = TPair d k \<and> t_key t = Some k)"
  by (erule trust_stepE) (auto simp: set_auth_def split: if_splits option.splits)

lemma trust_run_key:
  "arun trust_step T ls T' \<Longrightarrow> T' d = Some t \<Longrightarrow>
     (\<exists>t0. T d = Some t0 \<and> t_key t0 = t_key t) \<or> (\<exists>k. TPair d k \<in> set ls \<and> t_key t = Some k)"
proof (induction rule: arun.induct)
  case (arun_Cons T l U ls V)
  from arun_Cons.IH[OF arun_Cons.prems] show ?case
  proof
    assume "\<exists>t0. U d = Some t0 \<and> t_key t0 = t_key t"
    then show ?thesis using trust_step_key[OF arun_Cons.hyps(1), of d] by fastforce
  qed auto
qed auto

lemma trust_step_auth:
  "trust_step T l T' \<Longrightarrow> T' d = Some t \<Longrightarrow> t_auth t \<Longrightarrow>
     (\<exists>t0. T d = Some t0 \<and> t_auth t0)
     \<or> (\<exists>n. l \<in> {TAuthorise n, TRefresh n} \<and> (d = n \<or> (\<exists>t0. T d = Some t0 \<and> t_name t0 = n)))"
  by (erule trust_stepE) (auto simp: set_auth_def names_def split: if_splits option.splits)

section \<open>The implementation\<close>

text \<open>
  The writers of the registry file. A command that fails leaves the file as it is
  (\<open>write_atomic\<close>). \<open>outcome\<close> is what the pairing exchange ended with; the operations of
  the daemon run on the current file, whatever the rest of the manager's state is.
\<close>

datatype reg_op =
    RPair bool "(pair_error, paired) res" "string option" string
  | RUnpair bool string
  | RRevoke bool string
  | RMessage auth_env auth_mgr string message
  | RAuthorize auth_env auth_reply auth_mgr string bool
  | RRefresh auth_env auth_reply auth_mgr string

definition reg_or :: "peers \<Rightarrow> (load_error, peers) res \<Rightarrow> peers" where
  "reg_or ps r = (case r of Inr ps' \<Rightarrow> ps' | Inl _ \<Rightarrow> ps)"

fun reg_exec :: "(bytes \<Rightarrow> string) \<Rightarrow> peers \<Rightarrow> reg_op \<Rightarrow> peers" where
  "reg_exec b64 ps (RPair save_ok outcome target typed) =
     (case cmd_pair b64 save_ok (Inr ps) outcome (\<lambda>_ _. outcome) target typed of Inr (_, ps') \<Rightarrow> ps' | Inl _ \<Rightarrow> ps)"
| "reg_exec b64 ps (RUnpair save_ok name) =
     (case cmd_unpair save_ok (Inr ps) name of Inr ps' \<Rightarrow> ps' | Inl _ \<Rightarrow> ps)"
| "reg_exec b64 ps (RRevoke save_ok name) =
     (case cmd_auth_remove save_ok (Inr ps) name of Inr (_, ps') \<Rightarrow> ps' | Inl _ \<Rightarrow> ps)"
| "reg_exec b64 ps (RMessage ev st pid msg) = reg_or ps (au_reg (auth_handle_inbound ev pid msg (st\<lparr>au_reg := Inr ps\<rparr>)))"
| "reg_exec b64 ps (RAuthorize ev reply st pid mutual) =
     reg_or ps (au_reg (snd (authorize ev reply pid mutual (st\<lparr>au_reg := Inr ps\<rparr>))))"
| "reg_exec b64 ps (RRefresh ev reply st pid) = reg_or ps (au_reg (refresh ev reply pid (st\<lparr>au_reg := Inr ps\<rparr>)))"

fun op_label :: "reg_op \<Rightarrow> trust_op" where
  "op_label (RPair _ (Inr p) _ _) = TPair (pd_id p) (pd_key p)"
| "op_label (RPair _ (Inl _) _ _) = TNothing"
| "op_label (RUnpair _ n) = TUnpair n"
| "op_label (RRevoke _ n) = TRevoke n"
| "op_label (RMessage _ _ pid (AuthRequest True _)) = TAuthorise pid"
| "op_label (RMessage _ _ pid _) = TNothing"
| "op_label (RAuthorize _ _ _ pid _) = TAuthorise pid"
| "op_label (RRefresh _ _ _ pid) = TRefresh pid"

text \<open>The exchange hands over 32-byte keys (\<open>parse_paired\<close>), and base64 decodes what it encoded.\<close>

definition codec_ok :: "(bytes \<Rightarrow> string) \<Rightarrow> (string \<Rightarrow> bytes option) \<Rightarrow> bool" where
  "codec_ok b64 unb64 \<longleftrightarrow> (\<forall>k. length k = 32 \<longrightarrow> unb64 (trim (b64 k)) = Some k)"

fun op_ok :: "reg_op \<Rightarrow> bool" where
  "op_ok (RPair _ (Inr p) _ _) = (length (pd_key p) = 32)"
| "op_ok _ = True"

definition trust_of :: "(string \<Rightarrow> bytes option) \<Rightarrow> peer \<Rightarrow> trust" where
  "trust_of unb64 p =
    \<lparr>t_name = peer_name p, t_key = (case key_bytes unb64 p of Inr k \<Rightarrow> Some k | Inl _ \<Rightarrow> None), t_auth = authorized p\<rparr>"

definition trust_abs :: "(string \<Rightarrow> bytes option) \<Rightarrow> peers \<Rightarrow> (string \<rightharpoonup> trust)" where
  "trust_abs unb64 ps = (\<lambda>d. map_option (trust_of unb64) (find_by_id ps d))"

section \<open>Each writer refines its operation\<close>

lemma trust_abs_upsert:
  "trust_abs unb64 (upsert ps p) = (trust_abs unb64 ps)(peer_id p \<mapsto> trust_of unb64 (upserted ps p))"
  by (auto simp: trust_abs_def find_by_id_upsert)

lemma find_by_id_remove:
  assumes "peers_wf ps"
  shows "find_by_id (filter P ps) d = (case find_by_id ps d of Some p \<Rightarrow> if P p then Some p else None | None \<Rightarrow> None)"
  using assms
proof (induction ps)
  case (Cons p ps)
  then have "find_by_id ps (peer_id p) = None" by (auto simp: find_by_id_None peers_wf_def)
  with Cons show ?case by (auto simp: find_by_id_def peers_wf_def split: option.splits)
qed (simp add: find_by_id_def)

lemma trust_abs_remove:
  assumes "peers_wf ps"
  shows "trust_abs unb64 (snd (remove_by_name ps n)) =
    (\<lambda>d. case trust_abs unb64 ps d of Some t \<Rightarrow> if t_name t = n then None else Some t | None \<Rightarrow> None)"
  by (auto simp: trust_abs_def remove_by_name_def Let_def find_by_id_remove[OF assms] trust_of_def split: option.splits)

lemma update_any_lookup:
  assumes "update_any n f ps = Some ps'" "peers_wf ps" "\<And>p. peer_id (f p) = peer_id p"
  shows "\<exists>p\<in>set ps. (peer_name p = n \<or> peer_id p = n)
    \<and> (\<forall>d. find_by_id ps' d = (if d = peer_id p then Some (f p) else find_by_id ps d))"
  using assms
proof (induction ps arbitrary: ps')
  case (Cons q ps)
  show ?case
  proof (cases "peer_name q = n \<or> peer_id q = n")
    case True
    with Cons.prems show ?thesis by (auto simp: find_by_id_def)
  next
    case False
    then obtain ps1 where u: "update_any n f ps = Some ps1" "ps' = q # ps1" using Cons.prems(1) by auto
    from Cons.IH[OF u(1)] Cons.prems(2,3) obtain p where p: "p \<in> set ps" "peer_name p = n \<or> peer_id p = n"
      "\<And>d. find_by_id ps1 d = (if d = peer_id p then Some (f p) else find_by_id ps d)"
      by (auto simp: peers_wf_def)
    have "peer_id q \<notin> peer_id ` set ps" using Cons.prems(2) by (simp add: peers_wf_def)
    then have "peer_id p \<noteq> peer_id q" using p(1) by (metis imageI)
    with p show ?thesis unfolding u(2) by (intro bexI[of _ p]) (auto simp: find_by_id_def)
  qed
qed simp

lemma update_any_auth:
  assumes "update_any n f ps = Some ps'" "peers_wf ps" "\<And>p. peer_id (f p) = peer_id p"
    and "\<And>p. trust_of unb64 (f p) = (trust_of unb64 p)\<lparr>t_auth := v\<rparr>"
  shows "\<exists>d. names (trust_abs unb64 ps) n d \<and> trust_abs unb64 ps' = set_auth v d (trust_abs unb64 ps)"
proof -
  from update_any_lookup[OF assms(1-3)] obtain p where p: "p \<in> set ps" "peer_name p = n \<or> peer_id p = n"
    "\<And>d. find_by_id ps' d = (if d = peer_id p then Some (f p) else find_by_id ps d)" by auto
  have "find_by_id ps (peer_id p) = Some p" by (rule find_by_id_mem[OF assms(2) p(1)])
  with p show ?thesis
    by (intro exI[of _ "peer_id p"]) (auto simp: names_def trust_abs_def set_auth_def assms(4) trust_of_def[of _ p])
qed

lemma trust_of_auth: "trust_of unb64 (p\<lparr>authorized := v, hostname := h, macs := m\<rparr>) = (trust_of unb64 p)\<lparr>t_auth := v\<rparr>"
  by (simp add: trust_of_def key_bytes_def)

lemma store_auth_cases:
  assumes "peers_wf ps" "au_reg st = Inr ps" "store_auth ev n info st = (r, st')"
  obtains "au_reg st' = Inr ps" | ps' d where "au_reg st' = Inr ps'" "peers_wf ps'" "names (trust_abs unb64 ps) n d"
    "trust_abs unb64 ps' = set_auth True d (trust_abs unb64 ps)"
proof (cases "\<exists>ps'. record_auth (ae_save_ok ev) (Inr ps) n info True = Inr ps'")
  case True
  then obtain ps' where u: "update_any n (\<lambda>p. p\<lparr>authorized := True, hostname := Some (di_hostname info), macs := di_macs info\<rparr>) ps = Some ps'"
    "record_auth (ae_save_ok ev) (Inr ps) n info True = Inr ps'"
    by (auto simp: record_auth_def split: option.splits if_splits)
  from update_any_auth[OF u(1) assms(1), of unb64 True] obtain d where
    "names (trust_abs unb64 ps) n d" "trust_abs unb64 ps' = set_auth True d (trust_abs unb64 ps)"
    by (auto simp: trust_of_auth)
  moreover have "peers_wf ps'" by (rule update_any_wf[OF _ u(1) assms(1)]) simp
  ultimately show ?thesis using that(2) assms(2,3) u(2) by (auto simp: store_auth_def)
next
  case False
  then show ?thesis using that(1) assms(2,3) by (auto simp: store_auth_def split: sum.splits)
qed

lemma pair_refines:
  assumes "peers_wf ps" "codec_ok b64 unb64" "op_ok (RPair save_ok outcome target typed)"
    and "ps' = reg_exec b64 ps (RPair save_ok outcome target typed)"
  shows "peers_wf ps' \<and> trust_step (trust_abs unb64 ps) (op_label (RPair save_ok outcome target typed)) (trust_abs unb64 ps')"
proof (cases "cmd_pair b64 save_ok (Inr ps) outcome (\<lambda>_ _. outcome) target typed")
  case (Inl e)
  with assms show ?thesis by (simp add: trust_step.fail)
next
  case (Inr res)
  then obtain p qs where res: "res = (p, qs)" by (cases res)
  from Inr obtain a where qs: "outcome = Inr p"
    "qs = upsert ps ((peer_new b64 (pd_name p) (pd_id p) (pd_key p))\<lparr>address := a\<rparr>)"
    by (auto simp: res cmd_pair_def record_peer_def Let_def split: option.splits sum.splits if_splits)
  let ?q = "(peer_new b64 (pd_name p) (pd_id p) (pd_key p))\<lparr>address := a\<rparr>"
  have "key_bytes unb64 (upserted ps ?q) = Inr (pd_key p)"
    using assms(2,3) qs(1) by (simp add: codec_ok_def key_bytes_def peer_new_def)
  moreover have "\<not> authorized (upserted ps ?q)" by (simp add: upserted_def upsert_def Let_def peer_new_def)
  ultimately have "trust_abs unb64 qs =
      (trust_abs unb64 ps)(pd_id p \<mapsto> \<lparr>t_name = peer_name (upserted ps ?q), t_key = Some (pd_key p), t_auth = False\<rparr>)"
    unfolding qs(2) trust_abs_upsert by (simp add: trust_of_def peer_new_def)
  moreover have "peers_wf qs" unfolding qs(2) by (rule upsert_wf[OF assms(1)])
  ultimately show ?thesis using assms(4) Inr res qs(1) by (simp add: trust_step.pair)
qed

lemma unpair_refines:
  assumes "peers_wf ps" "ps' = reg_exec b64 ps (RUnpair save_ok n)"
  shows "peers_wf ps' \<and> trust_step (trust_abs unb64 ps) (TUnpair n) (trust_abs unb64 ps')"
proof (cases "cmd_unpair save_ok (Inr ps) n")
  case (Inl e)
  with assms show ?thesis by (simp add: trust_step.fail)
next
  case (Inr qs)
  then have "qs = snd (remove_by_name ps n)" by (auto simp: cmd_unpair_def split: prod.splits bool.splits if_splits)
  with Inr assms show ?thesis
    using trust_step.unpair[of "trust_abs unb64 ps" n] by (simp add: trust_abs_remove remove_wf)
qed

lemma revoke_refines:
  assumes "peers_wf ps" "ps' = reg_exec b64 ps (RRevoke save_ok n)"
  shows "peers_wf ps' \<and> trust_step (trust_abs unb64 ps) (TRevoke n) (trust_abs unb64 ps')"
proof (cases "ps' = ps")
  case True
  with assms(1) show ?thesis by (simp add: trust_step.fail)
next
  case False
  then have u: "update_any n (\<lambda>p. p\<lparr>authorized := False\<rparr>) ps = Some ps'"
    using assms(2) by (auto simp: cmd_auth_remove_def split: option.splits if_splits)
  from update_any_auth[OF u assms(1), of unb64 False] obtain d where
    "names (trust_abs unb64 ps) n d" "trust_abs unb64 ps' = set_auth False d (trust_abs unb64 ps)"
    by (auto simp: trust_of_def key_bytes_def)
  moreover have "peers_wf ps'" by (rule update_any_wf[OF _ u assms(1)]) simp
  ultimately show ?thesis by (simp add: trust_step.revoke)
qed

lemma store_refines:
  assumes "peers_wf ps" "au_reg st = Inr ps" "store_auth ev n info st = (r, st')"
  shows "peers_wf (reg_or ps (au_reg st'))
    \<and> (trust_abs unb64 (reg_or ps (au_reg st')) = trust_abs unb64 ps
       \<or> (\<exists>d. names (trust_abs unb64 ps) n d \<and> trust_abs unb64 (reg_or ps (au_reg st')) = set_auth True d (trust_abs unb64 ps)))"
  by (rule store_auth_cases[where ?unb64.0 = unb64, OF assms]) (auto simp: reg_or_def assms(1))

lemma auth_message_refines:
  assumes "peers_wf ps" "ps' = reg_exec b64 ps (RMessage ev st pid msg)"
  shows "peers_wf ps' \<and> trust_step (trust_abs unb64 ps) (op_label (RMessage ev st pid msg)) (trust_abs unb64 ps')"
proof (cases "\<exists>info. msg = AuthRequest True info")
  case True
  then obtain info where msg: "msg = AuthRequest True info" by blast
  let ?st = "st\<lparr>au_reg := Inr ps, au_bus := snd (send_to pid (AuthReply True (ae_local ev)) (au_bus st))\<rparr>"
  obtain r st' where s: "store_auth ev pid info ?st = (r, st')" by (cases "store_auth ev pid info ?st")
  have "ps' = reg_or ps (au_reg st')"
    using assms(2) by (cases r) (simp_all add: msg s)
  with store_refines[where ?unb64.0 = unb64, OF assms(1) _ s] show ?thesis
    by (auto simp: msg intro: trust_step.fail trust_step.authorise)
next
  case False
  then have "ps' = ps" using assms(2)
    by (cases msg) (auto simp: reg_or_def Let_def split: option.splits)
  with assms(1) show ?thesis by (simp add: trust_step.fail)
qed

lemma authorize_refines:
  assumes "peers_wf ps" "ps' = reg_exec b64 ps (RAuthorize ev reply st pid mutual)"
  shows "peers_wf ps' \<and> trust_step (trust_abs unb64 ps) (TAuthorise pid) (trust_abs unb64 ps')"
proof -
  let ?st = "st\<lparr>au_reg := Inr ps\<rparr>"
  obtain r st1 where x: "Auth.exchange ev reply pid mutual ?st = (r, st1)" by (cases "Auth.exchange ev reply pid mutual ?st")
  have reg: "au_reg st1 = Inr ps" using exchange_regD[OF x] by simp
  show ?thesis
  proof (cases "sender (au_bus st) pid = None \<or> (\<exists>e. r = Inl e)")
    case True
    then have "ps' = ps" using assms(2) reg by (auto simp: authorize_def x reg_or_def)
    with assms(1) show ?thesis by (simp add: trust_step.fail)
  next
    case False
    then obtain info where r: "r = Inr info" by (cases r) auto
    obtain r' st' where s: "store_auth ev pid info st1 = (r', st')" by (cases "store_auth ev pid info st1")
    have "ps' = reg_or ps (au_reg st')"
      using assms(2) False by (cases r') (auto simp: authorize_def x r s)
    with store_refines[where ?unb64.0 = unb64, OF assms(1) reg s] show ?thesis
      by (auto intro: trust_step.fail trust_step.authorise)
  qed
qed

lemma refresh_refines:
  assumes "peers_wf ps" "ps' = reg_exec b64 ps (RRefresh ev reply st pid)"
  shows "peers_wf ps' \<and> trust_step (trust_abs unb64 ps) (TRefresh pid) (trust_abs unb64 ps')"
proof -
  let ?st = "st\<lparr>au_reg := Inr ps\<rparr>"
  obtain r st1 where x: "Auth.exchange ev reply pid False ?st = (r, st1)" by (cases "Auth.exchange ev reply pid False ?st")
  have reg: "au_reg st1 = Inr ps" using exchange_regD[OF x] by simp
  show ?thesis
  proof (cases "\<exists>p info. find_by_id ps pid = Some p \<and> authorized p \<and> r = Inr info")
    case False
    then have "ps' = ps" using assms(2) reg
      by (auto simp: refresh_def x reg_or_def split: option.splits sum.splits)
    with assms(1) show ?thesis by (simp add: trust_step.fail)
  next
    case True
    then obtain p info where p: "find_by_id ps pid = Some p" "authorized p" and r: "r = Inr info" by blast
    define st2 where "st2 = (if macs_still_match (macs p) (di_macs info) then st1
        else st1\<lparr>au_posted := au_posted st1 @ [(''Authorized device on a new network'',
               di_hostname info @ '' '' @ em_dash @ '' still trusted (its key is pinned)'')]\<rparr>)"
    have reg2: "au_reg st2 = Inr ps" by (simp add: st2_def reg)
    obtain r' st' where s: "store_auth ev pid info st2 = (r', st')" by (cases "store_auth ev pid info st2")
    have "refresh ev reply pid ?st = st'"
      using s by (cases "macs_still_match (macs p) (di_macs info)") (simp_all add: refresh_def p x r Let_def st2_def)
    then have "ps' = reg_or ps (au_reg st')" using assms(2) by simp
    moreover have "trust_abs unb64 ps pid = Some (trust_of unb64 p)" "t_auth (trust_of unb64 p)"
      using p by (simp_all add: trust_abs_def trust_of_def)
    ultimately show ?thesis using store_refines[where ?unb64.0 = unb64, OF assms(1) reg2 s]
      by (auto intro: trust_step.fail trust_step.renew)
  qed
qed

lemmas reg_refines = pair_refines unpair_refines revoke_refines auth_message_refines authorize_refines refresh_refines

lemma reg_exec_refines:
  assumes "codec_ok b64 unb64" "peers_wf ps" "op_ok e"
  shows "peers_wf (reg_exec b64 ps e) \<and> trust_step (trust_abs unb64 ps) (op_label e) (trust_abs unb64 (reg_exec b64 ps e))"
proof (cases e)
  case (RPair ok outcome target typed)
  then show ?thesis using pair_refines[OF assms(2,1) _ refl, of ok outcome target typed] assms(3) by simp
next
  case (RUnpair ok n)
  then show ?thesis using unpair_refines[OF assms(2) refl, of b64 ok n unb64] by simp
next
  case (RRevoke ok n)
  then show ?thesis using revoke_refines[OF assms(2) refl, of b64 ok n unb64] by simp
next
  case (RMessage ev st pid msg)
  then show ?thesis using auth_message_refines[OF assms(2) refl, of b64 ev st pid msg unb64] by simp
next
  case (RAuthorize ev reply st pid mutual)
  then show ?thesis using authorize_refines[OF assms(2) refl, of b64 ev reply st pid mutual unb64] by simp
next
  case (RRefresh ev reply st pid)
  then show ?thesis using refresh_refines[OF assms(2) refl, of b64 ev reply st pid unb64] by simp
qed

text \<open>The codec is fixed for the interpretation by making its law part of the invariant.\<close>

interpretation rg: refinement "reg_exec b64" "\<lambda>ps. codec_ok b64 unb64 \<and> peers_wf ps" op_ok "trust_abs unb64" trust_step op_label
  for b64 unb64
  by unfold_locales (use reg_exec_refines in blast)+

text \<open>The lookups of the daemon's roster, in terms of the specification.\<close>

lemma load_key_abs:
  assumes "peers_wf ps"
  shows "key_for_id (roster_load unb64 resolve r ps) d = Option.bind (trust_abs unb64 ps d) t_key"
proof (cases "find_by_id ps d")
  case None
  then have "d \<notin> peer_id ` set ps" by (simp add: find_by_id_None)
  then have "key_for_id (roster_load unb64 resolve r ps) d = None"
    by (cases "key_for_id (roster_load unb64 resolve r ps) d") (use load_key_for_id[of unb64 resolve r ps d] in \<open>simp, blast\<close>)
  with None show ?thesis by (simp add: trust_abs_def)
next
  case (Some p)
  then have p: "p \<in> set ps" "peer_id p = d" using find_by_id_SomeD by blast+
  show ?thesis
  proof (cases "key_bytes unb64 p")
    case (Inr k)
    with Some load_key_for_wf_id[OF assms p(1), of unb64 k resolve r] p(2) show ?thesis
      by (simp add: trust_abs_def trust_of_def)
  next
    case (Inl e)
    have "key_for_id (roster_load unb64 resolve r ps) d = None"
    proof (rule ccontr)
      assume "key_for_id (roster_load unb64 resolve r ps) d \<noteq> None"
      then obtain p' k where "p' \<in> set ps" "peer_id p' = d" "key_bytes unb64 p' = Inr k"
        using load_key_for_id by blast
      with Some Inl find_by_id_mem[OF assms, of p'] show False by simp
    qed
    with Some Inl show ?thesis by (simp add: trust_abs_def trust_of_def)
  qed
qed

text \<open>A codec for the examples.\<close>

definition unhex_digit :: "char \<Rightarrow> nat" where
  "unhex_digit c = (if of_char c < (58 :: nat) then of_char c - 48 else of_char c - 87)"

fun unhex :: "string \<Rightarrow> bytes option" where
  "unhex [] = Some []"
| "unhex [c] = None"
| "unhex (c # d # s) = map_option (\<lambda>bs. of_nat (unhex_digit c * 16 + unhex_digit d) # bs) (unhex s)"

lemma unhex_hex: "unhex (hex k) = Some k"
proof (induction k)
  case (Cons b k)
  have "unhex_digit (hex_digit d) = d" if "d < 16" for d
    using that by (simp add: unhex_digit_def hex_digit_val)
  then have "unhex (hex (b # k)) = map_option (\<lambda>bs. word_of_nat (unat b div 16 * 16 + unat b mod 16) # bs) (unhex (hex k))"
    using byte_lt[of b] by (simp add: hex_def hex_byte_def)
  with Cons show ?case by simp
qed (simp add: hex_def)

lemma hex_codec: "codec_ok hex unhex"
proof -
  have ascii: "of_char c < (128 :: nat) \<and> \<not> is_whitespace (of_char c)" if "is_ascii_hexdigit c" for c
    using that by (auto simp: is_ascii_hexdigit_def is_whitespace_def Let_def)
  have "trim (hex k) = hex k" for k
  proof -
    have "is_ascii_hexdigit c" if "c \<in> set (hex k)" for c
      using that hex_byte_shape by (auto simp: hex_def list_all_iff)
    then show ?thesis using ascii by (intro trim_ascii) (simp add: list_all_iff)
  qed
  then show ?thesis by (simp add: codec_ok_def unhex_hex)
qed

section \<open>Properties\<close>

text \<open>
  C4. The registry refines its specification: for every sequence of pairings, unpairings,
  revocations, authorisation messages, requests and refreshes, successful or not, starting
  from a registry with one entry per device, the sequence of what the registry says about
  each device (its name, pinned key and authorisation) is a run of the specification, and the
  key a roster loaded from the file pins for a device is the one the specification says.
\<close>

theorem registry_refines_the_trust_specification:
  assumes "codec_ok b64 unb64" "peers_wf ps" "list_all op_ok es" "ps' = foldl (reg_exec b64) ps es"
  shows "arun trust_step (trust_abs unb64 ps) (map op_label es) (trust_abs unb64 ps')
    \<and> key_for_id (roster_load unb64 resolve r ps') d = Option.bind (trust_abs unb64 ps' d) t_key"
  using rg.runs_refine[of b64 unb64 ps es] rg.runs_keep[of b64 unb64 ps es] assms load_key_abs by blast

definition ex_paired :: "string \<Rightarrow> paired" where
  "ex_paired d = \<lparr>pd_id = d, pd_name = ''box'', pd_key = replicate 32 7\<rparr>"

theorem registry_refines_the_trust_specification_witness:
  "key_for_id (roster_load unhex (\<lambda>_. None) roster_empty
      (foldl (reg_exec hex) [] [RPair True (Inr (ex_paired ''d'')) None [], RPair False (Inl BadPin) None []])) ''d''
   = Some (replicate 32 7)"
proof -
  let ?es = "[RPair True (Inr (ex_paired ''d'')) None [], RPair False (Inl BadPin) None []]"
  have ps: "foldl (reg_exec hex) [] ?es = [peer_new hex ''box'' ''d'' (replicate 32 7)]"
    by (simp add: cmd_pair_def record_peer_def ex_paired_def upsert_def find_by_id_def peer_new_def)
  have "key_bytes unhex (peer_new hex ''box'' ''d'' (replicate 32 7)) = Inr (replicate 32 7)"
    using hex_codec by (simp add: codec_ok_def key_bytes_def peer_new_def)
  then have "trust_abs unhex [peer_new hex ''box'' ''d'' (replicate 32 7)] ''d''
      = Some \<lparr>t_name = ''box'', t_key = Some (replicate 32 7), t_auth = False\<rparr>"
    by (simp add: trust_abs_def trust_of_def find_by_id_def peer_new_def)
  with registry_refines_the_trust_specification[OF hex_codec, of "[]" ?es, OF _ _ ps[symmetric], THEN conjunct2, of "\<lambda>_. None" roster_empty "''d''"]
  show ?thesis unfolding ps by (simp add: peers_wf_def ex_paired_def)
qed

text \<open>
  C6. Only pairing makes a key trusted: whatever the users type and the peers send, if the
  daemon's roster pins a key for a device then the registry already had that key for it at
  the start, or a pairing exchange in the run was completed with exactly this device and key.
\<close>

theorem keys_come_from_pairing:
  assumes "codec_ok b64 unb64" "peers_wf ps" "list_all op_ok es"
    and "key_for_id (roster_load unb64 resolve r (foldl (reg_exec b64) ps es)) d = Some k"
  shows "(\<exists>p\<in>set ps. peer_id p = d \<and> key_bytes unb64 p = Inr k)
    \<or> (\<exists>ok p target typed. RPair ok (Inr p) target typed \<in> set es \<and> pd_id p = d \<and> pd_key p = k)"
proof -
  let ?ps = "foldl (reg_exec b64) ps es"
  have "peers_wf ?ps" and run: "arun trust_step (trust_abs unb64 ps) (map op_label es) (trust_abs unb64 ?ps)"
    using rg.runs_refine[of b64 unb64 ps es] rg.runs_keep[of b64 unb64 ps es] assms by blast+
  then obtain t where t: "trust_abs unb64 ?ps d = Some t" "t_key t = Some k"
    using assms(4) load_key_abs[of ?ps unb64 resolve r d] by (auto simp: bind_eq_Some_conv)
  from trust_run_key[OF run t(1)] show ?thesis
  proof
    assume "\<exists>t0. trust_abs unb64 ps d = Some t0 \<and> t_key t0 = t_key t"
    then obtain p where "find_by_id ps d = Some p" "t_key (trust_of unb64 p) = Some k"
      using t(2) by (auto simp: trust_abs_def)
    then show ?thesis by (auto simp: trust_of_def dest: find_by_id_SomeD split: sum.splits)
  next
    assume "\<exists>k. TPair d k \<in> set (map op_label es) \<and> t_key t = Some k"
    then have "TPair d k \<in> op_label ` set es" using t(2) by simp
    then obtain e where "e \<in> set es" "op_label e = TPair d k" by auto
    then have "\<exists>ok p target typed. RPair ok (Inr p) target typed \<in> set es \<and> pd_id p = d \<and> pd_key p = k"
      by (cases e rule: op_label.cases) auto
    then show ?thesis ..
  qed
qed

theorem keys_come_from_pairing_witness:
  "\<exists>ok p target typed. RPair ok (Inr p) target typed \<in> set [RPair True (Inr (ex_paired ''d'')) None []]
     \<and> pd_id p = ''d'' \<and> pd_key p = replicate 32 7"
proof -
  let ?es = "[RPair True (Inr (ex_paired ''d'')) None []]"
  let ?p = "peer_new hex ''box'' ''d'' (replicate 32 7)"
  have ps: "foldl (reg_exec hex) [] ?es = [?p]"
    by (simp add: cmd_pair_def record_peer_def ex_paired_def upsert_def find_by_id_def peer_new_def)
  have "key_bytes unhex ?p = Inr (replicate 32 7)"
    using hex_codec by (simp add: codec_ok_def key_bytes_def peer_new_def)
  then have "key_for_id (roster_load unhex (\<lambda>_. None) roster_empty (foldl (reg_exec hex) [] ?es)) ''d'' = Some (replicate 32 7)"
    unfolding ps using load_key_for_wf_id[of "[?p]" ?p] by (simp add: peers_wf_def peer_new_def)
  from keys_come_from_pairing[OF hex_codec _ _ this] show ?thesis
    by (simp add: peers_wf_def ex_paired_def)
qed

text \<open>
  C24. The registry stays well-formed: whatever writes it, every device keeps one entry, so
  the roster loaded from it has consistent indexes (the device a key is attributed to is
  pinned to that key).
\<close>

theorem registry_stays_well_formed:
  assumes "codec_ok b64 unb64" "peers_wf ps" "list_all op_ok es" "ps' = foldl (reg_exec b64) ps es"
  shows "distinct (map peer_id ps') \<and> roster_wf (roster_load unb64 resolve r ps')"
  using rg.runs_keep[of b64 unb64 ps es] load_wf assms by (auto simp: peers_wf_def)

theorem registry_stays_well_formed_witness:
  "roster_wf (roster_load unhex (\<lambda>_. None) roster_empty
     (foldl (reg_exec hex) [] [RPair True (Inr (ex_paired ''d'')) None [], RUnpair True ''d'', RRevoke True ''box'']))"
  by (rule registry_stays_well_formed[OF hex_codec _ _ refl, THEN conjunct2]) (simp_all add: peers_wf_def ex_paired_def)

text \<open>
  Nobody becomes authorised to send unattended unless an operation of the run asked for it by
  the device's id or name: an authorisation request of the user, a mutual request of a peer,
  or the refresh of a device that was authorised already.
\<close>

theorem authorisation_needs_a_request:
  assumes "codec_ok b64 unb64" "peers_wf ps" "op_ok e" "is_authorized (reg_exec b64 ps e) d" "\<not> is_authorized ps d"
  shows "\<exists>n. op_label e \<in> {TAuthorise n, TRefresh n} \<and> (d = n \<or> (\<exists>p. find_by_id ps d = Some p \<and> peer_name p = n))"
proof -
  have step: "trust_step (trust_abs unb64 ps) (op_label e) (trust_abs unb64 (reg_exec b64 ps e))"
    using reg_exec_refines[OF assms(1-3)] by blast
  from assms(4) obtain q where "find_by_id (reg_exec b64 ps e) d = Some q" "authorized q"
    by (auto simp: is_authorized_def split: option.splits)
  then have q: "trust_abs unb64 (reg_exec b64 ps e) d = Some (trust_of unb64 q)" "t_auth (trust_of unb64 q)"
    by (simp_all add: trust_abs_def trust_of_def)
  have "\<not> (\<exists>t0. trust_abs unb64 ps d = Some t0 \<and> t_auth t0)"
    using assms(5) by (auto simp: trust_abs_def trust_of_def is_authorized_def)
  with trust_step_auth[OF step q] show ?thesis by (auto simp: trust_abs_def trust_of_def)
qed

end
