(* ===== verification/Pair_Connect.thy ===== *)
theory Pair_Connect
  imports Tls Trust
begin

text \<open>
  From pairing to the first connection: \<open>qdrop pair\<close> on two machines
  (\<open>crates/qdrop-core/src/pairing.rs\<close>, \<open>crates/qdrop/src/main.rs\<close>), the registries it writes,
  the rosters the running daemons load from them and the TLS configurations they connect with
  (\<open>crates/qdrop-core/src/tls.rs\<close>).
\<close>

section \<open>The setting\<close>

text \<open>
  What SPAKE2, the payload codec and HMAC do for a PIN and the two devices: the halves agree on a
  key, as they do for equal passwords, payloads survive their encoding, everything fits its
  length.
\<close>

definition pair_lib_ok :: "'st pair_lib \<Rightarrow> string \<Rightarrow> local_info \<Rightarrow> local_info \<Rightarrow> bool" where
  "pair_lib_ok lib pin a b \<longleftrightarrow>
     (\<exists>sa ma sb mb key pa pb.
        spake_start lib Offerer (str_bytes pin) = (sa, ma) \<and> spake_start lib Requester (str_bytes pin) = (sb, mb)
        \<and> spake_finish lib sa mb = Some key \<and> spake_finish lib sb ma = Some key \<and> chunk_ok ma \<and> chunk_ok mb
        \<and> pl_enc lib (own_payload a) = Some pa \<and> pl_dec lib pa = Some (own_payload a) \<and> chunk_ok pa
        \<and> pl_enc lib (own_payload b) = Some pb \<and> pl_dec lib pb = Some (own_payload b) \<and> chunk_ok pb)
     \<and> (\<forall>k m. length (hmac_sha256 lib k m) = 32)"

text \<open>A connection that reads the given bytes; a network in which one address answers.\<close>

definition reading :: "bytes \<Rightarrow> link" where
  "reading w = \<lparr>l_in = \<lparr>s_data = w, s_fail = None\<rparr>, l_out = empty_writer\<rparr>"

definition net_to :: "socket_addr \<Rightarrow> (socket_addr \<Rightarrow> io_kind) \<Rightarrow> link \<Rightarrow> socket_addr \<Rightarrow> (io_kind, link) res" where
  "net_to listener refuse l q = (if q = listener then Inr l else Inl (refuse q))"

text \<open>\<open>i\<close> dials the device \<open>d\<close> with its roster \<open>r\<close>; the other side has identity \<open>j\<close> and roster \<open>r'\<close>.\<close>

definition can_dial ::
  "(tls_config \<Rightarrow> tls_config \<Rightarrow> bool) \<Rightarrow> ('k, 'a) rustls \<Rightarrow> (bytes \<Rightarrow> bytes option)
     \<Rightarrow> 'k \<times> bytes \<Rightarrow> roster \<Rightarrow> string \<Rightarrow> 'k \<times> bytes \<Rightarrow> roster \<Rightarrow> bool" where
  "can_dial completes ru x509 i r d j r' \<longleftrightarrow>
     (case key_for_id r d of
        Some expect \<Rightarrow>
          (case (client_config ru x509 i expect, server_config ru x509 j r') of
             (Inr c, Inr s) \<Rightarrow> completes c s
           | _ \<Rightarrow> False)
      | None \<Rightarrow> False)"

section \<open>Lemmas\<close>

lemma exchange_meets:
  assumes "pair_lib_ok lib pin a b" "length (li_key a) = 32" "length (li_key b) = 32"
  obtains wa wb where
    "fst (exchange lib False Offerer pin a (reading wb)) = Inr (paired_of b)"
    "fst (exchange lib False Requester pin b (reading wa)) = Inr (paired_of a)"
    "w_out (l_out (snd (exchange lib False Offerer pin a (reading wb)))) = wa"
    "w_out (l_out (snd (exchange lib False Requester pin b (reading wa)))) = wb"
proof -
  from assms(1) obtain sa ma sb mb key pa pb where
    "spake_start lib Offerer (str_bytes pin) = (sa, ma)" "spake_start lib Requester (str_bytes pin) = (sb, mb)"
    "spake_finish lib sa mb = Some key" "spake_finish lib sb ma = Some key" "chunk_ok ma" "chunk_ok mb"
    "pl_enc lib (own_payload a) = Some pa" "pl_dec lib pa = Some (own_payload a)" "chunk_ok pa"
    "pl_enc lib (own_payload b) = Some pb" "pl_dec lib pb = Some (own_payload b)" "chunk_ok pb"
    "\<forall>k m. length (hmac_sha256 lib k m) = 32"
    by (auto simp: pair_lib_ok_def)
  from pairing_agrees[OF this(1-9) assms(2) this(10-12) assms(3) this(13)] obtain wa wb la lb where
    "exchange lib False Offerer pin a (reading wb) = (Inr (paired_of b), la)" "w_out (l_out la) = wa"
    "exchange lib False Requester pin b (reading wa) = (Inr (paired_of a), lb)" "w_out (l_out lb) = wb"
    unfolding reading_def by blast
  then show thesis by (intro that[of wb wa]) simp_all
qed

lemma net_to_answers: "listener \<in> set addrs \<Longrightarrow> connect_from (net_to listener refuse l) e addrs = Inr l"
  by (induction addrs arbitrary: e) (auto simp: net_to_def)

lemma request_meets:
  assumes "resolve_target mdns target = Inr addrs" "listener \<in> set addrs"
  shows "run_request lib late mdns (net_to listener refuse l) local target pin = fst (exchange lib late Requester pin local l)"
  using assms by (simp add: run_request_def connect_any_def net_to_answers)

lemma can_dialI:
  assumes "cert_lib_ok klib x509 ru sign" "completes_ok sign transcript completes"
    and "from_key_pair klib ki = Inr i" "from_key_pair klib kj = Inr j"
    and "ru_versions ru [''TLSv1.3''] = Inr ()" "ru_identity ru (cert_chain i) (private_key ru i) = Inr ()"
      "ru_identity ru (cert_chain j) (private_key ru j) = Inr ()"
    and "key_for_id r d = Some (public_key klib j)" "is_trusted_key r' (public_key klib i)"
  shows "can_dial completes ru x509 i r d j r'"
proof -
  let ?e = "public_key klib j"
  obtain c s where c: "client_config ru x509 i ?e = Inr c" and s: "server_config ru x509 j r' = Inr s"
    using assms(5-7) by (simp add: client_config_def server_config_def tls_config_of_def)
  have e: "arr32 ?e" by (rule own_cert_key(2)[OF assms(1,4)])
  have "completes c s"
    using assms(2,9) server_proves_iff[OF assms(1,4) e c s] client_proves_iff[OF assms(1,3) c s] config_versions[OF c s]
    unfolding completes_ok_def by blast
  then show ?thesis by (simp add: can_dial_def assms(8) c s)
qed

section \<open>Properties\<close>

text \<open>
  C13. Devices that paired can connect: one machine offers, the other is given its PIN and finds its
  address among those that answer; then there are two byte streams, each being what one side
  writes while reading the other, on which both commands succeed, each naming the other device;
  and once both daemons have noticed their changed registries, each can dial the other: the TLS
  handshake completes in both directions, whatever else the registries hold and whatever was
  known of the devices before.
\<close>

theorem paired_devices_connect:
  assumes "pair_lib_ok lib pin a b" "codec_ok b64 unb64" "cert_lib_ok klib x509 ru sign" "completes_ok sign transcript completes"
    and "from_key_pair klib ka = Inr ia" "li_key a = public_key klib ia" "from_key_pair klib kb = Inr ib" "li_key b = public_key klib ib"
    and "ru_versions ru [''TLSv1.3''] = Inr ()" "ru_identity ru (cert_chain ia) (private_key ru ia) = Inr ()"
      "ru_identity ru (cert_chain ib) (private_key ru ib) = Inr ()"
    and "gen_pin draws = Some (Inr pin)" "trim typed = pin"
    and "resolve_target mdns target = Inr addrs" "listener \<in> set addrs" "peers_wf psa" "peers_wf psb"
    and "na \<noteq> ta" "nb \<noteq> tb"
  shows "\<exists>wa wb offer psa' psb'.
      w_out (l_out (snd (exchange lib False Offerer pin a (reading wb)))) = wa
    \<and> w_out (l_out (snd (exchange lib False Requester pin b (reading wa)))) = wb
    \<and> run_offer lib False draws (Inr ()) (Inr ()) (Some (Inr (reading wb))) a = Some (Some pin, offer)
    \<and> cmd_pair b64 True (Inr psa) offer request None [] = Inr (paired_of b, psa')
    \<and> cmd_pair b64 True (Inr psb) offer' (run_request lib False mdns (net_to listener refuse (reading wa)) b) (Some target) typed
        = Inr (paired_of a, psb')
    \<and> (let ra' = snd (fst (roster_reload unb64 res_a na (Inr psa') (ta, ra)));
           rb' = snd (fst (roster_reload unb64 res_b nb (Inr psb') (tb, rb)))
       in can_dial completes ru x509 ia ra' (li_id b) ib rb' \<and> can_dial completes ru x509 ib rb' (li_id a) ia ra')"
proof -
  have len: "length (li_key a) = 32" "length (li_key b) = 32"
    using own_cert_key(2)[OF assms(3,5)] own_cert_key(2)[OF assms(3,7)] by (simp_all add: assms(6,8) arr32_def)
  obtain wa wb where x:
    "fst (exchange lib False Offerer pin a (reading wb)) = Inr (paired_of b)"
    "fst (exchange lib False Requester pin b (reading wa)) = Inr (paired_of a)"
    "w_out (l_out (snd (exchange lib False Offerer pin a (reading wb)))) = wa"
    "w_out (l_out (snd (exchange lib False Requester pin b (reading wa)))) = wb"
    by (rule exchange_meets[OF assms(1) len])
  obtain psa' where a: "record_peer b64 True (Inr psa) (paired_of b) None = Inr psa'" by (simp add: record_peer_def Let_def)
  obtain psb' where b: "record_peer b64 True (Inr psb) (paired_of a) (Some (pair_address target)) = Inr psb'"
    by (simp add: record_peer_def Let_def)
  have codec: "unb64 (trim (b64 (pd_key (paired_of i)))) = Some (pd_key (paired_of i))" if "length (li_key i) = 32" for i
    using assms(2) that by (simp add: codec_ok_def paired_of_def)
  have "length (pd_key (paired_of a)) = 32" "length (pd_key (paired_of b)) = 32" using len by (simp_all add: paired_of_def)
  note ta = recorded_key_is_loaded[OF a assms(16), of unb64, OF codec[OF len(2)] this(2)] and tb = recorded_key_is_loaded[OF b assms(17), of unb64, OF codec[OF len(1)] this(1)]
  have "cmd_pair b64 True (Inr psa) (Inr (paired_of b)) request None [] = Inr (paired_of b, psa')"
    by (simp add: cmd_pair_def a)
  moreover have prompt: "prompt_pin typed = Inr typed"
    using gen_pin_InrD[OF assms(12)] fmt_06_shape by (auto simp: prompt_pin_def Let_def assms(13))
  moreover have "cmd_pair b64 True (Inr psb) offer' (run_request lib False mdns (net_to listener refuse (reading wa)) b) (Some target) typed
      = Inr (paired_of a, psb')"
    by (simp add: cmd_pair_def assms(13) prompt request_meets[OF assms(14,15)] x(2) b)
  moreover have "run_offer lib False draws (Inr ()) (Inr ()) (Some (Inr (reading wb))) a = Some (Some pin, Inr (paired_of b))"
    by (simp add: run_offer_def assms(12) x(1))
  moreover note can_dialI[OF assms(3,4,5,7,9-11)] can_dialI[OF assms(3,4,7,5,9,11,10)]
  ultimately show ?thesis
    using x(3,4) ta tb assms(6,8,18,19)
    by (intro exI[of _ wa] exI[of _ wb] exI[of _ "Inr (paired_of b)"] exI[of _ psa'] exI[of _ psb'])
      (simp add: Let_def roster_reload_def paired_of_def)
qed

theorem paired_devices_connect_witness:
  "\<exists>psa psb.
     can_dial tls_completes tls_ru Some (1, replicate 32 1) (roster_load unhex (\<lambda>_. None) roster_empty psa) ''b''
       (2, replicate 32 2) (roster_load unhex (\<lambda>_. None) roster_empty psb)"
proof -
  obtain pin where pin: "gen_pin [Some [1, 2, 3, 4]] = Some (Inr pin)"
    using gen_pin_returns[of "[Some [1, 2, 3, 4]]" "[1, 2, 3, 4]"] by (auto simp: be_val_def simp del: gen_pin.simps)
  then have digits: "list_all is_ascii_digit pin" using gen_pin_InrD fmt_06_shape by blast
  have lib: "pair_lib_ok ex_lib pin pair_a pair_b" by (simp add: pair_lib_ok_def ex_lib_facts)
  have trim: "trim pin = pin" using digits by (intro trim_ascii) (auto simp: list_all_iff is_ascii_digit_def is_whitespace_def Let_def)
  have ip: "resolve_target (Inr []) ''::1'' = Inr [socket_new (V6 [0, 0, 0, 0, 0, 0, 0, 1]) PAIR_PORT]"
    by (simp add: resolve_target_def parse_examples)
  have k: "li_key pair_a = public_key tls_keys (1, replicate 32 1)" "li_key pair_b = public_key tls_keys (2, replicate 32 2)"
    by (simp_all only: tls_public) (simp_all add: pair_a_def pair_b_def)
  have ru: "ru_versions tls_ru v = Inr ()" "ru_identity tls_ru c d = Inr ()" for v c d by (simp_all add: tls_ru_def)
  have wf: "peers_wf []" by (simp add: peers_wf_def)
  have ne: "Some (2 :: nat) \<noteq> Some 1" by simp
  from paired_devices_connect[OF lib hex_codec tls_laws tls_ids(1) k(1) tls_ids(2) k(2) ru(1,2,2) pin trim ip list.set_intros(1) wf wf ne ne,
      where ra = roster_empty and rb = roster_empty and res_a = "\<lambda>_. None" and res_b = "\<lambda>_. None"
      and request = "\<lambda>_ _. Inl BadPin" and offer' = "Inl BadPin" and refuse = "\<lambda>_. UnexpectedEof"]
  obtain psa psb where "can_dial tls_completes tls_ru Some (1, replicate 32 1) (roster_load unhex (\<lambda>_. None) roster_empty psa)
      (li_id pair_b) (2, replicate 32 2) (roster_load unhex (\<lambda>_. None) roster_empty psb)"
    by (auto simp: roster_reload_def Let_def)
  moreover have "li_id pair_b = ''b''" by (simp add: pair_b_def)
  ultimately show ?thesis by auto
qed

end
