(* ===== verification/Spec2Isabelle.thy ===== *)
theory Spec2Isabelle
  imports History_Spec Clip_Backend Images Commands Arrival Pair_Connect
begin

text \<open>
  \<^bold>\<open>qdrop\<close>: a clipboard, file and link bridge between paired machines. The program is two
  executables over one library: the daemon \<open>qdropd\<close> (\<open>crates/qdropd\<close>), the command line client
  \<open>qdrop\<close> (\<open>crates/qdrop\<close>), and \<open>qdrop-core\<close> (\<open>crates/qdrop-core\<close>). Daemons find each other by
  mDNS or static addresses, connect by TLS 1.3 with keys pinned at pairing, exchange a hello and
  then length-prefixed messages; a router hands the messages to the sync loop, the file
  transfers, the authorisation manager and the link opener. The client edits the registry of
  paired devices and talks to its daemon over a Unix socket.

  \<^bold>\<open>Theories and sources.\<close> A theory names its source files at its beginning; paths are relative
  to \<open>src/crates/\<close>.
  \<^item> \<open>Prelude\<close>, \<open>Rust_Std\<close>: the machine types, the collections of facts, the locales
    \<open>event_system\<close> (a handler that keeps an invariant), \<open>guarded_system\<close> (one whose environment
    keeps to rules) and \<open>refinement\<close> (a handler that refines a labelled transition relation); the parts of Rust's standard library the sources use
    (UTF-8, trimming, splitting, paths, integer parsing and printing).
  \<^item> \<open>Proto\<close> (\<open>proto.rs\<close>), \<open>Frame\<close> (\<open>frame.rs\<close>), \<open>Crypto\<close> (\<open>crypto.rs\<close>), \<open>Net\<close> (addresses),
    \<open>Peers\<close> (\<open>peers.rs\<close>), \<open>Roster\<close> (\<open>roster.rs\<close>), \<open>Config\<close> (\<open>config.rs\<close>), \<open>Paths\<close> (\<open>paths.rs\<close>,
    \<open>device.rs\<close>), \<open>Identity\<close> (\<open>identity.rs\<close>, \<open>sysinfo.rs\<close>), \<open>Pairing\<close> (\<open>pairing.rs\<close>),
    \<open>Tls\<close> (the configurations of \<open>tls.rs\<close>), \<open>Doctor\<close> (\<open>doctor.rs\<close>): the library \<open>qdrop-core\<close>.
  \<^item> \<open>Bus\<close> (\<open>bus.rs\<close>), \<open>Backoff\<close> (\<open>backoff.rs\<close>), \<open>Filexfer\<close>, \<open>Filexfer_Props\<close>, \<open>Filesend\<close>,
    \<open>Interleaved\<close>, \<open>Sends\<close> and \<open>Arrival\<close> (\<open>filexfer.rs\<close>: receiving, its properties, sending; many
    incoming transfers at once; many sends at once; both together), \<open>Auth\<close> (\<open>auth.rs\<close>, \<open>weblink.rs\<close>), \<open>History\<close> and
    \<open>History_Spec\<close> (\<open>history.rs\<close> and the log it implements), \<open>Clipboard\<close> and \<open>Clip_Backend\<close>
    (\<open>clipboard.rs\<close>: the loop; the boards of both platforms, the thread and its handle), \<open>Sync\<close> (\<open>sync.rs\<close>), \<open>Connection\<close> (\<open>connection.rs\<close>), \<open>Transport\<close>
    (\<open>transport.rs\<close>, the manager), \<open>Secure\<close> (\<open>secure.rs\<close>, the verifiers of \<open>tls.rs\<close>, the accept and
    dial tasks), \<open>Links\<close> (the manager with all tasks around its channel), \<open>Discovery\<close>
    (\<open>discovery.rs\<close>, the advertisement of \<open>pairing.rs\<close>),
    \<open>State\<close> (\<open>state.rs\<close> of both crates), \<open>Control\<close> and \<open>Ctl_Wire\<close> (\<open>control.rs\<close> of both crates),
    \<open>Daemon\<close> (\<open>main.rs\<close>: start, router, pollers), \<open>Process\<close> (\<open>main.rs\<close>: signals, stopping; the
    socket of \<open>control.rs\<close>), \<open>Images\<close> (the path of a copied image): the daemon.
  \<^item> \<open>Cli\<close> (pairing commands, quoting; also \<open>notify.rs\<close>), \<open>Client\<close> (the other commands of
    \<open>qdrop/src/main.rs\<close>) and \<open>Commands\<close> (\<open>cli.rs\<close>, \<open>main\<close> and \<open>run\<close>, \<open>logging.rs\<close>): the client.
  \<^item> \<open>Trust\<close>: the specification of who is trusted and its refinement by every writer of the
    registry. \<open>Pair_Connect\<close>: from pairing on two machines to the first connection. This theory:
    properties that span the daemon.

  \<^bold>\<open>How code is modelled.\<close> A struct is a record, an enum a datatype, a \<open>Result\<close> a sum with the
  error on the left, a \<open>String\<close> the list of its UTF-8 bytes, fixed-width integers are words
  where wrapping or truncation matters. A component that lives behind a lock is a record passed
  through its operations; an asynchronous task is a step function over the events it selects on,
  and concurrency is an arbitrary sequence of such events. Channels are bounded queues (\<open>Bus\<close>).
  The file system has directory entries, inodes and open handles, so that renaming, truncation
  and writing through an old handle behave as on Unix. The directory of the history with its
  index and the registry file are fields of their own (\<open>h_files\<close>, \<open>h_index\<close>, \<open>dm_reg\<close>), taken to lie
  outside the download directory. Streaming an image waits for its acknowledgements inside the
  step of the sync loop that makes it (\<open>local_copy\<close>). What the outside world answers (system
  calls that fail, clocks, random bytes, the peer's acknowledgement) is an argument of the step.
  Third-party code is a parameter with its laws as hypotheses: the message codec (\<open>frame_ok\<close>),
  JSON text (\<open>wire_ok\<close>), base64 (\<open>codec_ok\<close>), PEM keys (\<open>key_lib_ok\<close>), SHA-256, SPAKE2 and the
  key derivation of pairing, TLS (\<open>tls_sound\<close>, \<open>completes_ok\<close>), certificates (\<open>cert_lib_ok\<close>), mDNS
  (\<open>names_ok\<close>), the image library, TOML.

  \<^bold>\<open>What is shown.\<close>
  \<^item> The daemon as a whole (\<open>daemon_start\<close>, \<open>daemon_step\<close> in \<open>Daemon\<close>; interpretation \<open>dm\<close>): whatever
    arrives from the network and the command line, only entries of the download directory, the
    numbered images and the index of the history and the registry file are touched, pinned keys,
    limits and the link filter are safe; a copied text travels from one daemon to the other;
    unpairing takes effect on a running daemon (this theory); a copied image travels as blocks
    through the transfers to the other clipboard (\<open>Images\<close>).
  \<^item> Trust: the registry refines a specification in which only pairing introduces keys (\<open>Trust\<close>,
    interpretation \<open>rg\<close>); rosters have consistent indexes (\<open>Roster\<close>, \<open>ros\<close>); pairing agrees on both
    sides and authenticates (\<open>Pairing\<close>, \<open>pc\<close>); connections are pinned to keys and ids (\<open>Secure\<close>);
    a handshake completes exactly between sides that pin each other (\<open>Tls\<close>); two devices whose
    users ran \<open>qdrop pair\<close> can dial each other in both directions (\<open>Pair_Connect\<close>); over all
    interleavings of the network tasks nobody gets a link without such a handshake (\<open>Links\<close>).
  \<^item> Transfers: confinement, exactness, refusal of damaged data, bounds (\<open>Filexfer_Props\<close>, \<open>fxs\<close>,
    \<open>fxl\<close>), the round trip from sender to receiver (\<open>Filesend\<close>); a file is exact whatever other
    transfers run between its messages and keeps its bytes whatever is received later
    (\<open>Interleaved\<close>, \<open>fxe\<close>, \<open>fxk\<close>), and every attempt to send acts as
    if it ran alone, whatever other attempts and messages run between its steps (\<open>Sends\<close>, \<open>sds\<close>);
    together, files sent concurrently arrive and are acknowledged (\<open>Arrival\<close>).
  \<^item> Wire and connections: framing round trip and errors (\<open>Frame\<close>, \<open>fr\<close>), handshake agreement,
    delivery, idle timeout (\<open>Connection\<close>), one dial loop per peer (\<open>Transport\<close>, \<open>tr\<close>), advertised
    devices are found and dialled (\<open>Discovery\<close>).
  \<^item> Clipboard: no echo, rate limit, pause (\<open>Sync\<close>, \<open>Clipboard\<close>); marked items stay on the machine,
    and on macOS their content has no influence at all (\<open>Clip_Backend\<close>); the history with its
    files and restarts refines a bounded log, which is the documented list of the last distinct
    contents as long as no copy returns to an older entry (\<open>History\<close>, \<open>hs\<close>, \<open>History_Spec\<close>).
  \<^item> Files: atomic replacement, stable identities, behaviour after a crash (\<open>Paths\<close>, \<open>Identity\<close>).
  \<^item> Client: the control protocol round trip (\<open>Ctl_Wire\<close>), exit results and loops of the commands, in
    particular when \<open>qdrop send\<close> reports success (\<open>Client\<close>), the diagnosis (\<open>Doctor\<close>), quoting for shells and AppleScript (\<open>Cli\<close>), what a command
    can change in the daemon, the registry and the download directory (\<open>Commands\<close>); the socket leads to the daemon that runs (\<open>Process\<close>, \<open>hp\<close>).
  Theorems whose text says that something goes wrong (for instance
  \<open>same_id_transfers_mix\<close>, \<open>failed_flush_is_acknowledged\<close>) prove deviations of the code from what it
  means to do.

  \<^bold>\<open>Bounds and termination.\<close> Recursive definitions follow the data they consume: the reader task
  ends because each frame shortens the stream, eviction because the queue shrinks, the retry loop
  runs over the three attempts, \<open>unique_dest\<close> over its ten thousand names. Loops that wait
  (\<open>gen_pin\<close>, \<open>recv_loop\<close>, \<open>dial_loop\<close>) run over the list of what they observe and return \<open>None\<close> (or
  the waiting state) when it is used up; \<open>gen_pin_six_digits\<close>, \<open>recv_ends_in_time\<close> and
  \<open>dial_loop_goes_on\<close> say how much is enough.

  \<^bold>\<open>Not modelled.\<close> Log lines and the tracing subscriber; clap's argument parsing; the inside of TLS
  (rustls), of the mDNS daemon, of the clipboard and image libraries; the tokio runtime; the
  programs started for links and notifications (their command lines are); the text form of TOML,
  JSON and message encodings; locks (each access is one call), preemption inside one step of a
  handler, and changes of the board while one snapshot is taken (its fields are the results of
  separate calls); the Windows branches; tests, fuzz targets, packaging.
\<close>

section \<open>What the network can do to a daemon\<close>

text \<open>
  The paths whose content differs between two states of the daemon: in the file system the
  transfers work on, in the directory of the history, and the registry file. (The index and the
  registry are replaced through a temporary sibling, \<open>Paths\<close>; the state file, which the network
  tasks write, is in \<open>State\<close>.)
\<close>

definition touched :: "string \<Rightarrow> string \<Rightarrow> daemon \<Rightarrow> daemon \<Rightarrow> string set" where
  "touched hist_dir reg_file d d' =
     {q. dirents (fx_fs (dm_fx d')) q \<noteq> dirents (fx_fs (dm_fx d)) q \<or> read_file (fx_fs (dm_fx d')) q \<noteq> read_file (fx_fs (dm_fx d)) q}
     \<union> path_join hist_dir ` {n. h_files (sy_history (dm_sync d')) n \<noteq> h_files (sy_history (dm_sync d)) n}
     \<union> (if h_index (sy_history (dm_sync d')) \<noteq> h_index (sy_history (dm_sync d)) then {path_join hist_dir ''index.json''} else {})
     \<union> (if dm_reg d' \<noteq> dm_reg d then {reg_file} else {})"

lemma png_plain: "png_numbered n \<Longrightarrow> plain_name n"
proof -
  assume "png_numbered n"
  then obtain k :: u64 where n: "n = dec_str (unat k) @ ''.png''" unfolding png_numbered_def png_name_def by blast
  have "CHR ''/'' \<notin> set (dec_str (unat k))"
    using dec_str_digits[of "unat k"] by (auto simp: list_all_iff is_ascii_digit_def)
  then show ?thesis by (auto simp: n plain_name_def append_eq_Cons_conv)
qed

lemma start_files:
  "daemon_start su = Inr (Some d) \<Longrightarrow>
     fx_fs (dm_fx d) = su_fs su \<and> dm_reg d = su_reg su \<and> h_files (sy_history (dm_sync d)) = su_pngs su"
  by (auto dest!: daemon_start_Some simp: daemon_new_def Let_def filexfer_new_def sync_new_def history_load_def)


definition ex_startup :: startup where
  "ex_startup = \<lparr>su_port = None, su_check = False, su_config = Inr (config_default None None), su_device = Inr ''own'', su_identity = Inr (),
     su_reg = Inr [], su_tls = Inr (), su_bind = Inr, su_discovery = Inr (), su_downloads = Inr ''/dl'', su_index = None,
     su_pngs = (\<lambda>_. None), su_board = True, su_now = 0, su_fs = fx_fs ex_fx\<rparr>"

definition ex_daemon :: daemon where
  "ex_daemon = daemon_new ex_startup (config_default None None) ''own'' (port (config_default None None))"

definition ex_route :: route_env where
  "ex_route = \<lparr>re_fx = ex_env, re_auth = ce_auth ct_env, re_spawn_ok = True\<rparr>"

lemma ex_start: "daemon_start ex_startup = Inr (Some ex_daemon)"
  by (simp add: daemon_start_def ex_daemon_def ex_startup_def)

text \<open>A transfer that asks for a path outside, one that is accepted, a copied image and a request.\<close>

definition ex_frames :: "daemon_event list" where
  "ex_frames = [Inbound ex_route ''id-a'' (BlobStart 1 ''../etc/passwd'' 3 File), Inbound ex_route ''id-a'' (BlobStart 3 ''a.txt'' 3 File),
     LocalCopy (\<lambda>_. (None, AckTimeout)) ex_hev 1000 (LocalImage [7]), CtlRequest ct_env ClipPause]"


section \<open>Unpairing\<close>

text \<open>
  C3. Unpairing takes effect: once \<open>qdrop pair --remove\<close> has saved the registry (whose entries have
  different ids), a poll that sees the new file and the manager's handling of the change leave a
  running daemon, whatever it went through before, trusting exactly the keys of the entries of
  other names and no longer the id of the entry removed: it has no entry, no dial loop and, if it
  had an entry, no link on the bus and no running task. So a device that was paired once is cut
  off; one that was paired under two ids and names keeps its key until both are removed.
\<close>

theorem unpairing_cuts_the_device_off:
  assumes "peers_wf ps" "p \<in> set ps" "peer_name p = name" "cmd_unpair True (Inr ps) name = Inr ps'"
    and "now \<noteq> prev" "roster_reload unb64 resolve now (Inr ps') (prev, m_roster m) = ((prev', r'), told)"
    and "m = foldl world_step (mgr_start own r ks b) evs"
    and "m' = world_step (world_step m (ReloadRoster r')) (Loop (RosterChanged ks'))"
  shows "told \<and> \<not> is_trusted_id r' (peer_id p)
    \<and> (\<forall>k. is_trusted_key r' k \<longleftrightarrow> (\<exists>q\<in>set ps. peer_name q \<noteq> name \<and> key_bytes unb64 q = Inr k))
    \<and> map_of (m_peers m') (peer_id p) = None \<and> (\<forall>n. (n, DialTask (peer_id p)) \<notin> set (m_live m'))
    \<and> (\<forall>e. map_of (m_peers m) (peer_id p) = Some e \<longrightarrow>
         sender (m_bus m') (peer_id p) = None \<and> (\<forall>n t. pe_task e = Some n \<longrightarrow> (n, t) \<notin> set (m_live m')))"
proof -
  have ps': "ps' = snd (remove_by_name ps name)"
    using assms(4) by (auto simp: cmd_unpair_def split: prod.splits bool.splits)
  have r': "r' = roster_load unb64 resolve (m_roster m) ps'" "told"
    using assms(5,6) by (auto simp: roster_reload_def)
  have "peer_id q \<noteq> peer_id p" if "q \<in> set ps" "peer_name q \<noteq> name" for q
    using find_by_id_mem[OF assms(1) that(1)] find_by_id_mem[OF assms(1,2)] that(2) assms(3) by (metis option.inject)
  then have un: "\<not> is_trusted_id r' (peer_id p)"
    unfolding r' ps' load_trusted_id by (auto simp: remove_by_name_def Let_def)
  have keys: "is_trusted_key r' k \<longleftrightarrow> (\<exists>q\<in>set ps. peer_name q \<noteq> name \<and> key_bytes unb64 q = Inr k)" for k
    unfolding r' ps' load_trusted_key by (auto simp: remove_by_name_def Let_def)
  have "mgr_wf m" unfolding assms(7) by (rule tr.run_keeps[OF mgr_start_wf])
  from reload_cuts_off[OF this un assms(8)] un keys r'(2) show ?thesis by blast
qed

text \<open>The example: a daemon that dials its one peer, and a registry file that names it.\<close>

theorem unpairing_cuts_the_device_off_witness:
  "map_of (m_peers (world_step (world_step (mgr_start ''a'' (roster_load ex_unb64 (\<lambda>_. None) roster_empty [ex_peer ''b'' ''id-b'' (CHR ''1'')]) [] bus_new)
      (ReloadRoster (roster_load ex_unb64 (\<lambda>_. None) (roster_load ex_unb64 (\<lambda>_. None) roster_empty [ex_peer ''b'' ''id-b'' (CHR ''1'')]) [])))
      (Loop (RosterChanged [])))) ''id-b'' = None"
proof -
  let ?p = "ex_peer ''b'' ''id-b'' (CHR ''1'')"
  let ?r = "roster_load ex_unb64 (\<lambda>_. None) roster_empty [?p]"
  let ?m = "mgr_start ''a'' ?r [] bus_new"
  let ?r' = "roster_load ex_unb64 (\<lambda>_. None) (m_roster ?m) []"
  have m: "m_roster ?m = ?r" by (simp add: mgr_start_def ensure_all_facts)
  have wf: "peers_wf [?p]" by (simp add: peers_wf_def)
  have n: "peer_name ?p = ''b''" "peer_id ?p = ''id-b''" by (simp_all add: ex_peer_def peer_new_def)
  have u: "cmd_unpair True (Inr [?p]) ''b'' = Inr []" by (simp add: cmd_unpair_def remove_by_name_def n)
  have r: "roster_reload ex_unb64 (\<lambda>_. None) (Some 2) (Inr []) (Some 1, m_roster ?m) = ((Some 2, ?r'), True)"
    by (simp add: roster_reload_def)
  show ?thesis
    using unpairing_cuts_the_device_off[OF wf _ n(1) u _ r, where evs = "[]" and own = "''a''" and r = ?r and ks = "[]" and b = bus_new,
      OF _ _ _ refl] by (simp add: n m)
qed

section \<open>A copied text from one machine to the other\<close>

text \<open>
  The sending daemon is not paused or rate limited, the text is new and within the limit, no
  image is being streamed, and the queue of the link to the other device is empty and open; the receiving daemon is not
  paused, has a clipboard, the text is new to it and within its limit, and nothing waits for
  its sync loop.
\<close>

definition ready_to_send :: "(bytes \<Rightarrow> bytes) \<Rightarrow> nat \<Rightarrow> string \<Rightarrow> nat \<Rightarrow> daemon \<Rightarrow> bool" where
  "ready_to_send sha now t c a \<longleftrightarrow>
     \<not> sy_paused (dm_sync a) \<and> sy_last (dm_sync a) + min_gap \<le> now \<and> length t \<le> sy_max (dm_sync a)
     \<and> sy_synced (dm_sync a) \<noteq> Some (sha (str_bytes t)) \<and> bus_wf (dm_bus a)
     \<and> sy_blobs (dm_sync a) = [] \<and> queue (chans (dm_bus a) c) = [] \<and> 0 < cap (chans (dm_bus a) c) \<and> \<not> closed (chans (dm_bus a) c)"

definition ready_to_apply :: "(bytes \<Rightarrow> bytes) \<Rightarrow> string \<Rightarrow> string \<Rightarrow> daemon \<Rightarrow> bool" where
  "ready_to_apply sha t origin b \<longleftrightarrow>
     \<not> sy_paused (dm_sync b) \<and> sy_clip (dm_sync b) \<and> sy_own (dm_sync b) \<noteq> origin
     \<and> length t \<le> sy_max (dm_sync b) \<and> sy_synced (dm_sync b) \<noteq> Some (sha (str_bytes t)) \<and> dm_clip_rx b = []"

lemma local_copy_queued:
  assumes "ready_to_send sha now t c a" "sender (dm_bus a) d = Some c"
  shows "queue (chans (dm_bus (daemon_step sha a (LocalCopy w ev now (LocalText t)))) c)
    = [Clipboard (sy_seq (dm_sync a) + 1) (sy_own (dm_sync a)) [clip_text t]]"
proof -
  let ?st = "sync_local sha ev now (LocalText t) ((dm_sync a)\<lparr>sy_bus := dm_bus a\<rparr>)"
  have "sy_blobs ?st = []" using assms(1) by (simp add: ready_to_send_def sync_local_def Let_def)
  then show ?thesis
    using assms local_text_queued[where sha = sha and a = "(dm_sync a)\<lparr>sy_bus := dm_bus a\<rparr>" and d = d and c = c
        and now = now and t = t and ev = ev]
    by (simp add: ready_to_send_def daemon_step_def local_copy_def on_sync_def Let_def)
qed

lemma inbound_text_applied:
  assumes "ready_to_apply sha t origin b" "utf8_ok t"
  shows "let b' = foldl (daemon_step sha) b [Inbound env pid (Clipboard n origin [clip_text t]), TakeClip ev]
     in sy_applied (dm_sync b') = sy_applied (dm_sync b) @ [ApplyText t] \<and> dm_bus b' = dm_bus b \<and> dm_clip_rx b' = []"
  using assms remote_text_applied[where sha = sha and b = "(dm_sync b)\<lparr>sy_bus := dm_bus b\<rparr>" and t = t and origin = origin]
    sync_remote_bus[of sha ev pid "Clipboard n origin [clip_text t]" "(dm_sync b)\<lparr>sy_bus := dm_bus b\<rparr>"]
  by (simp add: ready_to_apply_def daemon_step_def on_sync_def take_clip_def Let_def del: sync_remote.simps)

text \<open>
  C2. A text copied on one machine arrives on the other: the sync loop queues exactly one message
  for the connected device; the bytes of all that is queued, cut into frames by the reader task of
  the other daemon, taken in time by its connection loop and handed one after the other to its router and
  sync loop, put exactly that text on the clipboard there, once, and nothing is sent back.
\<close>

theorem copied_text_travels:
  assumes "ready_to_send sha now t c a" "sender (dm_bus a) d = Some c" "utf8_ok t"
    and "ready_to_apply sha t (sy_own (dm_sync a)) b"
    and "a' = daemon_step sha a (LocalCopy w ev now (LocalText t))"
    and "list_all (frame_ok enc dec) (queue (chans (dm_bus a') c))"
    and "rs = reader os codec dec \<lparr>s_data = concat (map (frame_bytes enc) (queue (chans (dm_bus a') c))), s_fail = None\<rparr>"
    and "arrival < t0 + idle_timeout ka" "0 < idle_timeout ka"
    and "cn = foldl (conn_step ka pid) (conn_start ka t0) (map (\<lambda>r. (arrival, True, True, FrameRecv (Some r))) rs)"
    and "b' = foldl (daemon_step sha) b (map (\<lambda>(p, m). Inbound env p m) (cn_inbound cn) @ map (\<lambda>_. TakeClip ev') (cn_inbound cn))"
  shows "length (queue (chans (dm_bus a') c)) = 1 \<and> length (cn_inbound cn) = 1 \<and> cn_done cn = Some PeerClosed
    \<and> sy_applied (dm_sync b') = sy_applied (dm_sync b) @ [ApplyText t] \<and> dm_bus b' = dm_bus b"
proof -
  let ?m = "Clipboard (sy_seq (dm_sync a) + 1) (sy_own (dm_sync a)) [clip_text t]"
  have q: "queue (chans (dm_bus a') c) = [?m]" unfolding assms(5) by (rule local_copy_queued[OF assms(1,2)])
  have "rs = [Inr ?m, Inl []]"
    using reader_frames[where ms = "[?m]" and s = "\<lparr>s_data = [], s_fail = None\<rparr>" and rest = "[]" and os = os and codec = codec]
      reader_eof[of os codec dec] assms(6) by (simp add: assms(7) q)
  then have cn: "cn_inbound cn = [(pid, ?m)]" "cn_done cn = Some PeerClosed"
    using assms(8,9) by (simp_all add: assms(10) conn_step_def conn_start_def)
  then show ?thesis
    using inbound_text_applied[OF assms(4,3), of env pid "sy_seq (dm_sync a) + 1" ev'] q by (simp add: assms(11) Let_def)
qed

definition ex_update :: message where
  "ex_update = Clipboard 1 ''own'' [clip_text ''hi'']"

definition ex_enc :: "message \<Rightarrow> bytes option" where
  "ex_enc m = (if m = ex_update then Some [1] else None)"

definition ex_dec :: "bytes \<Rightarrow> message option" where
  "ex_dec b = (if b = [1] then Some ex_update else None)"

definition ex_sender :: daemon where
  "ex_sender = (ct_daemon (RestoredText []))\<lparr>dm_sync := ex_sync ''own''\<rparr>"

definition ex_receiver :: daemon where
  "ex_receiver = (ct_daemon (RestoredText []))\<lparr>dm_sync := ex_sync ''other''\<rparr>"

definition ex_copied :: daemon where
  "ex_copied = daemon_step (\<lambda>b. b) ex_sender (LocalCopy (\<lambda>_. (None, AckTimeout)) ex_hev 1000 (LocalText ''hi''))"

definition ex_conn :: conn_state where
  "ex_conn = foldl (conn_step keep_alive_default ''own'') (conn_start keep_alive_default 0)
     (map (\<lambda>r. (1, True, True, FrameRecv (Some r))) (reader (\<lambda>_. []) [] ex_dec
        \<lparr>s_data = concat (map (frame_bytes ex_enc) (queue (chans (dm_bus ex_copied) 0))), s_fail = None\<rparr>))"

theorem copied_text_travels_witness:
  "sy_applied (dm_sync (foldl (daemon_step (\<lambda>b. b)) ex_receiver
     (map (\<lambda>(p, m). Inbound ex_route p m) (cn_inbound ex_conn) @ map (\<lambda>_. TakeClip ex_hev) (cn_inbound ex_conn)))) = [ApplyText ''hi'']"
proof -
  have s: "ready_to_send (\<lambda>b. b) 1000 ''hi'' 0 ex_sender" "sender (dm_bus ex_sender) ''id-a'' = Some 0"
    by (simp_all add: ready_to_send_def ex_sender_def ct_daemon_def ex_sync_def ct_bus_def bus_wf_def sender_def min_gap_def)
  have own: "sy_own (dm_sync ex_sender) = ''own''" "sy_seq (dm_sync ex_sender) = 0"
    by (simp_all add: ex_sender_def ex_sync_def)
  have r: "ready_to_apply (\<lambda>b. b) ''hi'' (sy_own (dm_sync ex_sender)) ex_receiver"
    by (simp add: own ready_to_apply_def ex_receiver_def ct_daemon_def ex_sync_def)
  have u: "utf8_ok ''hi''" by (rule utf8_ok_ascii) simp
  have f: "list_all (frame_ok ex_enc ex_dec) (queue (chans (dm_bus ex_copied) 0))"
    using local_copy_queued[OF s]
    by (simp add: own ex_copied_def ex_update_def[symmetric] frame_ok_def ex_enc_def ex_dec_def MAX_FRAME_LEN_def)
  from copied_text_travels[OF s u r ex_copied_def f refl _ _ ex_conn_def refl] show ?thesis
    by (simp add: keep_alive_default_def ex_receiver_def ex_sync_def)
qed

end
